(* ===== verification/Prelude.thy ===== *)
theory Prelude
  imports Main
begin

text \<open>
  The prelude of the development: results of fallible Go calls as sums, the wrap-around of
  Go's \<open>int64\<close>, the string operations of Go's \<^verbatim>\<open>strings\<close> package the
  sources use, and the recurring "seen map" loop with its characterisation. The collection
  \<open>decide\<close> holds the equations that decide a fallible step; component proofs use it as
  \<^theory_text>\<open>simp add: decide\<close>.
\<close>

section \<open>Collections\<close>

named_theorems decide \<open>equations that resolve one step of a modelled function\<close>
named_theorems wf_intros \<open>introduction rules for the invariants of the components\<close>

section \<open>Fallible results\<close>

text \<open>A Go call that returns \<^verbatim>\<open>(value, error)\<close> is a sum: \<open>Inl\<close> carries the
  error, \<open>Inr\<close> the value. \<open>ok\<close> reads "the call returned no error".\<close>

abbreviation ok :: "'e + 'a \<Rightarrow> bool" where
  "ok r \<equiv> \<not> isl r"

text \<open>\<open>orElse\<close> is the early return \<^verbatim>\<open>if cond { return err }\<close>, \<open>andThen\<close> the
  early return after a fallible call.\<close>

definition reject :: "bool \<Rightarrow> 'e \<Rightarrow> 'e + 'a \<Rightarrow> 'e + 'a" where
  "reject bad e r = (if bad then Inl e else r)"

definition andThen :: "'e + 'a \<Rightarrow> ('a \<Rightarrow> 'e + 'b) \<Rightarrow> 'e + 'b" where
  "andThen r f = (case r of Inl e \<Rightarrow> Inl e | Inr x \<Rightarrow> f x)"

lemma reject_Inr [simp]: "reject bad e r = Inr x \<longleftrightarrow> \<not> bad \<and> r = Inr x"
  by (simp add: reject_def)

lemma andThen_Inr [simp]: "andThen r f = Inr y \<longleftrightarrow> (\<exists>x. r = Inr x \<and> f x = Inr y)"
  by (auto simp: andThen_def split: sum.splits)

lemma andThen_simps [simp]:
  "andThen (Inl e) f = Inl e"
  "andThen (Inr x) f = f x"
  by (simp_all add: andThen_def)

section \<open>Machine integers\<close>

text \<open>Go's \<open>int64\<close> arithmetic wraps: every sum of two \<open>int64\<close> values is read
  through \<open>i64\<close>, the representative of its residue in the signed range.\<close>

definition i64 :: "int \<Rightarrow> int" where
  "i64 x = (x + 2 ^ 63) mod 2 ^ 64 - 2 ^ 63"

definition is_i64 :: "int \<Rightarrow> bool" where
  "is_i64 x \<longleftrightarrow> - (2 ^ 63) \<le> x \<and> x < 2 ^ 63"

lemma i64_id [simp]: "is_i64 x \<Longrightarrow> i64 x = x"
  by (simp add: i64_def is_i64_def)

lemma is_i64_i64 [simp, intro!]: "is_i64 (i64 x)"
proof -
  have "0 \<le> (x + 2 ^ 63) mod 2 ^ 64" and "(x + 2 ^ 63) mod 2 ^ 64 < (2 ^ 64 :: int)"
    by (simp_all add: pos_mod_bound)
  then show ?thesis by (simp add: i64_def is_i64_def)
qed

text \<open>A sum of two values of the range that overflows upwards becomes negative.\<close>

lemma i64_overflow:
  assumes "is_i64 x" and "is_i64 y" and "2 ^ 63 \<le> x + y"
  shows "i64 (x + y) = x + y - 2 ^ 64" and "i64 (x + y) < 0"
proof -
  have "(x + y + 2 ^ 63) mod 2 ^ 64 = (x + y + 2 ^ 63 - 2 ^ 64) mod (2 ^ 64 :: int)"
    by (rule minus_mod_self2 [symmetric])
  also have "\<dots> = x + y + 2 ^ 63 - 2 ^ 64"
    using assms by (intro mod_pos_pos_trivial) (simp_all add: is_i64_def)
  finally show eq: "i64 (x + y) = x + y - 2 ^ 64" by (simp add: i64_def)
  show "i64 (x + y) < 0" unfolding eq using assms by (simp add: is_i64_def)
qed

section \<open>Strings\<close>

text \<open>Go strings are byte sequences, as Isabelle's \<open>string\<close> is.\<close>

definition hasPrefix :: "string \<Rightarrow> string \<Rightarrow> bool" where
  "hasPrefix s pre \<longleftrightarrow> take (length pre) s = pre"

definition hasSuffix :: "string \<Rightarrow> string \<Rightarrow> bool" where
  "hasSuffix s suf \<longleftrightarrow> hasPrefix (rev s) (rev suf)"

fun containsStr :: "string \<Rightarrow> string \<Rightarrow> bool" where
  "containsStr [] sub = (sub = [])"
| "containsStr (c # s) sub = (hasPrefix (c # s) sub \<or> containsStr s sub)"

definition containsAny :: "string \<Rightarrow> string \<Rightarrow> bool" where
  "containsAny s chars \<longleftrightarrow> list_ex (\<lambda>c. c \<in> set chars) s"

definition removeChar :: "char \<Rightarrow> string \<Rightarrow> string" where
  "removeChar c s = filter (\<lambda>x. x \<noteq> c) s"

text \<open>Character classes of the sources' regular expressions.\<close>

definition inRange :: "char \<Rightarrow> char \<Rightarrow> char \<Rightarrow> bool" where
  "inRange lo hi c \<longleftrightarrow> (of_char lo :: nat) \<le> of_char c \<and> (of_char c :: nat) \<le> of_char hi"

definition isDigit :: "char \<Rightarrow> bool" where
  "isDigit c \<longleftrightarrow> inRange CHR ''0'' CHR ''9'' c"

definition isLower :: "char \<Rightarrow> bool" where
  "isLower c \<longleftrightarrow> inRange CHR ''a'' CHR ''z'' c"

definition isUpper :: "char \<Rightarrow> bool" where
  "isUpper c \<longleftrightarrow> inRange CHR ''A'' CHR ''Z'' c"

definition isHexLower :: "char \<Rightarrow> bool" where
  "isHexLower c \<longleftrightarrow> isDigit c \<or> inRange CHR ''a'' CHR ''f'' c"

text \<open>\<^verbatim>\<open>0|[1-9][0-9]*\<close>\<close>

definition decimalField :: "string \<Rightarrow> bool" where
  "decimalField s \<longleftrightarrow> s \<noteq> [] \<and> list_all isDigit s \<and> (hd s = CHR ''0'' \<longrightarrow> s = ''0'')"

fun splitOn :: "char \<Rightarrow> string \<Rightarrow> string list" where
  "splitOn sep [] = [[]]"
| "splitOn sep (c # s) =
     (if c = sep then [] # splitOn sep s
      else (case splitOn sep s of [] \<Rightarrow> [[c]] | p # ps \<Rightarrow> (c # p) # ps))"

text \<open>\<^verbatim>\<open>^(0|[1-9][0-9]*)\.(0|[1-9][0-9]*)\.(0|[1-9][0-9]*)$\<close>\<close>

definition semver :: "string \<Rightarrow> bool" where
  "semver s \<longleftrightarrow> length (splitOn CHR ''.'' s) = 3 \<and> list_all decimalField (splitOn CHR ''.'' s)"

lemma splitOn_Cons: "splitOn sep s \<noteq> []"
  by (cases s) (auto split: list.splits)

text \<open>\<^verbatim>\<open>^[first][rest]{0,n}$\<close>: one character of a first class and at most \<open>n\<close> of a
  second one.\<close>

definition matchName :: "(char \<Rightarrow> bool) \<Rightarrow> (char \<Rightarrow> bool) \<Rightarrow> nat \<Rightarrow> string \<Rightarrow> bool" where
  "matchName first rest n s \<longleftrightarrow>
     (case s of [] \<Rightarrow> False | c # cs \<Rightarrow> first c \<and> list_all rest cs \<and> length cs \<le> n)"

text \<open>\<^verbatim>\<open>^<prefix>[a-f0-9]{n}$\<close>\<close>

definition matchHex :: "string \<Rightarrow> nat \<Rightarrow> string \<Rightarrow> bool" where
  "matchHex pre n s \<longleftrightarrow> hasPrefix s pre \<and> length s = length pre + n \<and> list_all isHexLower (drop (length pre) s)"

text \<open>\<^verbatim>\<open>utf8.Valid\<close>: well-formed UTF-8, shortest forms only, no surrogates, at most
  U+10FFFF.\<close>

definition byteIn :: "nat \<Rightarrow> nat \<Rightarrow> char \<Rightarrow> bool" where
  "byteIn lo hi c \<longleftrightarrow> lo \<le> of_char c \<and> of_char c \<le> hi"

fun utf8Valid :: "string \<Rightarrow> bool" where
  "utf8Valid [] = True"
| "utf8Valid (c # s) =
     (if byteIn 0 127 c then utf8Valid s
      else if byteIn 194 223 c then
        (case s of a # s' \<Rightarrow> byteIn 128 191 a \<and> utf8Valid s' | _ \<Rightarrow> False)
      else if byteIn 224 239 c then
        (case s of a # b # s' \<Rightarrow>
             byteIn (if byteIn 224 224 c then 160 else 128) (if byteIn 237 237 c then 159 else 191) a \<and>
             byteIn 128 191 b \<and> utf8Valid s'
         | _ \<Rightarrow> False)
      else if byteIn 240 244 c then
        (case s of a # b # d # s' \<Rightarrow>
             byteIn (if byteIn 240 240 c then 144 else 128) (if byteIn 244 244 c then 143 else 191) a \<and>
             byteIn 128 191 b \<and> byteIn 128 191 d \<and> utf8Valid s'
         | _ \<Rightarrow> False)
      else False)"

text \<open>Paths: \<^verbatim>\<open>path/filepath\<close> on Unix and \<^verbatim>\<open>fs.ValidPath\<close>.\<close>

definition slash :: char where
  "slash = CHR ''/''"

fun joinWith :: "string \<Rightarrow> string list \<Rightarrow> string" where
  "joinWith sep [] = []"
| "joinWith sep [x] = x"
| "joinWith sep (x # y # zs) = x @ sep @ joinWith sep (y # zs)"

text \<open>\<^verbatim>\<open>filepath.Clean\<close>: the stack of kept elements, last first.\<close>

fun cleanElems :: "bool \<Rightarrow> string list \<Rightarrow> string list \<Rightarrow> string list" where
  "cleanElems rooted stack [] = rev stack"
| "cleanElems rooted stack (e # es) =
     (if e = [] \<or> e = ''.'' then cleanElems rooted stack es
      else if e = ''..'' then
        (case stack of
           [] \<Rightarrow> cleanElems rooted (if rooted then [] else [e]) es
         | t # ts \<Rightarrow> cleanElems rooted (if t = ''..'' then e # stack else ts) es)
      else cleanElems rooted (e # stack) es)"

definition cleanPath :: "string \<Rightarrow> string" where
  "cleanPath p =
     (let rooted = hasPrefix p [slash];
          body = joinWith [slash] (cleanElems rooted [] (splitOn slash p)) in
      if rooted then slash # body else if body = [] then ''.'' else body)"

definition dirName :: "string \<Rightarrow> string" where
  "dirName p = cleanPath (rev (dropWhile (\<lambda>c. c \<noteq> slash) (rev p)))"

definition baseName :: "string \<Rightarrow> string" where
  "baseName p =
     (if p = [] then ''.''
      else (let q = dropWhile (\<lambda>c. c = slash) (rev p) in
            if q = [] then [slash] else rev (takeWhile (\<lambda>c. c \<noteq> slash) q)))"

definition validPath :: "string \<Rightarrow> bool" where
  "validPath p \<longleftrightarrow> utf8Valid p \<and>
     (p = ''.'' \<or> list_all (\<lambda>e. e \<noteq> [] \<and> e \<noteq> ''.'' \<and> e \<noteq> ''..'') (splitOn slash p))"

text \<open>Decimal rendering, as \<^verbatim>\<open>fmt.Sprint\<close> and \<^verbatim>\<open>%d\<close> print an integer.\<close>

fun showNat :: "nat \<Rightarrow> string" where
  "showNat n = (if n < 10 then [char_of (48 + n)] else showNat (n div 10) @ [char_of (48 + n mod 10)])"

declare showNat.simps [simp del]

definition showInt :: "int \<Rightarrow> string" where
  "showInt i = (if i < 0 then CHR ''-'' # showNat (nat (- i)) else showNat (nat i))"

text \<open>All ways to cut a string in two, for the regular expressions with an inner boundary.\<close>

definition cuts :: "string \<Rightarrow> (string \<times> string) list" where
  "cuts s = map (\<lambda>i. (take i s, drop i s)) [0..<Suc (length s)]"

lemma cuts_iff: "(a, b) \<in> set (cuts s) \<longleftrightarrow> s = a @ b"
proof
  assume s: "s = a @ b"
  have "(take (length a) s, drop (length a) s) \<in> set (cuts s)"
    unfolding cuts_def set_map by (rule imageI) (simp add: s)
  with s show "(a, b) \<in> set (cuts s)" by simp
qed (auto simp: cuts_def)

text \<open>\<^verbatim>\<open>base64.RawURLEncoding\<close>: no padding, the URL alphabet.\<close>

definition b64char :: "nat \<Rightarrow> char" where
  "b64char n = ''ABCDEFGHIJKLMNOPQRSTUVWXYZabcdefghijklmnopqrstuvwxyz0123456789-_'' ! (n mod 64)"

fun rawURLEncode :: "nat list \<Rightarrow> string" where
  "rawURLEncode [] = []"
| "rawURLEncode [a] = [b64char (a div 4), b64char (a mod 4 * 16)]"
| "rawURLEncode [a, b] = [b64char (a div 4), b64char (a mod 4 * 16 + b div 16), b64char (b mod 16 * 4)]"
| "rawURLEncode (a # b # c # xs) =
     b64char (a div 4) # b64char (a mod 4 * 16 + b div 16) # b64char (b mod 16 * 4 + c div 64) #
     b64char (c mod 64) # rawURLEncode xs"

lemma b64char_set: "b64char n \<in> set ''ABCDEFGHIJKLMNOPQRSTUVWXYZabcdefghijklmnopqrstuvwxyz0123456789-_''"
  unfolding b64char_def by (rule nth_mem) simp

lemma b64char_printable: "32 < (of_char (b64char n) :: nat) \<and> (of_char (b64char n) :: nat) \<le> 126"
  using b64char_set [of n] by auto

lemma rawURLEncode_printable:
  "list_all (\<lambda>c. 32 < (of_char c :: nat) \<and> (of_char c :: nat) \<le> 126) (rawURLEncode xs)"
  by (induction xs rule: rawURLEncode.induct) (simp_all add: b64char_printable)

lemma length_rawURLEncode: "length (rawURLEncode xs) = (4 * length xs + 2) div 3"
  by (induction xs rule: rawURLEncode.induct) simp_all

section \<open>The seen-map loop\<close>

text \<open>
  Many loaders run over a list, reject an entry that fails its check or whose key was
  \<^verbatim>\<open>seen\<close> before, and record the key. The loop returns true exactly when every entry
  passes and the keys are pairwise distinct.
\<close>

fun scanSeen :: "('a \<Rightarrow> bool) \<Rightarrow> ('a \<Rightarrow> 'k) \<Rightarrow> 'k list \<Rightarrow> 'a list \<Rightarrow> bool" where
  "scanSeen good key seen [] = True"
| "scanSeen good key seen (x # xs) =
     (if \<not> good x \<or> key x \<in> set seen then False else scanSeen good key (key x # seen) xs)"

lemma scanSeen_iff:
  "scanSeen good key seen xs \<longleftrightarrow>
     (\<forall>x \<in> set xs. good x) \<and> distinct (map key xs) \<and> set (map key xs) \<inter> set seen = {}"
  by (induction xs arbitrary: seen) auto

lemmas scanSeen_Nil = scanSeen_iff [where seen = "[]", simplified]

lemma distinct_filter_one: "distinct xs \<Longrightarrow> k \<in> set xs \<Longrightarrow> length (filter (\<lambda>x. x = k) xs) = 1"
  by (induction xs) (auto simp: filter_empty_conv)

text \<open>\<^verbatim>\<open>m[k]\<close> on a Go \<^verbatim>\<open>map[string]string\<close>: the zero value for a missing key.\<close>

definition lookupStr :: "(string \<rightharpoonup> string) \<Rightarrow> string \<Rightarrow> string" where
  "lookupStr m k = (case m k of None \<Rightarrow> [] | Some v \<Rightarrow> v)"

lemma lookupStr_update [simp]: "lookupStr (m(k \<mapsto> v)) k' = (if k' = k then v else lookupStr m k')"
  by (simp add: lookupStr_def)

end
