(* ===== verification/StrictJson.thy ===== *)
theory StrictJson
  imports Prelude
begin

text \<open>
  \<^verbatim>\<open>internal/strictjson/decode.go\<close>: bounded, exact-shape decoding of protocol messages.

  Go's \<^verbatim>\<open>json.Decoder\<close> is seen through its token stream: \<open>tok list\<close> is what
  successive calls of \<^verbatim>\<open>Token\<close> return, \<open>TErr\<close> a token call that fails, the end of
  the list the end of input. Lexing and the reflective conversion between
  bytes and Go structs are the fields of a \<open>codec\<close>.
\<close>

section \<open>Tokens and the scanner\<close>

datatype tok =
    LBrace | RBrace | LBracket | RBracket
  | TString string | TNumber string | TBool bool | TNull | TErr

text \<open>\<^verbatim>\<open>d.More()\<close>: another element follows in the current array or object.\<close>

definition moreToks :: "tok list \<Rightarrow> bool" where
  "moreToks ts \<longleftrightarrow> ts \<noteq> [] \<and> hd ts \<noteq> RBrace \<and> hd ts \<noteq> RBracket"

text \<open>The recursion of \<open>scanValue\<close> and its two loops: \<open>Value\<close> is a call of the function,
  \<open>Fields seen\<close> the object loop with the keys it has seen, \<open>Items\<close> the array loop. The
  result is the token stream behind the value, \<open>None\<close> an error. \<open>floatOk\<close> says whether
  \<^verbatim>\<open>strconv.ParseFloat\<close> accepts a number.\<close>

datatype mode = Value | Fields "string list" | Items

function scan ::
  "(string \<Rightarrow> bool) \<Rightarrow> bool \<Rightarrow> mode \<Rightarrow> nat \<Rightarrow> tok list \<Rightarrow> tok list option" where
  "scan floatOk allowNull Value depth ts =
     (if depth > 32 then None
      else (case ts of
          [] \<Rightarrow> None
        | TErr # _ \<Rightarrow> None
        | TNull # ts' \<Rightarrow> if allowNull then Some ts' else None
        | LBrace # ts' \<Rightarrow> scan floatOk allowNull (Fields []) depth ts'
        | LBracket # ts' \<Rightarrow> scan floatOk allowNull Items depth ts'
        | TNumber n # ts' \<Rightarrow> if allowNull \<and> \<not> floatOk n then None else Some ts'
        | RBrace # _ \<Rightarrow> None
        | RBracket # _ \<Rightarrow> None
        | _ # ts' \<Rightarrow> Some ts'))"
| "scan floatOk allowNull (Fields seen) depth ts =
     (if moreToks ts then
        (case ts of
           TString name # ts' \<Rightarrow>
             if name \<in> set seen then None
             else (case scan floatOk allowNull Value (Suc depth) ts' of
                     None \<Rightarrow> None
                   | Some ts'' \<Rightarrow> scan floatOk allowNull (Fields (name # seen)) depth ts'')
         | _ \<Rightarrow> None)
      else (case ts of RBrace # ts' \<Rightarrow> Some ts' | _ \<Rightarrow> None))"
| "scan floatOk allowNull Items depth ts =
     (if moreToks ts then
        (case scan floatOk allowNull Value (Suc depth) ts of
           None \<Rightarrow> None
         | Some ts' \<Rightarrow> scan floatOk allowNull Items depth ts')
      else (case ts of RBracket # ts' \<Rightarrow> Some ts' | _ \<Rightarrow> None))"
  by pat_completeness auto

termination
proof -
  txt \<open>Every call consumes at least one token of the stream, which is why the loops end.\<close>
  have shorter: "length r < length ts"
    if "scan_dom (floatOk, allowNull, m, depth, ts)" "scan floatOk allowNull m depth ts = Some r"
    for floatOk allowNull m depth ts r
    using that
  proof (induction arbitrary: r rule: scan.pinduct)
    case (1 floatOk allowNull depth ts)
    show ?case
    proof (cases ts)
      case Nil
      then show ?thesis
        using 1(4) unfolding scan.psimps(1) [OF 1(1)] by (simp split: if_splits)
    next
      case (Cons t ts')
      have IH: "scan floatOk allowNull (Fields []) depth ts' = Some r \<Longrightarrow> t = LBrace \<Longrightarrow> length r < length ts'"
        "scan floatOk allowNull Items depth ts' = Some r \<Longrightarrow> t = LBracket \<Longrightarrow> length r < length ts'"
        if "\<not> 32 < depth" using that Cons 1(2,3) by auto
      then show ?thesis
        using 1(4) Cons unfolding scan.psimps(1) [OF 1(1)]
        by (cases t) (fastforce split: if_splits)+
    qed
  next
    case (2 floatOk allowNull seen depth ts)
    show ?case
    proof (cases "moreToks ts")
      case True
      with 2(4) obtain name ts' ts'' where "ts = TString name # ts'"
        and "scan floatOk allowNull Value (Suc depth) ts' = Some ts''"
        and "scan floatOk allowNull (Fields (name # seen)) depth ts'' = Some r" and "name \<notin> set seen"
        by (auto simp: scan.psimps(2) [OF 2(1)] split: if_splits list.splits tok.splits option.splits)
      with True 2(2,3) show ?thesis by fastforce
    next
      case False
      with 2(4) show ?thesis
        by (auto simp: scan.psimps(2) [OF 2(1)] split: list.splits tok.splits)
    qed
  next
    case (3 floatOk allowNull depth ts)
    show ?case
    proof (cases "moreToks ts")
      case True
      with 3(4) obtain ts' where "scan floatOk allowNull Value (Suc depth) ts = Some ts'"
        and "scan floatOk allowNull Items depth ts' = Some r"
        by (auto simp: scan.psimps(3) [OF 3(1)] split: option.splits)
      with True 3(2,3) show ?thesis by fastforce
    next
      case False
      with 3(4) show ?thesis
        by (auto simp: scan.psimps(3) [OF 3(1)] split: list.splits tok.splits)
    qed
  qed
  show ?thesis
    by (relation "measures [\<lambda>(f, n, m, d, ts). length ts, \<lambda>(f, n, m, d, ts). (case m of Items \<Rightarrow> 1 | _ \<Rightarrow> 0)]")
      (auto dest: shorter)
qed

declare scan.simps [simp del]

section \<open>Values and shapes\<close>

text \<open>The value of a JSON text as \<^verbatim>\<open>json.Unmarshal\<close> builds it into an
  \<^verbatim>\<open>any\<close>; an object is its list of entries.\<close>

datatype json =
    JObject "(string \<times> json) list"
  | JArray "json list"
  | JStr string
  | JBoolean bool
  | JNum string
  | JNull

text \<open>\<open>shape\<close>: same containers, same keys, same kinds of leaves; a null has no shape.\<close>

fun shape :: "json \<Rightarrow> json \<Rightarrow> bool"
  and shapeFields :: "(string \<times> json) list \<Rightarrow> (string \<times> json) list \<Rightarrow> bool"
  and shapeItems :: "json list \<Rightarrow> json list \<Rightarrow> bool" where
  "shape (JObject x) b =
     (case b of JObject y \<Rightarrow> length x = length y \<and> shapeFields x y | _ \<Rightarrow> False)"
| "shape (JArray x) b =
     (case b of JArray y \<Rightarrow> length x = length y \<and> shapeItems x y | _ \<Rightarrow> False)"
| "shape (JStr _) b = (case b of JStr _ \<Rightarrow> True | _ \<Rightarrow> False)"
| "shape (JBoolean _) b = (case b of JBoolean _ \<Rightarrow> True | _ \<Rightarrow> False)"
| "shape (JNum _) b = (case b of JNum _ \<Rightarrow> True | _ \<Rightarrow> False)"
| "shape JNull b = False"
| "shapeFields [] y = True"
| "shapeFields ((k, v) # x) y =
     (case map_of y k of None \<Rightarrow> False | Some w \<Rightarrow> shape v w \<and> shapeFields x y)"
| "shapeItems (v # x) (w # y) = (shape v w \<and> shapeItems x y)"
| "shapeItems _ _ = True"

section \<open>Decode and ReadValue\<close>

record 'dst codec =
  tokens :: "string \<Rightarrow> tok list"
  floatSyntax :: "string \<Rightarrow> bool"
  decodeInto :: "string \<Rightarrow> 'dst option"
  marshal :: "'dst \<Rightarrow> string option"
  unmarshalAny :: "string \<Rightarrow> json option"

text \<open>The reader yields its bytes or fails; \<^verbatim>\<open>io.LimitReader(r, limit+1)\<close> caps what is
  read at one byte more than the limit.\<close>

definition readLimited :: "string option \<Rightarrow> int \<Rightarrow> string option" where
  "readLimited r limit = map_option (take (nat (i64 (limit + 1)))) r"

definition Decode :: "'dst codec \<Rightarrow> string option \<Rightarrow> int \<Rightarrow> 'dst option" where
  "Decode C r limit =
     (if limit \<le> 0 then None
      else (case readLimited r limit of
          None \<Rightarrow> None
        | Some b \<Rightarrow>
            if int (length b) > limit \<or> \<not> utf8Valid b then None
            else if scan (floatSyntax C) False Value 0 (tokens C b) \<noteq> Some [] then None
            else (case decodeInto C b of
                None \<Rightarrow> None
              | Some dst \<Rightarrow>
                  (case marshal C dst of
                     None \<Rightarrow> None
                   | Some canonical \<Rightarrow>
                       (case (unmarshalAny C b, unmarshalAny C canonical) of
                          (Some original, Some normalized) \<Rightarrow>
                            if shape original normalized then Some dst else None
                        | _ \<Rightarrow> None)))))"

definition ReadValue :: "'dst codec \<Rightarrow> string option \<Rightarrow> int \<Rightarrow> string option" where
  "ReadValue C r limit =
     (if limit \<le> 0 then None
      else (case readLimited r limit of
          None \<Rightarrow> None
        | Some b \<Rightarrow>
            if int (length b) > limit \<or> \<not> utf8Valid b then None
            else if scan (floatSyntax C) True Value 0 (tokens C b) \<noteq> Some [] then None
            else Some b))"

section \<open>What the scanner accepts\<close>

text \<open>The tokens of a value, and the values the scanner is meant to accept: nesting of at
  most 32 levels below the top, distinct keys in every object, nulls and numbers outside the
  float syntax only where allowed.\<close>

fun toks :: "json \<Rightarrow> tok list"
  and toksFields :: "(string \<times> json) list \<Rightarrow> tok list"
  and toksItems :: "json list \<Rightarrow> tok list" where
  "toks (JObject x) = LBrace # toksFields x @ [RBrace]"
| "toks (JArray x) = LBracket # toksItems x @ [RBracket]"
| "toks (JStr s) = [TString s]"
| "toks (JBoolean b) = [TBool b]"
| "toks (JNum n) = [TNumber n]"
| "toks JNull = [TNull]"
| "toksFields [] = []"
| "toksFields ((k, v) # x) = TString k # toks v @ toksFields x"
| "toksItems [] = []"
| "toksItems (v # x) = toks v @ toksItems x"

fun admissible :: "(string \<Rightarrow> bool) \<Rightarrow> bool \<Rightarrow> nat \<Rightarrow> json \<Rightarrow> bool"
  and admissibleFields :: "(string \<Rightarrow> bool) \<Rightarrow> bool \<Rightarrow> nat \<Rightarrow> (string \<times> json) list \<Rightarrow> bool"
  and admissibleItems :: "(string \<Rightarrow> bool) \<Rightarrow> bool \<Rightarrow> nat \<Rightarrow> json list \<Rightarrow> bool" where
  "admissible f n d (JObject x) \<longleftrightarrow> d \<le> 32 \<and> distinct (map fst x) \<and> admissibleFields f n (Suc d) x"
| "admissible f n d (JArray x) \<longleftrightarrow> d \<le> 32 \<and> admissibleItems f n (Suc d) x"
| "admissible f n d (JStr _) \<longleftrightarrow> d \<le> 32"
| "admissible f n d (JBoolean _) \<longleftrightarrow> d \<le> 32"
| "admissible f n d (JNum s) \<longleftrightarrow> d \<le> 32 \<and> (n \<longrightarrow> f s)"
| "admissible f n d JNull \<longleftrightarrow> d \<le> 32 \<and> n"
| "admissibleFields f n d [] \<longleftrightarrow> True"
| "admissibleFields f n d ((k, v) # x) \<longleftrightarrow> admissible f n d v \<and> admissibleFields f n d x"
| "admissibleItems f n d [] \<longleftrightarrow> True"
| "admissibleItems f n d (v # x) \<longleftrightarrow> admissible f n d v \<and> admissibleItems f n d x"

lemma toks_open: "\<exists>t ts. toks v = t # ts \<and> t \<noteq> RBrace \<and> t \<noteq> RBracket \<and> t \<noteq> TErr"
  by (cases v) auto

lemma moreToks_toks [simp]: "moreToks (toks v @ ts)"
  using toks_open [of v] by (auto simp: moreToks_def)

lemma scan_toks_all:
  "scan f n Value d (toks v @ ts) = (if admissible f n d v then Some ts else None)"
  "scan f n (Fields seen) d (toksFields x @ RBrace # ts) =
     (if distinct (map fst x) \<and> set (map fst x) \<inter> set seen = {} \<and> admissibleFields f n (Suc d) x
      then Some ts else None)"
  "scan f n Items d (toksItems ys @ RBracket # ts) =
     (if admissibleItems f n (Suc d) ys then Some ts else None)"
proof (induction v and x and ys arbitrary: d ts and d ts seen and d ts rule: toks_toksFields_toksItems.induct)
  case (8 k v x)
  then show ?case
    by (subst scan.simps) (auto simp: moreToks_def)
next
  case (10 v x)
  then show ?case
    by (subst scan.simps) auto
qed (subst scan.simps, simp add: moreToks_def)+

text \<open>C23: on the token stream of a JSON value followed by any further tokens, the scanner
  succeeds exactly for the admissible values (depth at most 32, no duplicate key at any
  level, no null unless allowed) and leaves exactly the further tokens.\<close>

theorem scan_accepts:
  "scan f n Value 0 (toks v @ ts) = (if admissible f n 0 v then Some ts else None)"
  by (rule scan_toks_all(1))

section \<open>What an accepted message guarantees\<close>

text \<open>Two values agree on the keys of every object, at every level.\<close>

fun sameKeys :: "json \<Rightarrow> json \<Rightarrow> bool"
  and sameKeysFields :: "(string \<times> json) list \<Rightarrow> (string \<times> json) list \<Rightarrow> bool"
  and sameKeysItems :: "json list \<Rightarrow> json list \<Rightarrow> bool" where
  "sameKeys (JObject x) (JObject y) = (fst ` set x = fst ` set y \<and> sameKeysFields x y)"
| "sameKeys (JArray x) (JArray y) = (length x = length y \<and> sameKeysItems x y)"
| "sameKeys (JStr _) (JStr _) = True"
| "sameKeys (JBoolean _) (JBoolean _) = True"
| "sameKeys (JNum _) (JNum _) = True"
| "sameKeys _ _ = False"
| "sameKeysFields [] y = True"
| "sameKeysFields ((k, v) # x) y =
     (case map_of y k of None \<Rightarrow> False | Some w \<Rightarrow> sameKeys v w \<and> sameKeysFields x y)"
| "sameKeysItems (v # x) (w # y) = (sameKeys v w \<and> sameKeysItems x y)"
| "sameKeysItems _ _ = True"

lemma shapeFields_keys: "shapeFields x y \<Longrightarrow> fst ` set x \<subseteq> fst ` set y"
proof (induction x)
  case (Cons kv x)
  then show ?case
    by (cases kv) (auto split: option.splits dest!: map_of_SomeD intro: rev_image_eqI)
qed simp

text \<open>Distinct keys on one side and equal length turn the inclusion into an equality.\<close>

lemma distinct_keys_eq:
  assumes "distinct (map fst x)" and "length x = length y" and "fst ` set x \<subseteq> fst ` set y"
  shows "fst ` set x = fst ` set y"
proof (rule card_seteq)
  have "card (fst ` set y) \<le> length y"
    by (metis card_length length_map set_map)
  also have "length y = card (fst ` set x)"
    using assms(1,2) by (metis distinct_card length_map set_map)
  finally show "card (fst ` set y) \<le> card (fst ` set x)" .
qed (use assms in auto)

lemma shape_sameKeys_all:
  "shape v w \<Longrightarrow> admissible f n d v \<Longrightarrow> sameKeys v w"
  "shapeFields x y \<Longrightarrow> admissibleFields f n d x \<Longrightarrow> sameKeysFields x y"
  "shapeItems xs ys \<Longrightarrow> admissibleItems f n d xs \<Longrightarrow> sameKeysItems xs ys"
proof (induction v w and x y and xs ys arbitrary: d and d and d rule: shape_shapeFields_shapeItems.induct)
  case (1 x b)
  show ?case
  proof (cases b)
    case (JObject y)
    with 1 have "fst ` set x = fst ` set y"
      by (intro distinct_keys_eq shapeFields_keys) auto
    with 1 JObject show ?thesis by auto
  qed (use 1 in auto)
qed (auto split: json.splits option.splits)


text \<open>A codec for one message, to run the decoder on: an object with the field \<open>id\<close>.\<close>

definition demoCodec :: "string codec" where
  "demoCodec =
     \<lparr>tokens = (\<lambda>_. [LBrace, TString ''id'', TString ''x'', RBrace]),
      floatSyntax = (\<lambda>_. True), decodeInto = (\<lambda>_. Some ''x''), marshal = (\<lambda>d. Some d),
      unmarshalAny = (\<lambda>_. Some (JObject [(''id'', JStr ''x'')]))\<rparr>"

lemma demoCodec_run:
  "Decode demoCodec (Some ''msg'') 16 = Some ''x''"
  "unmarshalAny demoCodec ''msg'' = Some (JObject [(''id'', JStr ''x'')])"
  "tokens demoCodec ''msg'' = toks (JObject [(''id'', JStr ''x'')])"
  by (simp_all add: Decode_def readLimited_def demoCodec_def scan.simps moreToks_def byteIn_def numeral_eq_Suc i64_def)


text \<open>A codec that decodes one document.\<close>

definition fixedCodec :: "'a \<Rightarrow> 'a codec" where
  "fixedCodec x = \<lparr>tokens = (\<lambda>_. [LBrace, RBrace]), floatSyntax = (\<lambda>_. True), decodeInto = (\<lambda>_. Some x),
     marshal = (\<lambda>_. Some []), unmarshalAny = (\<lambda>_. Some (JObject []))\<rparr>"

lemma fixedCodec_run: "n = 4096 \<or> n = 16384 \<or> n = 65536 \<Longrightarrow> Decode (fixedCodec x) (Some ''{}'') n = Some x"
  by (auto simp: Decode_def readLimited_def fixedCodec_def scan.simps moreToks_def byteIn_def i64_def)

end
