(* ===== verification/Prog.thy ===== *)
theory Prog
  imports Prelude
begin

text \<open>
  Sequential code that talks to an environment it does not control. A handler that calls the
  Kubernetes API, the database or an HTTP service between its own checks is a finite
  interaction tree: \<open>Ret\<close> is the return of the handler, \<open>Call q k\<close> issues the request
  \<open>q\<close> and continues with \<open>k r\<close> on the reply \<open>r\<close>. The environment is universally
  quantified: a theorem about every run of a tree holds for every behaviour of the service,
  including failures, lost replies and changes made by others between two calls.
  \<open>Stuck\<close> continues a reply of another request's type, which no run contains.

  \<open>runs p h a\<close>: the tree \<open>p\<close> can perform the calls \<open>h\<close> (each with its reply) and
  return \<open>a\<close>. \<open>wp Q h p\<close>: from history \<open>h\<close> every run of \<open>p\<close> ends in a history
  and a value that satisfy \<open>Q\<close>; \<open>wp_runs\<close> relates the two. \<open>holds C E Q m p\<close> is
  the same with a world: \<open>E m q r m'\<close> says that the world may answer \<open>q\<close> by \<open>r\<close> and
  move to \<open>m'\<close> (interference by others included), \<open>C m q\<close> is what must be true
  whenever a call is issued, also in a run that is cut off later.
\<close>

section \<open>Interaction trees\<close>

datatype (dead 'q, dead 'r, 'a) prog =
    Ret 'a
  | Call 'q "'r \<Rightarrow> ('q, 'r, 'a) prog"
  | Stuck

primrec bindP :: "('q, 'r, 'a) prog \<Rightarrow> ('a \<Rightarrow> ('q, 'r, 'b) prog) \<Rightarrow> ('q, 'r, 'b) prog" where
  "bindP (Ret a) f = f a"
| "bindP (Call q k) f = Call q (\<lambda>r. bindP (k r) f)"
| "bindP Stuck f = Stuck"

text \<open>The early returns of the sources inside a tree: a failed check, a failed call.\<close>

definition failIf :: "bool \<Rightarrow> 'e \<Rightarrow> ('q, 'r, 'e + 'a) prog \<Rightarrow> ('q, 'r, 'e + 'a) prog" where
  "failIf bad e p = (if bad then Ret (Inl e) else p)"

definition tryP :: "'e + 'a \<Rightarrow> ('a \<Rightarrow> ('q, 'r, 'e + 'b) prog) \<Rightarrow> ('q, 'r, 'e + 'b) prog" where
  "tryP r k = (case r of Inl e \<Rightarrow> Ret (Inl e) | Inr x \<Rightarrow> k x)"

definition thenP ::
  "('q, 'r, 'e + 'a) prog \<Rightarrow> ('a \<Rightarrow> ('q, 'r, 'e + 'b) prog) \<Rightarrow> ('q, 'r, 'e + 'b) prog" where
  "thenP p k = bindP p (\<lambda>r. tryP r k)"

section \<open>Runs\<close>

inductive runs :: "('q, 'r, 'a) prog \<Rightarrow> ('q \<times> 'r) list \<Rightarrow> 'a \<Rightarrow> bool" where
  ret: "runs (Ret a) [] a"
| call: "runs (k r) h a \<Longrightarrow> runs (Call q k) ((q, r) # h) a"

inductive_simps runs_Ret [simp]: "runs (Ret a) h b"
inductive_simps runs_Call: "runs (Call q k) h b"
inductive_simps runs_Stuck [simp]: "runs Stuck h b"

lemma runs_Call_iff [simp]:
  "runs (Call q k) h b \<longleftrightarrow> (\<exists>r h'. h = (q, r) # h' \<and> runs (k r) h' b)"
  by (auto simp: runs_Call)

lemma runs_bindP:
  "runs (bindP p f) h b \<longleftrightarrow> (\<exists>h1 h2 a. h = h1 @ h2 \<and> runs p h1 a \<and> runs (f a) h2 b)"
proof (induction p arbitrary: h)
  case (Ret a)
  then show ?case by auto
next
  case (Call q k)
  show ?case
  proof
    assume "runs (bindP (Call q k) f) h b"
    then obtain r h' where "h = (q, r) # h'" and "runs (bindP (k r) f) h' b" by auto
    with Call.IH [of "k r" h'] show "\<exists>h1 h2 a. h = h1 @ h2 \<and> runs (Call q k) h1 a \<and> runs (f a) h2 b"
      by (metis append_Cons rangeI runs.call)
  next
    assume "\<exists>h1 h2 a. h = h1 @ h2 \<and> runs (Call q k) h1 a \<and> runs (f a) h2 b"
    then obtain r h1 h2 a where "h = ((q, r) # h1) @ h2" "runs (k r) h1 a" "runs (f a) h2 b"
      by auto
    with Call.IH [of "k r" "h1 @ h2"] show "runs (bindP (Call q k) f) h b" by auto
  qed
next
  case Stuck
  then show ?case by simp
qed

lemma runs_failIf [simp]:
  "runs (failIf bad e p) h a \<longleftrightarrow> (bad \<and> h = [] \<and> a = Inl e) \<or> (\<not> bad \<and> runs p h a)"
  by (auto simp: failIf_def)

lemma runs_tryP [simp]:
  "runs (tryP r k) h a \<longleftrightarrow> (\<exists>e. r = Inl e \<and> h = [] \<and> a = Inl e) \<or> (\<exists>x. r = Inr x \<and> runs (k x) h a)"
  by (auto simp: tryP_def split: sum.splits)

lemma runs_thenP:
  "runs (thenP p k) h a \<longleftrightarrow> (\<exists>h1 h2 r. h = h1 @ h2 \<and> runs p h1 r \<and> runs (tryP r k) h2 a)"
  by (simp add: thenP_def runs_bindP)

lemma runs_case_sum [simp]:
  "runs (case r of Inl e \<Rightarrow> f e | Inr x \<Rightarrow> k x) h a \<longleftrightarrow>
     (\<exists>e. r = Inl e \<and> runs (f e) h a) \<or> (\<exists>x. r = Inr x \<and> runs (k x) h a)"
  by (auto split: sum.splits)

lemma runs_case_option [simp]:
  "runs (case r of None \<Rightarrow> f | Some x \<Rightarrow> k x) h a \<longleftrightarrow>
     (r = None \<and> runs f h a) \<or> (\<exists>x. r = Some x \<and> runs (k x) h a)"
  by (auto split: option.splits)

lemma runs_If: "runs (if b then p else p') h a \<longleftrightarrow> (b \<and> runs p h a) \<or> (\<not> b \<and> runs p' h a)"
  by simp

section \<open>Weakest preconditions\<close>

primrec wp :: "(('q \<times> 'r) list \<Rightarrow> 'a \<Rightarrow> bool) \<Rightarrow> ('q \<times> 'r) list \<Rightarrow> ('q, 'r, 'a) prog \<Rightarrow> bool" where
  "wp Q h (Ret a) = Q h a"
| "wp Q h (Call q k) = (\<forall>r. wp Q (h @ [(q, r)]) (k r))"
| "wp Q h Stuck = True"

lemma wp_runs_from: "wp Q h p \<longleftrightarrow> (\<forall>h' a. runs p h' a \<longrightarrow> Q (h @ h') a)"
proof (induction p arbitrary: h)
  case (Call q k)
  have "wp Q h (Call q k) \<longleftrightarrow> (\<forall>r h' a. runs (k r) h' a \<longrightarrow> Q ((h @ [(q, r)]) @ h') a)"
    using Call.IH by auto
  also have "\<dots> \<longleftrightarrow> (\<forall>h' a. runs (Call q k) h' a \<longrightarrow> Q (h @ h') a)"
    by auto
  finally show ?case .
qed auto

text \<open>The weakest precondition from the empty history says exactly: every run satisfies
  the postcondition.\<close>

lemma wp_runs: "wp Q [] p \<longleftrightarrow> (\<forall>h a. runs p h a \<longrightarrow> Q h a)"
  by (simp add: wp_runs_from)

lemma wp_bindP: "wp Q h (bindP p f) = wp (\<lambda>h' a. wp Q h' (f a)) h p"
  by (induction p arbitrary: h) auto

lemma wp_mono: "wp Q h p \<Longrightarrow> (\<And>h a. Q h a \<Longrightarrow> Q' h a) \<Longrightarrow> wp Q' h p"
  by (auto simp: wp_runs_from)

lemma wp_failIf [simp]:
  "wp Q h (failIf bad e p) = (if bad then Q h (Inl e) else wp Q h p)"
  by (simp add: failIf_def)

lemma wp_tryP [simp]:
  "wp Q h (tryP r k) = (case r of Inl e \<Rightarrow> Q h (Inl e) | Inr x \<Rightarrow> wp Q h (k x))"
  by (simp add: tryP_def split: sum.splits)

lemma wp_thenP:
  "wp Q h (thenP p k) = wp (\<lambda>h' r. case r of Inl e \<Rightarrow> Q h' (Inl e) | Inr x \<Rightarrow> wp Q h' (k x)) h p"
  by (simp add: thenP_def wp_bindP)

section \<open>Runs in a world\<close>

primrec holds ::
  "('m \<Rightarrow> 'q \<Rightarrow> bool) \<Rightarrow> ('m \<Rightarrow> 'q \<Rightarrow> 'r \<Rightarrow> 'm \<Rightarrow> bool) \<Rightarrow> ('m \<Rightarrow> 'a \<Rightarrow> bool) \<Rightarrow> 'm
     \<Rightarrow> ('q, 'r, 'a) prog \<Rightarrow> bool" where
  "holds C E Q m (Ret a) = Q m a"
| "holds C E Q m (Call q k) = (C m q \<and> (\<forall>r m'. E m q r m' \<longrightarrow> holds C E Q m' (k r)))"
| "holds C E Q m Stuck = True"

text \<open>The meaning of \<open>holds\<close>: \<open>issues E m p m' q\<close> says that \<open>p\<close>, started in world
  \<open>m\<close>, can come to issue the call \<open>q\<close> in world \<open>m'\<close>, \<open>ends E m p m' a\<close> that it can
  return \<open>a\<close> in world \<open>m'\<close>.\<close>

inductive issues ::
  "('m \<Rightarrow> 'q \<Rightarrow> 'r \<Rightarrow> 'm \<Rightarrow> bool) \<Rightarrow> 'm \<Rightarrow> ('q, 'r, 'a) prog \<Rightarrow> 'm \<Rightarrow> 'q \<Rightarrow> bool" for E where
  now: "issues E m (Call q k) m q"
| later: "E m q r m' \<Longrightarrow> issues E m' (k r) m'' q' \<Longrightarrow> issues E m (Call q k) m'' q'"

inductive ends ::
  "('m \<Rightarrow> 'q \<Rightarrow> 'r \<Rightarrow> 'm \<Rightarrow> bool) \<Rightarrow> 'm \<Rightarrow> ('q, 'r, 'a) prog \<Rightarrow> 'm \<Rightarrow> 'a \<Rightarrow> bool" for E where
  ret: "ends E m (Ret a) m a"
| call: "E m q r m' \<Longrightarrow> ends E m' (k r) m'' a \<Longrightarrow> ends E m (Call q k) m'' a"

lemma holds_issues: "issues E m p m' q \<Longrightarrow> holds C E Q m p \<Longrightarrow> C m' q"
  by (induction rule: issues.induct) auto

lemma holds_ends: "ends E m p m' a \<Longrightarrow> holds C E Q m p \<Longrightarrow> Q m' a"
  by (induction rule: ends.induct) auto

lemma holds_bindP: "holds C E Q m (bindP p f) = holds C E (\<lambda>m' a. holds C E Q m' (f a)) m p"
  by (induction p arbitrary: m) auto

lemma holds_mono:
  "holds C E Q m p \<Longrightarrow> (\<And>m a. Q m a \<Longrightarrow> Q' m a) \<Longrightarrow> holds C E Q' m p"
proof (induction p arbitrary: m)
  case (Call q k)
  from Call.prems show ?case by (auto intro: Call.IH)
qed auto

lemma holds_failIf [simp]:
  "holds C E Q m (failIf bad e p) = (if bad then Q m (Inl e) else holds C E Q m p)"
  by (simp add: failIf_def)

lemma holds_tryP [simp]:
  "holds C E Q m (tryP r k) = (case r of Inl e \<Rightarrow> Q m (Inl e) | Inr x \<Rightarrow> holds C E Q m (k x))"
  by (simp add: tryP_def split: sum.splits)

lemma holds_thenP:
  "holds C E Q m (thenP p k) =
     holds C E (\<lambda>m' r. case r of Inl e \<Rightarrow> Q m' (Inl e) | Inr x \<Rightarrow> holds C E Q m' (k x)) m p"
  by (simp add: thenP_def holds_bindP)

section \<open>Typed calls\<close>

text \<open>\<open>ask q as k\<close> issues \<open>q\<close> and continues with the part of the reply that \<open>as\<close>
  selects; a reply that belongs to another kind of request is no reply to \<open>q\<close>.\<close>

definition ask :: "'q \<Rightarrow> ('r \<Rightarrow> 'x option) \<Rightarrow> ('x \<Rightarrow> ('q, 'r, 'a) prog) \<Rightarrow> ('q, 'r, 'a) prog" where
  "ask q as k = Call q (\<lambda>r. case as r of None \<Rightarrow> Stuck | Some x \<Rightarrow> k x)"

lemma holds_ask [simp]:
  "holds C E Q m (ask q as k) \<longleftrightarrow>
     C m q \<and> (\<forall>r m' x. E m q r m' \<longrightarrow> as r = Some x \<longrightarrow> holds C E Q m' (k x))"
  by (auto simp: ask_def split: option.splits)

lemma runs_ask [simp]:
  "runs (ask q as k) h a \<longleftrightarrow> (\<exists>r x h'. h = (q, r) # h' \<and> as r = Some x \<and> runs (k x) h' a)"
  by (auto simp: ask_def split: option.splits)

lemma wp_ask [simp]:
  "wp Q h (ask q as k) \<longleftrightarrow> (\<forall>r x. as r = Some x \<longrightarrow> wp Q (h @ [(q, r)]) (k x))"
  by (auto simp: ask_def split: option.splits)

lemma bindP_ask [simp]: "bindP (ask q as k) f = ask q as (\<lambda>x. bindP (k x) f)"
  by (simp add: ask_def fun_eq_iff split: option.splits)

section \<open>What a tree may call and return\<close>

text \<open>\<open>onlyCalls P p\<close>: every call of \<open>p\<close> satisfies \<open>P\<close>, whatever the replies.
  \<open>returns Q p\<close>: every value \<open>p\<close> can return satisfies \<open>Q\<close>.\<close>

primrec onlyCalls :: "('q \<Rightarrow> bool) \<Rightarrow> ('q, 'r, 'a) prog \<Rightarrow> bool" where
  "onlyCalls P (Ret a) = True"
| "onlyCalls P (Call q k) = (P q \<and> (\<forall>r. onlyCalls P (k r)))"
| "onlyCalls P Stuck = True"

primrec returns :: "('a \<Rightarrow> bool) \<Rightarrow> ('q, 'r, 'a) prog \<Rightarrow> bool" where
  "returns Q (Ret a) = Q a"
| "returns Q (Call q k) = (\<forall>r. returns Q (k r))"
| "returns Q Stuck = True"

lemma onlyCalls_mono: "onlyCalls P t \<Longrightarrow> (\<And>q. P q \<Longrightarrow> P' q) \<Longrightarrow> onlyCalls P' t"
  by (induction t) auto

lemma onlyCalls_bindP: "onlyCalls P p \<Longrightarrow> (\<And>a. onlyCalls P (f a)) \<Longrightarrow> onlyCalls P (bindP p f)"
  by (induction p) auto

lemma returns_bindP: "returns Q (bindP p f) = returns (\<lambda>a. returns Q (f a)) p"
  by (induction p) auto

lemma onlyCalls_ask [simp]:
  "onlyCalls P (ask q as k) \<longleftrightarrow> P q \<and> (\<forall>r x. as r = Some x \<longrightarrow> onlyCalls P (k x))"
  by (auto simp: ask_def split: option.splits)

lemma returns_ask [simp]:
  "returns Q (ask q as k) \<longleftrightarrow> (\<forall>r x. as r = Some x \<longrightarrow> returns Q (k x))"
  by (auto simp: ask_def split: option.splits)

lemma onlyCalls_failIf [simp]: "onlyCalls P (failIf bad e p) \<longleftrightarrow> bad \<or> onlyCalls P p"
  by (simp add: failIf_def)

lemma returns_failIf [simp]: "returns Q (failIf bad e p) = (if bad then Q (Inl e) else returns Q p)"
  by (simp add: failIf_def)

lemma returns_tryP [simp]:
  "returns Q (tryP r k) = (case r of Inl e \<Rightarrow> Q (Inl e) | Inr x \<Rightarrow> returns Q (k x))"
  by (simp add: tryP_def split: sum.splits)

lemma onlyCalls_tryP [simp]:
  "onlyCalls P (tryP r k) \<longleftrightarrow> (\<forall>x. r = Inr x \<longrightarrow> onlyCalls P (k x))"
  by (simp add: tryP_def split: sum.splits)

lemma onlyCalls_thenP:
  "onlyCalls P p \<Longrightarrow> (\<And>x. onlyCalls P (k x)) \<Longrightarrow> onlyCalls P (thenP p k)"
  by (auto simp: thenP_def intro: onlyCalls_bindP)

lemma returns_mono: "returns Q p \<Longrightarrow> (\<And>a. Q a \<Longrightarrow> Q' a) \<Longrightarrow> returns Q' p"
  by (induction p) auto

lemma returns_runs: "returns Q p \<Longrightarrow> runs p h a \<Longrightarrow> Q a"
proof (induction p arbitrary: h)
  case (Call q k)
  then show ?case by fastforce
qed auto

lemma returns_iff: "returns Q p \<longleftrightarrow> (\<forall>h a. runs p h a \<longrightarrow> Q a)"
proof
  show "returns Q p \<Longrightarrow> \<forall>h a. runs p h a \<longrightarrow> Q a" by (auto intro: returns_runs)
  show "\<forall>h a. runs p h a \<longrightarrow> Q a \<Longrightarrow> returns Q p"
  proof (induction p)
    case (Call q k)
    have "returns Q (k r)" for r
      by (rule Call.IH [OF rangeI]) (use Call.prems in \<open>auto\<close>)
    then show ?case by simp
  qed auto
qed

lemma onlyCalls_runs: "onlyCalls P p \<Longrightarrow> runs p h a \<Longrightarrow> \<forall>(q, r) \<in> set h. P q"
proof (induction p arbitrary: h)
  case (Call q k)
  then show ?case by fastforce
qed auto

text \<open>A tree whose calls keep an assertion about the world keeps it as a whole, and what it
  returns is known from \<open>returns\<close>: the rule for the read-only parts of a handler.\<close>

lemma holds_reads:
  assumes "onlyCalls P p" and "returns Q p" and "I m"
    and "\<And>m q. P q \<Longrightarrow> I m \<Longrightarrow> C m q"
    and "\<And>m q r m'. P q \<Longrightarrow> I m \<Longrightarrow> E m q r m' \<Longrightarrow> I m'"
  shows "holds C E (\<lambda>m' a. I m' \<and> Q a) m p"
  using assms(1-3)
proof (induction p arbitrary: m)
  case (Call q k)
  from Call.prems have q: "P q" and k: "\<And>r. onlyCalls P (k r)" "\<And>r. returns Q (k r)" by simp_all
  have "holds C E (\<lambda>m' a. I m' \<and> Q a) m' (k r)" if "E m q r m'" for r m'
    using Call.IH [OF rangeI k] assms(5) [OF q Call.prems(3) that] by blast
  with assms(4) [OF q Call.prems(3)] show ?case by simp
qed simp_all

end
