(* ===== verification/Kube.thy ===== *)
theory Kube
  imports Prog "HOL-Library.AList"
begin

text \<open>
  The part of the Kubernetes API the sources use. Objects are records with the fields the
  sources read or write; the fields they never name are one opaque field, so that an
  equality of specs still speaks about the whole object. Go's string maps are association
  lists. A quantity is its amount in nano units, the precision Kubernetes keeps.

  The API server is not part of the program: every request is a call of the tree
  (theory \<open>Prog\<close>) and every reply is possible.
\<close>

section \<open>Maps and quantities\<close>

type_synonym strmap = "(string \<times> string) list"

text \<open>\<^verbatim>\<open>m[k]\<close>: the empty string for a missing key.\<close>

definition get :: "strmap \<Rightarrow> string \<Rightarrow> string" where
  "get m k = (case map_of m k of None \<Rightarrow> [] | Some v \<Rightarrow> v)"

text \<open>\<^verbatim>\<open>for k, v := range want { if have[k] != v { ... } }\<close>\<close>

definition carries :: "strmap \<Rightarrow> strmap \<Rightarrow> bool" where
  "carries have want \<longleftrightarrow> list_all (\<lambda>(k, v). get have k = v) want"

text \<open>\<^verbatim>\<open>for k, v := range entries { m[k] = v }\<close>\<close>

definition putAll :: "strmap \<Rightarrow> strmap \<Rightarrow> strmap" where
  "putAll entries m = fold (\<lambda>(k, v) acc. AList.update k v acc) entries m"

lemma get_update: "get (AList.update k v m) k' = (if k' = k then v else get m k')"
  by (simp add: get_def update_conv')

lemma get_putAll:
  "distinct (map fst entries) \<Longrightarrow>
    get (putAll entries m) k = (case map_of entries k of Some v \<Rightarrow> v | None \<Rightarrow> get m k)"
proof (induction entries arbitrary: m)
  case (Cons e es)
  obtain a b where e: "e = (a, b)" by (cases e)
  with Cons have "map_of es a = None" by (auto simp: map_of_eq_None_iff)
  with Cons e show ?case by (auto simp: putAll_def get_update split: option.splits)
qed (simp add: putAll_def)

lemma carries_putAll: "distinct (map fst entries) \<Longrightarrow> carries (putAll entries m) entries"
  by (auto simp: carries_def list_all_iff get_putAll)

type_synonym quantity = int

text \<open>\<^verbatim>\<open>Quantity.Value()\<close> and \<^verbatim>\<open>MilliValue()\<close> round up.\<close>

definition qValue :: "quantity \<Rightarrow> int" where
  "qValue q = - ((- q) div 1000000000)"

definition qMilliValue :: "quantity \<Rightarrow> int" where
  "qMilliValue q = - ((- q) div 1000000)"

definition quantityOf :: "int \<Rightarrow> quantity" where
  "quantityOf n = n * 1000000000"

definition milliQuantityOf :: "int \<Rightarrow> quantity" where
  "milliQuantityOf n = n * 1000000"

lemma qValue_quantityOf [simp]: "qValue (quantityOf n) = n"
proof -
  have "- (n * 1000000000) div 1000000000 = - n"
    by (metis mult_minus_left nonzero_mult_div_cancel_right zero_neq_numeral)
  then show ?thesis by (simp add: qValue_def quantityOf_def)
qed

text \<open>A \<^verbatim>\<open>ResourceList\<close>: \<open>None\<close> is the nil map.\<close>

type_synonym resourceList = "(string \<times> quantity) list option"

definition entries :: "resourceList \<Rightarrow> (string \<times> quantity) list" where
  "entries r = (case r of None \<Rightarrow> [] | Some m \<Rightarrow> m)"

definition amount :: "resourceList \<Rightarrow> string \<Rightarrow> quantity" where
  "amount r k = (case map_of (entries r) k of None \<Rightarrow> 0 | Some q \<Rightarrow> q)"

section \<open>Objects\<close>

record objectMeta =
  Name :: string
  Namespace :: string
  UID :: string
  ResourceVersion :: string
  Labels :: strmap
  Annotations :: strmap
  OwnerReferences :: "string list"
  Finalizers :: "string list"
  DeletionTimestamp :: "int option"
  DeletionGracePeriodSeconds :: "int option"

definition meta :: "string \<Rightarrow> string \<Rightarrow> strmap \<Rightarrow> strmap \<Rightarrow> objectMeta" where
  "meta n ns ls as = \<lparr>Name = n, Namespace = ns, UID = [], ResourceVersion = [], Labels = ls,
     Annotations = as, OwnerReferences = [], Finalizers = [], DeletionTimestamp = None,
     DeletionGracePeriodSeconds = None\<rparr>"

record resourceRequirements =
  Requests :: resourceList
  Limits :: resourceList
  Claims :: "string list"

definition noResources :: resourceRequirements where
  "noResources = \<lparr>Requests = None, Limits = None, Claims = []\<rparr>"

text \<open>Where an environment variable takes its value from: a literal, a key of a secret, a
  field of the pod.\<close>

datatype envSource = EnvValue string | SecretKeyRef string string | FieldRef string string

record envVar =
  envName :: string
  envFrom :: envSource

record probe =
  probePort :: string
  PeriodSeconds :: int
  TimeoutSeconds :: int
  FailureThreshold :: int
  SuccessThreshold :: int

record securityContext =
  AllowPrivilegeEscalation :: "bool option"
  ReadOnlyRootFilesystem :: "bool option"
  Privileged :: "bool option"
  DropCapabilities :: "string list"

record container =
  containerName :: string
  Image :: string
  ImagePullPolicy :: string
  Command :: "string list"
  ContainerSecurity :: "securityContext option"
  Ports :: "(string \<times> int \<times> string) list"
  VolumeMounts :: "(string \<times> string) list"
  Resources :: resourceRequirements
  Env :: "envVar list"
  StartupProbe :: "probe option"
  ReadinessProbe :: "probe option"
  LivenessProbe :: "probe option"
  TerminationMessagePath :: string
  TerminationMessagePolicy :: string
  containerRest :: string

datatype volumeSource = ClaimSource string bool | EmptyDirSource "quantity option" | OtherSource string

record toleration =
  tolKey :: string
  tolOperator :: string
  tolValue :: string
  tolEffect :: string
  TolerationSeconds :: "int option"

record podSecurityContext =
  RunAsNonRoot :: "bool option"
  RunAsUser :: "int option"
  RunAsGroup :: "int option"
  FSGroup :: "int option"
  SeccompType :: "string option"

record podSpec =
  NodeName :: string
  DNSPolicy :: string
  ServiceAccountName :: string
  DeprecatedServiceAccount :: string
  Tolerations :: "toleration list"
  Containers :: "container list"
  InitContainers :: "container list"
  EphemeralContainers :: "container list"
  PodResources :: "resourceRequirements option"
  AutomountServiceAccountToken :: "bool option"
  EnableServiceLinks :: "bool option"
  RestartPolicy :: string
  TerminationGracePeriodSeconds :: "int option"
  Priority :: "int option"
  PreemptionPolicy :: "string option"
  PriorityClassName :: string
  SchedulerName :: string
  NodeSelector :: strmap
  PodSecurity :: "podSecurityContext option"
  Volumes :: "(string \<times> volumeSource) list"
  podRest :: string

record condition =
  condType :: string
  condStatus :: string

record pod =
  podMeta :: objectMeta
  podSpecOf :: podSpec
  podPhase :: string
  podConditions :: "condition list"

record serviceSpec =
  ServiceType :: string
  Selector :: strmap
  ServicePorts :: "(string \<times> int \<times> string \<times> string) list"
  ClusterIP :: string
  ClusterIPs :: "string list"
  ExternalIPs :: "string list"
  IPFamilies :: "string list"
  IPFamilyPolicy :: "string option"
  SessionAffinity :: string
  InternalTrafficPolicy :: "string option"
  serviceRest :: string

record service =
  svcMeta :: objectMeta
  svcSpec :: serviceSpec

record secret =
  secMeta :: objectMeta
  secType :: string
  Immutable :: "bool option"
  Data :: strmap

record pvc =
  pvcMeta :: objectMeta
  AccessModes :: "string list"
  VolumeMode :: "string option"
  StorageClassName :: "string option"
  VolumeName :: string
  pvcRequests :: resourceList
  pvcPhase :: string
  pvcCapacity :: resourceList

record claimReference =
  refNamespace :: string
  refName :: string
  refUID :: string

record nodeExpr =
  exprKey :: string
  exprOperator :: string
  exprValues :: "string list"

record nodeTerm =
  MatchExpressions :: "nodeExpr list"
  MatchFields :: "nodeExpr list"

text \<open>\<open>NodeAffinity\<close> is the list of node selector terms of the required affinity, \<open>None\<close>
  when the affinity or its required part is absent.\<close>

record pv =
  pvMeta :: objectMeta
  ReclaimPolicy :: string
  LocalPath :: "string option"
  ClaimRef :: "claimReference option"
  pvStorageClass :: string
  pvVolumeMode :: "string option"
  pvAccessModes :: "string list"
  pvCapacity :: resourceList
  NodeAffinity :: "nodeTerm list option"
  pvPhase :: string

record node =
  nodeMeta :: objectMeta
  nodeConditions :: "condition list"
  nodeAllocatable :: resourceList
  Unschedulable :: bool

section \<open>Requests and replies\<close>

datatype kerr = NotFound | Forbidden | OtherErr string

record deleteOptions =
  PreUID :: "string option"
  PreResourceVersion :: "string option"
  GracePeriodSeconds :: "int option"
  PropagationPolicy :: "string option"

record httpRequest =
  httpMethod :: string
  httpURL :: string
  httpHeaders :: strmap
  httpBody :: string

record httpResponse =
  StatusCode :: int
  contentType :: string
  contentEncoding :: string
  Uncompressed :: bool
  respBody :: string

datatype kreq =
    GetPod string string | ListPods string | GetService string string | GetSecret string string
  | GetPVC string string | GetPV string | GetNode string
  | CreateSecret string secret | CreateService string service | CreatePod string pod
  | CreatePVC string pvc | UpdatePVC string pvc | UpdatePV pv | UpdatePVStatus pv
  | DeletePod string string deleteOptions | DeleteService string string deleteOptions
  | Sleep int | FreshUUID | RandomBytes nat | HttpDo httpRequest

datatype kresp =
    RPod "kerr + pod" | RPods "kerr + pod list" | RService "kerr + service"
  | RSecret "kerr + secret" | RPVC "kerr + pvc" | RPV "kerr + pv" | RNode "kerr + node"
  | RDone "kerr option" | RText string | RBytes "kerr + string" | RHttp "httpResponse option"

text \<open>\<open>Sleep\<close> is the \<^verbatim>\<open>select\<close> between a timer and the end of the context (an error
  reply), \<open>FreshUUID\<close> a random UUID, \<open>RandomBytes\<close> the system's random source and
  \<open>HttpDo\<close> an HTTP exchange, whose reply is \<open>None\<close> when it fails.

  Which requests change the cluster, and which of them create or delete a workload
  object.\<close>

fun mutates :: "kreq \<Rightarrow> bool" where
  "mutates (CreateSecret _ _) = True"
| "mutates (CreateService _ _) = True"
| "mutates (CreatePod _ _) = True"
| "mutates (CreatePVC _ _) = True"
| "mutates (UpdatePVC _ _) = True"
| "mutates (UpdatePV _) = True"
| "mutates (UpdatePVStatus _) = True"
| "mutates (DeletePod _ _ _) = True"
| "mutates (DeleteService _ _ _) = True"
| "mutates _ = False"

text \<open>A component's requests are Kubernetes requests (\<open>K\<close>) and its own (\<open>X\<close>).\<close>

datatype 'x req = K kreq | X 'x
datatype 'y resp = KR kresp | XR 'y

type_synonym ('x, 'y, 'a) tree = "('x req, 'y resp, 'a) prog"

fun asPod :: "'y resp \<Rightarrow> (kerr + pod) option" where
  "asPod (KR (RPod x)) = Some x"
| "asPod _ = None"

fun asPods :: "'y resp \<Rightarrow> (kerr + pod list) option" where
  "asPods (KR (RPods x)) = Some x"
| "asPods _ = None"

fun asService :: "'y resp \<Rightarrow> (kerr + service) option" where
  "asService (KR (RService x)) = Some x"
| "asService _ = None"

fun asSecret :: "'y resp \<Rightarrow> (kerr + secret) option" where
  "asSecret (KR (RSecret x)) = Some x"
| "asSecret _ = None"

fun asPVC :: "'y resp \<Rightarrow> (kerr + pvc) option" where
  "asPVC (KR (RPVC x)) = Some x"
| "asPVC _ = None"

fun asPV :: "'y resp \<Rightarrow> (kerr + pv) option" where
  "asPV (KR (RPV x)) = Some x"
| "asPV _ = None"

fun asNode :: "'y resp \<Rightarrow> (kerr + node) option" where
  "asNode (KR (RNode x)) = Some x"
| "asNode _ = None"

fun asDone :: "'y resp \<Rightarrow> (kerr option) option" where
  "asDone (KR (RDone x)) = Some x"
| "asDone _ = None"

fun asText :: "'y resp \<Rightarrow> string option" where
  "asText (KR (RText x)) = Some x"
| "asText _ = None"

fun asBytes :: "'y resp \<Rightarrow> (kerr + string) option" where
  "asBytes (KR (RBytes x)) = Some x"
| "asBytes _ = None"

fun asHttp :: "'y resp \<Rightarrow> httpResponse option option" where
  "asHttp (KR (RHttp x)) = Some x"
| "asHttp _ = None"

abbreviation "kGetPod ns n \<equiv> ask (K (GetPod ns n)) asPod"
abbreviation "kListPods ns \<equiv> ask (K (ListPods ns)) asPods"
abbreviation "kGetService ns n \<equiv> ask (K (GetService ns n)) asService"
abbreviation "kGetSecret ns n \<equiv> ask (K (GetSecret ns n)) asSecret"
abbreviation "kGetPVC ns n \<equiv> ask (K (GetPVC ns n)) asPVC"
abbreviation "kGetPV n \<equiv> ask (K (GetPV n)) asPV"
abbreviation "kGetNode n \<equiv> ask (K (GetNode n)) asNode"
abbreviation "kCreateSecret ns s \<equiv> ask (K (CreateSecret ns s)) asSecret"
abbreviation "kCreateService ns s \<equiv> ask (K (CreateService ns s)) asService"
abbreviation "kCreatePod ns p \<equiv> ask (K (CreatePod ns p)) asPod"
abbreviation "kCreatePVC ns c \<equiv> ask (K (CreatePVC ns c)) asPVC"
abbreviation "kUpdatePVC ns c \<equiv> ask (K (UpdatePVC ns c)) asPVC"
abbreviation "kUpdatePV v \<equiv> ask (K (UpdatePV v)) asPV"
abbreviation "kUpdatePVStatus v \<equiv> ask (K (UpdatePVStatus v)) asPV"
abbreviation "kDeletePod ns n d \<equiv> ask (K (DeletePod ns n d)) asDone"
abbreviation "kDeleteService ns n d \<equiv> ask (K (DeleteService ns n d)) asDone"
abbreviation "kSleep n \<equiv> ask (K (Sleep n)) asDone"
abbreviation "kFreshUUID \<equiv> ask (K FreshUUID) asText"
abbreviation "kRandomBytes n \<equiv> ask (K (RandomBytes n)) asBytes"
abbreviation "kHttpDo q \<equiv> ask (K (HttpDo q)) asHttp"

text \<open>The replies an accessor selects.\<close>

lemma as_iff [simp]:
  "asPod r = Some a \<longleftrightarrow> r = KR (RPod a)" "asPods r = Some b \<longleftrightarrow> r = KR (RPods b)"
  "asService r = Some c \<longleftrightarrow> r = KR (RService c)" "asSecret r = Some d \<longleftrightarrow> r = KR (RSecret d)"
  "asPVC r = Some e \<longleftrightarrow> r = KR (RPVC e)" "asPV r = Some f \<longleftrightarrow> r = KR (RPV f)"
  "asNode r = Some g \<longleftrightarrow> r = KR (RNode g)" "asDone r = Some h \<longleftrightarrow> r = KR (RDone h)"
  "asText r = Some i \<longleftrightarrow> r = KR (RText i)" "asBytes r = Some j \<longleftrightarrow> r = KR (RBytes j)"
  "asHttp r = Some l \<longleftrightarrow> r = KR (RHttp l)"
  by (cases r rule: asPod.cases, simp_all)
    (cases r rule: asPods.cases, simp_all, cases r rule: asService.cases, simp_all,
     cases r rule: asSecret.cases, simp_all, cases r rule: asPVC.cases, simp_all,
     cases r rule: asPV.cases, simp_all, cases r rule: asNode.cases, simp_all,
     cases r rule: asDone.cases, simp_all, cases r rule: asText.cases, simp_all,
     cases r rule: asBytes.cases, simp_all, cases r rule: asHttp.cases, simp_all)

text \<open>Reading requests, the component's own requests not among them.\<close>

definition readsKube :: "'x req \<Rightarrow> bool" where
  "readsKube q \<longleftrightarrow> (case q of K k \<Rightarrow> \<not> mutates k | X _ \<Rightarrow> False)"

lemma readsKube_K [simp]: "readsKube (K k) = (\<not> mutates k)" "\<not> readsKube (X x)"
  by (simp_all add: readsKube_def)

end
