(* ===== verification/AppProfile.thy ===== *)
theory AppProfile
  imports StrictJson Kube "HOL-Library.Char_ord" "HOL-Library.List_Lexorder"
begin

text \<open>
  \<^verbatim>\<open>internal/appinstances/profile.go\<close>: the profile of an App worker, its validity and the
  loader of the profile registry, with the package's error values and the third-party
  functions it uses (\<open>lib\<close>): \<^verbatim>\<open>google/uuid\<close>, the DNS name checks of apimachinery, the
  SHA-256 hashes of the JSON encodings, the semantic equality of Kubernetes specs and the
  value of the compute policy's environment variable.
\<close>

section \<open>Errors and libraries\<close>

datatype err =
    ErrInvalid | ErrBinding | ErrBusy | ErrCapacity | ErrConflict | ErrDenied
  | ErrUnavailable | ErrNotReady | ErrNoRows | ErrKube kerr | ErrDb string | ErrIO string

text \<open>\<^verbatim>\<open>apierrors.IsNotFound\<close>\<close>

definition isNotFound :: "err \<Rightarrow> bool" where
  "isNotFound e \<longleftrightarrow> e = ErrKube NotFound"

record uuid =
  uuidVersion :: int
  uuidNil :: bool
  uuidString :: string

record Profile =
  pAppID :: string
  pAppVersion :: string
  pID :: string
  pTemplateVersion :: string
  pNamespace :: string
  pNodeName :: string
  pPool :: string
  pClaims :: "string list"
  pStorageBytes :: int
  pImage :: string
  pPort :: int
  pRunAsUser :: int
  pCPURequestMillis :: int
  pCPULimitMillis :: int
  pMemoryRequestBytes :: int
  pMemoryLimitBytes :: int
  pEnv :: "strmap option"
  pBindings :: strmap

record lib =
  parseUUID :: "string \<Rightarrow> uuid option"
  isDNSLabel :: "string \<Rightarrow> bool"
  isDNSSubdomain :: "string \<Rightarrow> bool"
  hashProfile :: "Profile \<Rightarrow> string"
  hashSpecs :: "podSpec \<Rightarrow> serviceSpec \<Rightarrow> string"
  semPodSpec :: "podSpec \<Rightarrow> podSpec \<Rightarrow> bool"
  semServiceSpec :: "serviceSpec \<Rightarrow> serviceSpec \<Rightarrow> bool"
  policyEnv :: string

section \<open>Names\<close>

definition TemplateVersion :: string where
  "TemplateVersion = ''app-worker-cpu-v1''"

definition label :: "lib \<Rightarrow> string \<Rightarrow> bool" where
  "label L s \<longleftrightarrow> s \<noteq> [] \<and> isDNSLabel L s"

definition alnumLower :: "char \<Rightarrow> bool" where
  "alnumLower c \<longleftrightarrow> isLower c \<or> isDigit c"

text \<open>\<^verbatim>\<open>v?N\.N\.N\<close> with an optional prefix \<^verbatim>\<open>[a-z0-9][a-z0-9._-]*-\<close>\<close>

definition versionTag :: "string \<Rightarrow> bool" where
  "versionTag s \<longleftrightarrow> semver s \<or> (hasPrefix s ''v'' \<and> semver (tl s))"

definition imageTag :: "string \<Rightarrow> bool" where
  "imageTag s \<longleftrightarrow> versionTag s \<or>
     list_ex (\<lambda>(a, b). hasSuffix a ''-'' \<and> a \<noteq> ''-'' \<and> alnumLower (hd a) \<and>
       list_all (\<lambda>c. alnumLower c \<or> c \<in> set ''._-'') (butlast (tl a)) \<and> versionTag b) (cuts s)"

definition imageVersion :: "string \<Rightarrow> bool" where
  "imageVersion s \<longleftrightarrow>
     list_ex (\<lambda>(a, b). a \<noteq> [] \<and> alnumLower (hd a) \<and>
       list_all (\<lambda>c. alnumLower c \<or> c \<in> set ''./:_-'') (tl a) \<and>
       hasPrefix b '':'' \<and> imageTag (tl b)) (cuts s)"

definition envNameOk :: "string \<Rightarrow> bool" where
  "envNameOk = matchName (\<lambda>c. isUpper c \<or> c = CHR ''_'') (\<lambda>c. isUpper c \<or> isDigit c \<or> c = CHR ''_'') 127"

definition Key :: "Profile \<Rightarrow> string" where
  "Key p = pAppID p @ ''@'' @ pAppVersion p @ ''/'' @ pID p"

definition Hash :: "lib \<Rightarrow> Profile \<Rightarrow> string" where
  "Hash L p = hashProfile L p"

section \<open>Validity\<close>

definition optionalResourcePair :: "int \<Rightarrow> int \<Rightarrow> int \<Rightarrow> int \<Rightarrow> bool" where
  "optionalResourcePair request limit minimum maximum \<longleftrightarrow>
     request = 0 \<and> limit = 0 \<or> request \<ge> minimum \<and> limit \<ge> request \<and> limit \<le> maximum"

definition bindingSources :: "string list" where
  "bindingSources = [''instance_id'', ''start_operation_id'', ''generation'', ''pod_uid'', ''pod_name'',
     ''namespace'', ''container'', ''worker_token'']"

definition reservedEnv :: string where
  "reservedEnv = ''NVIDIA_VISIBLE_DEVICES''"

definition bindingOk :: "strmap \<Rightarrow> string \<times> string \<Rightarrow> bool" where
  "bindingOk env kv \<longleftrightarrow> envNameOk (fst kv) \<and> fst kv \<noteq> reservedEnv \<and> snd kv \<in> set bindingSources \<and>
     map_of env (fst kv) = None"

definition envOk :: "string \<times> string \<Rightarrow> bool" where
  "envOk kv \<longleftrightarrow> envNameOk (fst kv) \<and> fst kv \<noteq> reservedEnv \<and> length (snd kv) \<le> 4096 \<and>
     \<not> containsAny (snd kv) [CHR 0x00, CHR 0x0D, CHR 0x0A] \<and>
     \<not> containsStr (fst kv) ''TOKEN'' \<and> \<not> containsStr (fst kv) ''PASSWORD'' \<and>
     \<not> containsStr (fst kv) ''SECRET'' \<and> \<not> containsStr (fst kv) ''CREDENTIAL''"

definition scalarsOk :: "lib \<Rightarrow> Profile \<Rightarrow> bool" where
  "scalarsOk L p \<longleftrightarrow> \<not>
     (\<not> label L (pAppID p) \<or> \<not> semver (pAppVersion p) \<or> \<not> label L (pID p) \<or> pTemplateVersion p \<noteq> TemplateVersion \<or>
      \<not> label L (pNamespace p) \<or> pNamespace p = ''default'' \<or> hasPrefix (pNamespace p) ''kube-'' \<or>
      pNodeName p = [] \<or> \<not> isDNSSubdomain L (pNodeName p) \<or> \<not> label L (pPool p) \<or>
      length (pClaims p) = 0 \<or> length (pClaims p) > 1000 \<or>
      pStorageBytes p < 1 \<or> pStorageBytes p > 2 ^ 50 \<or> \<not> imageVersion (pImage p) \<or> length (pImage p) > 512 \<or>
      pPort p < 1024 \<or> pPort p > 65535 \<or> pRunAsUser p < 1 \<or> pRunAsUser p > 2147483647 \<or>
      \<not> optionalResourcePair (pCPURequestMillis p) (pCPULimitMillis p) 1 1048576 \<or>
      \<not> optionalResourcePair (pMemoryRequestBytes p) (pMemoryLimitBytes p) (2 ^ 20) (2 ^ 50) \<or>
      pEnv p = None \<or> length (the (pEnv p)) > 64 \<or> length (pBindings p) \<noteq> 8)"

definition ProfileValid :: "lib \<Rightarrow> Profile \<Rightarrow> bool" where
  "ProfileValid L p \<longleftrightarrow>
     scalarsOk L p \<and>
     scanSeen (\<lambda>claim. claim \<noteq> [] \<and> isDNSSubdomain L claim) (\<lambda>claim. claim) [] (pClaims p) \<and>
     scanSeen (bindingOk (the (pEnv p))) snd [] (pBindings p) \<and>
     ''instance_id'' \<in> snd ` set (pBindings p) \<and> ''worker_token'' \<in> snd ` set (pBindings p) \<and>
     list_all envOk (the (pEnv p))"

section \<open>The loader\<close>

text \<open>One decoded entry: the profile with the four resource fields of the wire shape, which
  may be absent.\<close>

record profileEntry =
  base :: Profile
  wireCPURequest :: "int option"
  wireCPULimit :: "int option"
  wireMemoryRequest :: "int option"
  wireMemoryLimit :: "int option"

definition orKeep :: "int option \<Rightarrow> int \<Rightarrow> int" where
  "orKeep v old = (case v of None \<Rightarrow> old | Some n \<Rightarrow> n)"

definition mergeEntry :: "profileEntry \<Rightarrow> Profile" where
  "mergeEntry e = (base e)\<lparr>
     pCPURequestMillis := orKeep (wireCPURequest e) (pCPURequestMillis (base e)),
     pCPULimitMillis := orKeep (wireCPULimit e) (pCPULimitMillis (base e)),
     pMemoryRequestBytes := orKeep (wireMemoryRequest e) (pMemoryRequestBytes (base e)),
     pMemoryLimitBytes := orKeep (wireMemoryLimit e) (pMemoryLimitBytes (base e))\<rparr>"

fun loadLoop :: "lib \<Rightarrow> (string \<times> Profile) list \<Rightarrow> profileEntry list \<Rightarrow> err + (string \<times> Profile) list" where
  "loadLoop L acc [] = Inr acc"
| "loadLoop L acc (e # es) =
     (let p = mergeEntry e in
      if \<not> ProfileValid L p then Inl ErrInvalid
      else if map_of acc (Key p) \<noteq> None then Inl ErrInvalid
      else loadLoop L ((Key p, p) # acc) es)"

definition LoadProfiles :: "lib \<Rightarrow> profileEntry list codec \<Rightarrow> string option \<Rightarrow> err + (string \<times> Profile) list" where
  "LoadProfiles L C reader =
     (case Decode C reader (2 ^ 20) of
        None \<Rightarrow> Inl ErrInvalid
      | Some es \<Rightarrow>
          if length es = 0 \<or> length es > 128 then Inl ErrInvalid else loadLoop L [] es)"

section \<open>Properties of valid profiles\<close>

text \<open>Eight distinct sources out of the eight known ones: every source is bound, once.\<close>

lemma valid_sources:
  assumes "ProfileValid L p"
  shows "distinct (map snd (pBindings p))" and "snd ` set (pBindings p) = set bindingSources"
proof -
  from assms have good: "\<forall>kv \<in> set (pBindings p). bindingOk (the (pEnv p)) kv"
    and dist: "distinct (map snd (pBindings p))" and len: "length (pBindings p) = 8"
    by (auto simp: ProfileValid_def scanSeen_Nil scalarsOk_def)
  then show "distinct (map snd (pBindings p))" by simp
  have "card (snd ` set (pBindings p)) = 8"
    using dist len by (metis distinct_card length_map set_map)
  moreover have "snd ` set (pBindings p) \<subseteq> set bindingSources"
    using good by (auto simp: bindingOk_def)
  moreover have "card (set bindingSources) = 8" by (simp add: bindingSources_def)
  ultimately show "snd ` set (pBindings p) = set bindingSources"
    by (metis List.finite_set card_subset_eq)
qed

text \<open>Go map keys are distinct; the model's association lists come with that as an
  assumption on the profile.\<close>

definition mapsOk :: "Profile \<Rightarrow> bool" where
  "mapsOk p \<longleftrightarrow> distinct (map fst (pBindings p)) \<and> distinct (map fst (the (pEnv p)))"

lemma valid_env_disjoint:
  assumes "ProfileValid L p"
  shows "fst ` set (pBindings p) \<inter> fst ` set (the (pEnv p)) = {}"
    and "reservedEnv \<notin> fst ` set (pBindings p) \<union> fst ` set (the (pEnv p))"
  using assms by (auto simp: ProfileValid_def scanSeen_Nil bindingOk_def envOk_def list_all_iff map_of_eq_None_iff)

lemma loadLoop_spec:
  assumes "loadLoop L acc es = Inr m" and "\<forall>(k, p) \<in> set acc. k = Key p \<and> ProfileValid L p" and "distinct (map fst acc)"
  shows "(\<forall>(k, p) \<in> set m. k = Key p \<and> ProfileValid L p) \<and> distinct (map fst m) \<and>
    set m = set acc \<union> (\<lambda>e. (Key (mergeEntry e), mergeEntry e)) ` set es"
  using assms
proof (induction es arbitrary: acc)
  case (Cons e es)
  let ?p = "mergeEntry e"
  from Cons.prems(1) have "ProfileValid L ?p" and "map_of acc (Key ?p) = None"
    and rest: "loadLoop L ((Key ?p, ?p) # acc) es = Inr m"
    by (auto simp: Let_def split: if_splits)
  with Cons.prems Cons.IH [OF rest] show ?case by (auto simp: map_of_eq_None_iff)
qed auto

text \<open>C34: a loaded registry is a map from the key of each configured entry to its profile:
  every entry is present under its own key, valid, and no two entries share a key.\<close>

theorem LoadProfiles_registry:
  assumes "LoadProfiles L C reader = Inr m"
  shows "(\<exists>es. Decode C reader (2 ^ 20) = Some es \<and> es \<noteq> [] \<and> length es \<le> 128 \<and>
      set m = (\<lambda>e. (Key (mergeEntry e), mergeEntry e)) ` set es) \<and>
    distinct (map fst m) \<and> (\<forall>(k, p) \<in> set m. k = Key p \<and> ProfileValid L p)"
proof -
  from assms obtain es where es: "Decode C reader (2 ^ 20) = Some es" "es \<noteq> []" "length es \<le> 128"
    and loop: "loadLoop L [] es = Inr m"
    by (auto simp: LoadProfiles_def split: option.splits if_splits)
  from loadLoop_spec [OF loop] es show ?thesis by auto
qed

end
