(* ===== verification/ComputePolicy.thy ===== *)
theory ComputePolicy
  imports Kube
begin

text \<open>
  \<^verbatim>\<open>internal/computepolicy/policy.go\<close>: the station policy that removes CPU and memory
  requirements from a pod. The argument \<open>env\<close> is the value of the environment variable
  \<^verbatim>\<open>STATION_CPU_MEMORY_POLICY\<close>.
\<close>

definition Unrestricted :: string where
  "Unrestricted = ''unrestricted-v1''"

definition Enabled :: "string \<Rightarrow> bool" where
  "Enabled env \<longleftrightarrow> env = Unrestricted"

definition Valid :: "string \<Rightarrow> bool" where
  "Valid env \<longleftrightarrow> env = [] \<or> Enabled env"

definition ResourceCPU :: string where
  "ResourceCPU = ''cpu''"

definition ResourceMemory :: string where
  "ResourceMemory = ''memory''"

definition declared :: "resourceRequirements \<Rightarrow> bool" where
  "declared r \<longleftrightarrow>
     list_ex (\<lambda>values. list_ex (\<lambda>name. map_of (entries values) name \<noteq> None) [ResourceCPU, ResourceMemory])
       [Requests r, Limits r]"

definition Declared :: "podSpec \<Rightarrow> bool" where
  "Declared spec \<longleftrightarrow>
     list_ex (\<lambda>group. list_ex (\<lambda>c. declared (Resources c)) group) [Containers spec, InitContainers spec] \<or>
     list_ex (\<lambda>c. declared (Resources c)) (EphemeralContainers spec) \<or>
     (case PodResources spec of None \<Rightarrow> False | Some r \<Rightarrow> declared r)"

definition stripList :: "resourceList \<Rightarrow> resourceList" where
  "stripList l =
     (case l of
        None \<Rightarrow> None
      | Some m \<Rightarrow>
          (let m' = AList.delete ResourceMemory (AList.delete ResourceCPU m)
           in if m' = [] then None else Some m'))"

definition strip :: "resourceRequirements \<Rightarrow> resourceRequirements" where
  "strip r = r\<lparr>Requests := stripList (Requests r), Limits := stripList (Limits r)\<rparr>"

definition stripContainer :: "container \<Rightarrow> container" where
  "stripContainer c = c\<lparr>Resources := strip (Resources c)\<rparr>"

definition Apply :: "string \<Rightarrow> podSpec \<Rightarrow> podSpec" where
  "Apply env spec =
     (if \<not> Enabled env then spec
      else spec\<lparr>Containers := map stripContainer (Containers spec),
        InitContainers := map stripContainer (InitContainers spec),
        EphemeralContainers := map stripContainer (EphemeralContainers spec),
        PodResources :=
          (case PodResources spec of
             None \<Rightarrow> None
           | Some r \<Rightarrow>
               if entries (Requests (strip r)) = [] \<and> entries (Limits (strip r)) = [] \<and> Claims (strip r) = []
               then None else Some (strip r))\<rparr>)"

section \<open>Stripping one resource list\<close>

definition exempt :: "string \<Rightarrow> bool" where
  "exempt k \<longleftrightarrow> k \<noteq> ResourceCPU \<and> k \<noteq> ResourceMemory"

lemma delete_both:
  "AList.delete ResourceMemory (AList.delete ResourceCPU m) = filter (\<lambda>(k, _). exempt k) m"
  by (induction m) (auto simp: exempt_def)

lemma entries_stripList: "entries (stripList l) = filter (\<lambda>(k, _). exempt k) (entries l)"
  by (auto simp: stripList_def entries_def Let_def delete_both split: option.splits)

lemma stripList_idem [simp]: "stripList (stripList l) = stripList l"
  by (auto simp: stripList_def Let_def delete_both split: option.splits)

lemma declared_strip [simp]: "\<not> declared (strip r)"
proof -
  have "map_of (filter (\<lambda>(k, _). exempt k) m) name = None" if "\<not> exempt name" for m :: "(string \<times> quantity) list" and name
    using that by (induction m) auto
  then show ?thesis by (auto simp: declared_def strip_def entries_stripList exempt_def)
qed

lemma strip_idem [simp]: "strip (strip r) = strip r"
  by (simp add: strip_def)

lemma stripContainer_idem [simp]: "stripContainer (stripContainer c) = stripContainer c"
  by (simp add: stripContainer_def)

section \<open>The policy\<close>

lemma Apply_idem: "Apply env (Apply env spec) = Apply env spec"
  by (auto simp: Apply_def comp_def split: option.splits)

lemma Apply_undeclared: "Enabled env \<Longrightarrow> \<not> Declared (Apply env spec)"
  by (auto simp: Apply_def Declared_def stripContainer_def list_ex_iff split: option.splits)

text \<open>What a list of containers demands besides CPU and memory.\<close>

definition otherDemands :: "container list \<Rightarrow> ((string \<times> quantity) list \<times> (string \<times> quantity) list \<times> string list) list" where
  "otherDemands cs = map (\<lambda>c. (filter (\<lambda>(k, _). exempt k) (entries (Requests (Resources c))),
     filter (\<lambda>(k, _). exempt k) (entries (Limits (Resources c))), Claims (Resources c))) cs"

lemma otherDemands_strip [simp]: "otherDemands (map stripContainer cs) = otherDemands cs"
  by (simp add: otherDemands_def stripContainer_def strip_def entries_stripList)


end
