(* ===== verification/AppObjects.thy ===== *)
theory AppObjects
  imports AppProfile ComputePolicy
begin

text \<open>
  \<^verbatim>\<open>internal/appinstances/objects.go\<close>: identities, the names and annotations that tie
  Kubernetes objects to them, and the Pod and Service of a worker run.
\<close>

section \<open>Data\<close>

record Identity =
  StationID :: string
  OrganizationID :: string
  UserID :: string
  InstallationID :: string
  InstanceID :: string

record Run =
  runIdentity :: Identity
  OperationID :: string
  Generation :: int

record Volume =
  volIdentity :: Identity
  ProfileHash :: string
  PVCName :: string
  PVCUID :: string
  PVName :: string
  PVUID :: string

definition key :: "string \<Rightarrow> string" where
  "key s = ''station.verdantflare.com/'' @ s"

definition stationKey :: string where "stationKey = key ''station-id''"
definition poolKey :: string where "poolKey = key ''workspace-pool''"
definition specKey :: string where "specKey = key ''appinstance-spec-hash''"
definition workerPriorityClass :: string where "workerPriorityClass = ''station-app-worker''"
definition LabelHostname :: string where "LabelHostname = ''kubernetes.io/hostname''"

section \<open>Identifiers\<close>

definition validID :: "lib \<Rightarrow> string \<Rightarrow> bool" where
  "validID L v \<longleftrightarrow>
     (case parseUUID L v of None \<Rightarrow> False | Some u \<Rightarrow> uuidVersion u = 7 \<and> uuidString u = v)"

definition validUID :: "lib \<Rightarrow> string \<Rightarrow> bool" where
  "validUID L v \<longleftrightarrow>
     (case parseUUID L v of None \<Rightarrow> False | Some u \<Rightarrow> \<not> uuidNil u \<and> uuidString u = v)"

definition validIdentity :: "lib \<Rightarrow> Identity \<Rightarrow> bool" where
  "validIdentity L i \<longleftrightarrow>
     list_all (validID L) [StationID i, OrganizationID i, UserID i, InstallationID i, InstanceID i]"

definition identityAnnotations :: "lib \<Rightarrow> Identity \<Rightarrow> Profile \<Rightarrow> strmap" where
  "identityAnnotations L i p =
     [(stationKey, StationID i), (key ''organization-id'', OrganizationID i), (key ''owner-id'', UserID i),
      (key ''installation-id'', InstallationID i), (key ''instance-id'', InstanceID i), (key ''app-id'', pAppID p),
      (key ''app-version'', pAppVersion p), (key ''profile-id'', pID p), (key ''profile-hash'', Hash L p)]"

definition instanceName :: "Identity \<Rightarrow> string" where
  "instanceName i = ''appi-'' @ removeChar CHR ''-'' (InstanceID i)"

definition runName :: "Run \<Rightarrow> string" where
  "runName r = ''appr-'' @ removeChar CHR ''-'' (OperationID r)"

definition runAnnotations :: "lib \<Rightarrow> Run \<Rightarrow> Profile \<Rightarrow> strmap" where
  "runAnnotations L r p =
     AList.update (key ''generation'') (showInt (Generation r))
       (AList.update (key ''start-operation-id'') (OperationID r) (identityAnnotations L (runIdentity r) p))"

definition validVolume :: "lib \<Rightarrow> Identity \<Rightarrow> Profile \<Rightarrow> Volume \<Rightarrow> bool" where
  "validVolume L i p b \<longleftrightarrow>
     (if \<not> validIdentity L i \<or> \<not> ProfileValid L p \<or> volIdentity b \<noteq> i \<or> ProfileHash b \<noteq> Hash L p \<or>
         \<not> validUID L (PVCUID b) \<or> \<not> validUID L (PVUID b) \<or> PVName b = []
      then False
      else list_ex (\<lambda>name. name = PVCName b) (pClaims p))"

section \<open>Worker objects\<close>

definition profileResources :: "Profile \<Rightarrow> resourceRequirements" where
  "profileResources p =
     (if pCPURequestMillis p = 0 \<and> pMemoryRequestBytes p = 0 then noResources
      else
        (let cpu = pCPURequestMillis p > 0; mem = pMemoryRequestBytes p > 0 in
         \<lparr>Requests = Some ((if cpu then [(ResourceCPU, milliQuantityOf (pCPURequestMillis p))] else []) @
            (if mem then [(ResourceMemory, quantityOf (pMemoryRequestBytes p))] else [])),
          Limits = Some ((if cpu then [(ResourceCPU, milliQuantityOf (pCPULimitMillis p))] else []) @
            (if mem then [(ResourceMemory, quantityOf (pMemoryLimitBytes p))] else [])),
          Claims = []\<rparr>))"

definition literalEnv :: "strmap \<Rightarrow> envVar list" where
  "literalEnv m = map (\<lambda>k. \<lparr>envName = k, envFrom = EnvValue (get m k)\<rparr>) (sort (map fst m))"

definition boundEnv :: "Run \<Rightarrow> string \<Rightarrow> string \<Rightarrow> envVar" where
  "boundEnv r k src =
     \<lparr>envName = k, envFrom =
       (if src = ''instance_id'' then EnvValue (InstanceID (runIdentity r))
        else if src = ''start_operation_id'' then EnvValue (OperationID r)
        else if src = ''generation'' then EnvValue (showInt (Generation r))
        else if src = ''container'' then EnvValue ''worker''
        else if src = ''worker_token'' then SecretKeyRef (instanceName (runIdentity r)) ''worker-token''
        else FieldRef ''v1''
          (get [(''pod_uid'', ''metadata.uid''), (''pod_name'', ''metadata.name''), (''namespace'', ''metadata.namespace'')] src))\<rparr>"

definition workerEnv :: "Run \<Rightarrow> Profile \<Rightarrow> envVar list" where
  "workerEnv r p =
     \<lparr>envName = ''NVIDIA_VISIBLE_DEVICES'', envFrom = EnvValue ''void''\<rparr> # literalEnv (the (pEnv p)) @
     map (\<lambda>k. boundEnv r k (get (pBindings p) k)) (sort (map fst (pBindings p)))"

definition controlProbe :: "int \<Rightarrow> int \<Rightarrow> probe option" where
  "controlProbe period failures =
     Some \<lparr>probePort = ''control'', PeriodSeconds = period, TimeoutSeconds = 3, FailureThreshold = failures,
       SuccessThreshold = 0\<rparr>"

definition workerContainer :: "Run \<Rightarrow> Profile \<Rightarrow> container" where
  "workerContainer r p =
     \<lparr>containerName = ''worker'', Image = pImage p, ImagePullPolicy = ''Always'', Command = [],
      ContainerSecurity = Some \<lparr>AllowPrivilegeEscalation = Some False, ReadOnlyRootFilesystem = Some True,
        Privileged = Some False, DropCapabilities = [''ALL'']\<rparr>,
      Ports = [(''control'', pPort p, ''TCP'')], VolumeMounts = [(''workspace'', ''/workspace''), (''tmp'', ''/tmp'')],
      Resources = profileResources p, Env = workerEnv r p,
      StartupProbe = controlProbe 5 60, ReadinessProbe = controlProbe 5 3, LivenessProbe = controlProbe 15 3,
      TerminationMessagePath = [], TerminationMessagePolicy = [], containerRest = []\<rparr>"

definition workerLabels :: "Run \<Rightarrow> strmap" where
  "workerLabels r = [(key ''instance-id'', InstanceID (runIdentity r)), (key ''start-operation-id'', OperationID r)]"

definition workerPodSpec :: "Run \<Rightarrow> Profile \<Rightarrow> Volume \<Rightarrow> podSpec" where
  "workerPodSpec r p b =
     \<lparr>NodeName = [], DNSPolicy = [], ServiceAccountName = [], DeprecatedServiceAccount = [], Tolerations = [],
      Containers = [workerContainer r p], InitContainers = [], EphemeralContainers = [], PodResources = None,
      AutomountServiceAccountToken = Some False, EnableServiceLinks = Some False, RestartPolicy = ''Never'',
      TerminationGracePeriodSeconds = Some 30, Priority = Some 0, PreemptionPolicy = Some ''Never'',
      PriorityClassName = workerPriorityClass, SchedulerName = ''default-scheduler'',
      NodeSelector = [(LabelHostname, pNodeName p)],
      PodSecurity = Some \<lparr>RunAsNonRoot = Some True, RunAsUser = Some (pRunAsUser p), RunAsGroup = Some (pRunAsUser p),
        FSGroup = Some (pRunAsUser p), SeccompType = Some ''RuntimeDefault''\<rparr>,
      Volumes = [(''workspace'', ClaimSource (PVCName b) False),
        (''tmp'', EmptyDirSource (Some (quantityOf (256 * 2 ^ 20))))],
      podRest = []\<rparr>"

definition workerServiceSpec :: "Run \<Rightarrow> Profile \<Rightarrow> serviceSpec" where
  "workerServiceSpec r p =
     \<lparr>ServiceType = ''ClusterIP'', Selector = workerLabels r, ServicePorts = [(''control'', pPort p, ''control'', ''TCP'')],
      ClusterIP = [], ClusterIPs = [], ExternalIPs = [], IPFamilies = [], IPFamilyPolicy = None, SessionAffinity = [],
      InternalTrafficPolicy = None, serviceRest = []\<rparr>"

definition WorkerObjects :: "lib \<Rightarrow> Run \<Rightarrow> Profile \<Rightarrow> Volume \<Rightarrow> err + pod \<times> service" where
  "WorkerObjects L r p b =
     (if \<not> validVolume L (runIdentity r) p b \<or> \<not> validID L (OperationID r) \<or> Generation r < 1
      then Inl ErrInvalid
      else
        (let spec = workerPodSpec r p b; svc = workerServiceSpec r p;
             hash = hashSpecs L (spec\<lparr>PriorityClassName := []\<rparr>) svc;
             m = meta (runName r) (pNamespace p) (workerLabels r) (AList.update specKey hash (runAnnotations L r p))
         in Inr (\<lparr>podMeta = m, podSpecOf = spec, podPhase = [], podConditions = []\<rparr>,
                 \<lparr>svcMeta = m, svcSpec = svc\<rparr>)))"

section \<open>Lemmas\<close>

lemma validVolume_iff:
  "validVolume L i p b \<longleftrightarrow> validIdentity L i \<and> ProfileValid L p \<and> volIdentity b = i \<and> ProfileHash b = Hash L p \<and>
     validUID L (PVCUID b) \<and> validUID L (PVUID b) \<and> PVName b \<noteq> [] \<and> PVCName b \<in> set (pClaims p)"
  by (auto simp: validVolume_def list_ex_iff)

text \<open>The keys the code writes are pairwise different.\<close>

lemma identityAnnotations_distinct: "distinct (map fst (identityAnnotations L i p))"
  by (simp add: identityAnnotations_def stationKey_def key_def)

lemma runAnnotations_distinct: "distinct (map fst (runAnnotations L r p))"
  by (simp add: runAnnotations_def distinct_update identityAnnotations_distinct)

text \<open>The annotations of two identities determine them, under the same profile.\<close>

lemma identityAnnotations_inj:
  "identityAnnotations L i p = identityAnnotations L i' p' \<Longrightarrow>
    i = i' \<and> pAppID p = pAppID p' \<and> pAppVersion p = pAppVersion p' \<and> pID p = pID p' \<and> Hash L p = Hash L p'"
  by (simp add: identityAnnotations_def)

lemma carries_trans:
  assumes "carries have want" and "(k, v) \<in> set want"
  shows "get have k = v"
  using assms by (auto simp: carries_def list_all_iff)

lemma WorkerObjects_Inr:
  "WorkerObjects L r p b = Inr (d, s) \<longleftrightarrow>
     validVolume L (runIdentity r) p b \<and> validID L (OperationID r) \<and> 1 \<le> Generation r \<and>
     (let hash = hashSpecs L ((workerPodSpec r p b)\<lparr>PriorityClassName := []\<rparr>) (workerServiceSpec r p);
          m = meta (runName r) (pNamespace p) (workerLabels r) (AList.update specKey hash (runAnnotations L r p))
      in d = \<lparr>podMeta = m, podSpecOf = workerPodSpec r p b, podPhase = [], podConditions = []\<rparr> \<and>
         s = \<lparr>svcMeta = m, svcSpec = workerServiceSpec r p\<rparr>)"
  by (auto simp: WorkerObjects_def Let_def)

lemma envName_workerEnv:
  "map envName (workerEnv r p) = reservedEnv # sort (map fst (the (pEnv p))) @ sort (map fst (pBindings p))"
  by (simp add: workerEnv_def literalEnv_def boundEnv_def reservedEnv_def comp_def)

text \<open>Which variables take their value from a secret.\<close>

lemma secret_source:
  "envFrom (boundEnv r k src) = SecretKeyRef n d \<longleftrightarrow>
     src = ''worker_token'' \<and> n = instanceName (runIdentity r) \<and> d = ''worker-token''"
  by (auto simp: boundEnv_def)

section \<open>Names are injective\<close>

text \<open>The canonical text form of a UUID: 36 characters with dashes at four fixed places and
  nowhere else.\<close>

definition uuidShape :: "string \<Rightarrow> bool" where
  "uuidShape s \<longleftrightarrow> length s = 36 \<and> (\<forall>i < 36. (s ! i = CHR ''-'') = (i \<in> {8, 13, 18, 23}))"

definition uuidLaws :: "lib \<Rightarrow> bool" where
  "uuidLaws L \<longleftrightarrow> (\<forall>v u. parseUUID L v = Some u \<longrightarrow> uuidShape (uuidString u))"

lemma removeChar_append [simp]: "removeChar c (a @ b) = removeChar c a @ removeChar c b"
  by (simp add: removeChar_def)

text \<open>Removing a character loses nothing between strings that have it at the same places.\<close>

lemma removeChar_inj:
  "list_all2 (\<lambda>x y. (x = c) = (y = c)) a b \<Longrightarrow> removeChar c a = removeChar c b \<Longrightarrow> a = b"
proof (induction rule: list_all2_induct)
  case (Cons x xs y ys)
  then show ?case by (auto simp: removeChar_def split: if_splits)
qed simp

lemma uuidShape_inj:
  assumes "uuidShape a" and "uuidShape b" and "removeChar CHR ''-'' a = removeChar CHR ''-'' b"
  shows "a = b"
proof (rule removeChar_inj [OF _ assms(3)])
  show "list_all2 (\<lambda>x y. (x = CHR ''-'') = (y = CHR ''-'')) a b"
    using assms(1,2) by (auto simp: list_all2_conv_all_nth uuidShape_def)
qed

lemma validID_shape: "uuidLaws L \<Longrightarrow> validID L v \<Longrightarrow> uuidShape v"
  by (auto simp: validID_def uuidLaws_def split: option.splits)

lemma runName_inj:
  assumes "uuidLaws L" and "validID L (OperationID r)" and "validID L (OperationID r')"
    and "runName r = runName r'"
  shows "OperationID r = OperationID r'"
  using assms by (auto simp: runName_def intro: uuidShape_inj validID_shape)

lemma instanceName_inj:
  assumes "uuidLaws L" and "validIdentity L i" and "validIdentity L i'" and "instanceName i = instanceName i'"
  shows "InstanceID i = InstanceID i'"
  using assms by (auto simp: instanceName_def validIdentity_def intro: uuidShape_inj validID_shape)

lemma run_instance_names: "runName r \<noteq> instanceName i"
  by (simp add: runName_def instanceName_def)

section \<open>The environment of a worker\<close>

lemma workerEnv_distinct:
  assumes "ProfileValid L p" and "mapsOk p"
  shows "distinct (map envName (workerEnv r p))"
  using assms(2) valid_env_disjoint [OF assms(1)] by (auto simp: envName_workerEnv mapsOk_def)

text \<open>Exactly one variable is bound to the source \<open>worker_token\<close>.\<close>

lemma worker_token_once:
  assumes valid: "ProfileValid L p" and maps: "mapsOk p"
  shows "length (filter (\<lambda>k. get (pBindings p) k = ''worker_token'') (sort (map fst (pBindings p)))) = 1"
proof -
  let ?B = "sort (map fst (pBindings p))"
  from valid_sources(2) [OF valid] have "''worker_token'' \<in> snd ` set (pBindings p)"
    by (simp add: bindingSources_def)
  then obtain k0 where k0: "(k0, ''worker_token'') \<in> set (pBindings p)" by auto
  have "get (pBindings p) k = ''worker_token'' \<longleftrightarrow> k = k0" if "k \<in> set ?B" for k
  proof -
    from that obtain v where kv: "(k, v) \<in> set (pBindings p)" by auto
    then have "get (pBindings p) k = v" using maps by (simp add: get_def mapsOk_def)
    moreover have "v = ''worker_token'' \<longleftrightarrow> k = k0"
      using kv k0 maps valid_sources(1) [OF valid]
      by (metis eq_key_imp_eq_value inj_onD distinct_map mapsOk_def prod.inject snd_conv)
    ultimately show ?thesis by simp
  qed
  then have "filter (\<lambda>k. get (pBindings p) k = ''worker_token'') ?B = filter (\<lambda>k. k = k0) ?B"
    by (intro filter_cong) auto
  moreover have "distinct ?B" and "k0 \<in> set ?B"
    using maps k0 by (auto simp: mapsOk_def intro: rev_image_eqI)
  ultimately show ?thesis by (simp add: distinct_filter_one)
qed

lemma workerEnv_secrets:
  "length (filter (\<lambda>v. \<exists>n k. envFrom v = SecretKeyRef n k) (workerEnv r p)) =
     length (filter (\<lambda>k. get (pBindings p) k = ''worker_token'') (sort (map fst (pBindings p))))"
proof -
  have "filter (\<lambda>v. \<exists>n k. envFrom v = SecretKeyRef n k) (literalEnv m) = []" for m
    by (simp add: literalEnv_def filter_empty_conv)
  then show ?thesis by (simp add: workerEnv_def filter_map comp_def secret_source)
qed

section \<open>Properties\<close>

text \<open>C18: the environment of a worker container defines no variable twice, takes exactly one
  value from a secret, namely the worker token of this instance's own secret, and switches
  off GPU visibility.\<close>

theorem worker_environment:
  assumes "WorkerObjects L r p b = Inr (d, s)" and "mapsOk p"
  shows "\<exists>c. Containers (podSpecOf d) = [c] \<and> distinct (map envName (Env c)) \<and>
    \<lparr>envName = ''NVIDIA_VISIBLE_DEVICES'', envFrom = EnvValue ''void''\<rparr> \<in> set (Env c) \<and>
    length (filter (\<lambda>v. \<exists>n k. envFrom v = SecretKeyRef n k) (Env c)) = 1 \<and>
    (\<forall>v \<in> set (Env c). \<forall>n k. envFrom v = SecretKeyRef n k \<longrightarrow>
      n = instanceName (runIdentity r) \<and> k = ''worker-token'')"
proof -
  from assms(1) have valid: "ProfileValid L p" and d: "Containers (podSpecOf d) = [workerContainer r p]"
    by (auto simp: WorkerObjects_Inr validVolume_iff Let_def workerPodSpec_def)
  have "\<forall>v \<in> set (workerEnv r p). \<forall>n k. envFrom v = SecretKeyRef n k \<longrightarrow>
      n = instanceName (runIdentity r) \<and> k = ''worker-token''"
    by (auto simp: workerEnv_def literalEnv_def secret_source)
  moreover have "\<lparr>envName = ''NVIDIA_VISIBLE_DEVICES'', envFrom = EnvValue ''void''\<rparr> \<in> set (workerEnv r p)"
    by (simp add: workerEnv_def)
  ultimately show ?thesis
    using workerEnv_distinct [OF valid assms(2)] worker_token_once [OF valid assms(2)] d
    by (simp add: workerContainer_def workerEnv_secrets)
qed


section \<open>A concrete profile and run\<close>

text \<open>Concrete library functions, a profile and a run, on which the properties of the
  following theories are applied: identifiers of the canonical form whose version is the
  character at position 14, permissive names, a hash that is the profile's identifier.\<close>

definition dashes :: "bool list" where
  "dashes = replicate 8 False @ [True] @ replicate 4 False @ [True] @ replicate 4 False @ [True] @ replicate 4 False @
     [True] @ replicate 12 False"

definition sampleUUID :: "string \<Rightarrow> uuid option" where
  "sampleUUID v =
     (if map (\<lambda>c. c = CHR ''-'') v = dashes
      then Some \<lparr>uuidVersion = (if v ! 14 = CHR ''7'' then 7 else 4), uuidNil = False, uuidString = v\<rparr>
      else None)"

definition sampleLib :: lib where
  "sampleLib = \<lparr>parseUUID = sampleUUID, isDNSLabel = (\<lambda>_. True), isDNSSubdomain = (\<lambda>_. True), hashProfile = pID,
     hashSpecs = (\<lambda>_ _. ''spec''), semPodSpec = (=), semServiceSpec = (=), policyEnv = []\<rparr>"

definition sampleProfile :: Profile where
  "sampleProfile =
     \<lparr>pAppID = ''app'', pAppVersion = ''1.2.3'', pID = ''cpu'', pTemplateVersion = TemplateVersion, pNamespace = ''apps'',
      pNodeName = ''node-a'', pPool = ''pool'', pClaims = [''claim-a''], pStorageBytes = 1, pImage = ''r/app:1.2.3'',
      pPort = 8080, pRunAsUser = 1000, pCPURequestMillis = 0, pCPULimitMillis = 0, pMemoryRequestBytes = 0,
      pMemoryLimitBytes = 0, pEnv = Some [(''MODE'', ''x'')],
      pBindings = [(''A'', ''instance_id''), (''B'', ''start_operation_id''), (''C'', ''generation''), (''D'', ''pod_uid''),
        (''E'', ''pod_name''), (''F'', ''namespace''), (''G'', ''container''), (''H'', ''worker_token'')]\<rparr>"

definition sampleID :: "char \<Rightarrow> string" where
  "sampleID c = c # ''0000000-0000-7000-8000-000000000000''"

definition sampleIdentity :: Identity where
  "sampleIdentity = \<lparr>StationID = sampleID CHR ''1'', OrganizationID = sampleID CHR ''2'', UserID = sampleID CHR ''3'',
     InstallationID = sampleID CHR ''4'', InstanceID = sampleID CHR ''5''\<rparr>"

definition sampleRun :: "char \<Rightarrow> Run" where
  "sampleRun c = \<lparr>runIdentity = sampleIdentity, OperationID = sampleID c, Generation = 1\<rparr>"

definition sampleVolume :: Volume where
  "sampleVolume = \<lparr>volIdentity = sampleIdentity, ProfileHash = ''cpu'', PVCName = ''claim-a'', PVCUID = sampleID CHR ''6'',
     PVName = ''pv-a'', PVUID = sampleID CHR ''7''\<rparr>"

lemma sampleProfile_valid: "ProfileValid sampleLib sampleProfile"
  by code_simp

lemma sampleProfile_maps: "mapsOk sampleProfile"
  by code_simp

lemma dashes_shape: "dashes = map (\<lambda>i. i \<in> {8, 13, 18, 23}) [0..<36]"
  by code_simp

lemma sampleUUID_shape:
  assumes "map (\<lambda>c. c = CHR ''-'') v = dashes"
  shows "uuidShape v"
  using assms unfolding dashes_shape uuidShape_def by (auto simp: list_eq_iff_nth_eq)

lemma sampleUUID_laws: "uuidLaws sampleLib"
  by (auto simp: uuidLaws_def sampleLib_def sampleUUID_def intro: sampleUUID_shape split: if_splits)

lemma sampleVolume_valid: "validVolume sampleLib sampleIdentity sampleProfile sampleVolume"
  by code_simp

definition sampleObjects :: "char \<Rightarrow> pod \<times> service" where
  "sampleObjects c =
     (case WorkerObjects sampleLib (sampleRun c) sampleProfile sampleVolume of Inr x \<Rightarrow> x | Inl _ \<Rightarrow> undefined)"

lemma sample_WorkerObjects:
  assumes "c \<in> {CHR ''8'', CHR ''9''}"
  shows "WorkerObjects sampleLib (sampleRun c) sampleProfile sampleVolume =
    Inr (fst (sampleObjects c), snd (sampleObjects c))"
proof -
  have "validID sampleLib (sampleID CHR ''8'')" "validID sampleLib (sampleID CHR ''9'')" by code_simp+
  with assms sampleVolume_valid show ?thesis
    by (auto simp: sampleObjects_def WorkerObjects_def Let_def sampleRun_def)
qed

theorem worker_environment_witness:
  "\<exists>c. Containers (podSpecOf (fst (sampleObjects CHR ''8''))) = [c] \<and> distinct (map envName (Env c)) \<and>
    \<lparr>envName = ''NVIDIA_VISIBLE_DEVICES'', envFrom = EnvValue ''void''\<rparr> \<in> set (Env c) \<and>
    length (filter (\<lambda>v. \<exists>n k. envFrom v = SecretKeyRef n k) (Env c)) = 1 \<and>
    (\<forall>v \<in> set (Env c). \<forall>n k. envFrom v = SecretKeyRef n k \<longrightarrow>
      n = instanceName (runIdentity (sampleRun CHR ''8'')) \<and> k = ''worker-token'')"
  by (rule worker_environment [OF sample_WorkerObjects sampleProfile_maps]) simp


text \<open>A codec whose decoder yields one entry with the concrete profile.\<close>

definition sampleEntry :: profileEntry where
  "sampleEntry = \<lparr>base = sampleProfile, wireCPURequest = None, wireCPULimit = None, wireMemoryRequest = None,
     wireMemoryLimit = None\<rparr>"

definition sampleCodec :: "profileEntry list codec" where
  "sampleCodec = \<lparr>tokens = (\<lambda>_. [TBool True]), floatSyntax = (\<lambda>_. True), decodeInto = (\<lambda>_. Some [sampleEntry]),
     marshal = (\<lambda>_. Some []), unmarshalAny = (\<lambda>_. Some (JBoolean True))\<rparr>"

lemma sampleCodec_loads:
  "LoadProfiles sampleLib sampleCodec (Some ''[]'') = Inr [(Key sampleProfile, sampleProfile)]"
proof -
  have "Decode sampleCodec (Some ''[]'') (2 ^ 20) = Some [sampleEntry]"
    by (simp add: Decode_def readLimited_def sampleCodec_def scan.simps i64_def byteIn_def)
  moreover have "mergeEntry sampleEntry = sampleProfile"
    by (simp add: mergeEntry_def sampleEntry_def orKeep_def)
  ultimately show ?thesis by (simp add: LoadProfiles_def sampleProfile_valid)
qed

theorem LoadProfiles_registry_witness:
  "(\<exists>es. Decode sampleCodec (Some ''[]'') (2 ^ 20) = Some es \<and> es \<noteq> [] \<and> length es \<le> 128 \<and>
      set [(Key sampleProfile, sampleProfile)] = (\<lambda>e. (Key (mergeEntry e), mergeEntry e)) ` set es) \<and>
    distinct (map fst [(Key sampleProfile, sampleProfile)]) \<and>
    list_all (\<lambda>(k, p). k = Key p \<and> ProfileValid sampleLib p) [(Key sampleProfile, sampleProfile)]"
  unfolding list_all_iff by (rule LoadProfiles_registry [OF sampleCodec_loads])

end
