(* ===== verification/AppVolume.thy ===== *)
theory AppVolume
  imports AppObjects
begin

text \<open>
  The workspace volume of an instance: \<^verbatim>\<open>internal/appinstances/storage.go\<close> (inspection and
  claim), \<^verbatim>\<open>volumeClaimed\<close> of \<^verbatim>\<open>ensure.go\<close>, and \<^verbatim>\<open>EnsurePoolClaim\<close> of
  \<^verbatim>\<open>internal/instances/workspaces.go\<close>, which the reservation calls for a missing claim.
\<close>

section \<open>Inspection\<close>

definition kres :: "kerr + 'a \<Rightarrow> err + 'a" where
  "kres r = (case r of Inl e \<Rightarrow> Inl (ErrKube e) | Inr x \<Rightarrow> Inr x)"

definition legacyKeys :: "string list" where
  "legacyKeys = [key ''project-id'', key ''create-operation-id'', key ''retained-at'']"

definition checkPVC :: "lib \<Rightarrow> Identity \<Rightarrow> Profile \<Rightarrow> Volume option \<Rightarrow> pvc \<Rightarrow> err + unit" where
  "checkPVC L i p expected c =
     (let m = pvcMeta c; owner = identityAnnotations L i p in
      reject (\<not> validUID L (UID m) \<or> DeletionTimestamp m \<noteq> None \<or> pvcPhase c \<noteq> ''Bound'' \<or> VolumeName c = [] \<or>
        get (Labels m) stationKey \<noteq> StationID i \<or> get (Labels m) poolKey \<noteq> pPool p \<or>
        (case VolumeMode c of None \<Rightarrow> False | Some v \<Rightarrow> v \<noteq> ''Filesystem'') \<or>
        AccessModes c \<noteq> [''ReadWriteOnce'']) ErrBinding
      (reject (qValue (amount (pvcCapacity c) ''storage'') < pStorageBytes p) ErrCapacity
      (reject (list_ex (\<lambda>(k, v). expected = None \<and> get (Annotations m) k \<noteq> [] \<or>
          expected \<noteq> None \<and> get (Annotations m) k \<noteq> [] \<and> get (Annotations m) k \<noteq> v) owner) ErrBinding
      (reject (list_ex (\<lambda>k. get (Annotations m) k \<noteq> []) legacyKeys) ErrBinding
      (Inr ())))))"

definition stringValue :: "string option \<Rightarrow> string" where
  "stringValue v = (case v of None \<Rightarrow> [] | Some s \<Rightarrow> s)"

definition checkAffinity :: "Profile \<Rightarrow> pv \<Rightarrow> bool" where
  "checkAffinity p v \<longleftrightarrow>
     (case NodeAffinity v of
        Some [term] \<Rightarrow>
          (case (MatchExpressions term, MatchFields term) of
             ([expr], []) \<Rightarrow>
               exprKey expr = LabelHostname \<and> exprOperator expr = ''In'' \<and> exprValues expr = [pNodeName p]
           | _ \<Rightarrow> False)
      | _ \<Rightarrow> False)"

definition checkPV :: "lib \<Rightarrow> Identity \<Rightarrow> Profile \<Rightarrow> string \<Rightarrow> Volume option \<Rightarrow> pvc \<Rightarrow> pv \<Rightarrow> err + unit" where
  "checkPV L i p claim expected c v =
     (let m = pvMeta v; owner = identityAnnotations L i p in
      reject (list_ex (\<lambda>(k, val). get (Annotations m) k \<noteq> [] \<and> (expected = None \<or> get (Annotations m) k \<noteq> val)) owner) ErrBinding
      (reject (list_ex (\<lambda>k. get (Annotations m) k \<noteq> []) legacyKeys) ErrBinding
      (reject (\<not> validUID L (UID m) \<or> DeletionTimestamp m \<noteq> None \<or> pvPhase v \<noteq> ''Bound'' \<or>
        ReclaimPolicy v \<noteq> ''Retain'' \<or> get (Labels m) stationKey \<noteq> StationID i \<or> get (Labels m) poolKey \<noteq> pPool p \<or>
        stringValue (LocalPath v) = [] \<or>
        (case ClaimRef v of None \<Rightarrow> True | Some ref \<Rightarrow>
           refUID ref \<noteq> UID (pvcMeta c) \<or> refName ref \<noteq> claim \<or> refNamespace ref \<noteq> pNamespace p) \<or>
        pvStorageClass v \<noteq> stringValue (StorageClassName c) \<or>
        (case pvVolumeMode v of None \<Rightarrow> False | Some mode \<Rightarrow> mode \<noteq> ''Filesystem'') \<or>
        pvAccessModes v \<noteq> [''ReadWriteOnce'']) ErrBinding
      (reject (qValue (amount (pvCapacity v) ''storage'') < pStorageBytes p) ErrCapacity
      (reject (\<not> checkAffinity p v) ErrBinding
      (Inr ()))))))"

text \<open>The loop over the pods of the namespace and their volumes: the first mount of the
  claim that is not allowed decides.\<close>

definition mountsClaim :: "string \<Rightarrow> string \<times> volumeSource \<Rightarrow> bool" where
  "mountsClaim claim v \<longleftrightarrow> (case snd v of ClaimSource n _ \<Rightarrow> n = claim | _ \<Rightarrow> False)"

fun checkVolumes :: "lib \<Rightarrow> strmap \<Rightarrow> string \<Rightarrow> (string \<Rightarrow> bool) \<Rightarrow> pod \<Rightarrow> (string \<times> volumeSource) list \<Rightarrow> err + unit" where
  "checkVolumes L owner claim allowed d [] = Inr ()"
| "checkVolumes L owner claim allowed d (v # vs) =
     (if \<not> mountsClaim claim v then checkVolumes L owner claim allowed d vs
      else if \<not> validUID L (UID (podMeta d)) \<or> \<not> allowed (UID (podMeta d)) then Inl ErrBusy
      else if \<not> carries (Annotations (podMeta d)) owner then Inl ErrBinding
      else checkVolumes L owner claim allowed d vs)"

fun checkMounts :: "lib \<Rightarrow> strmap \<Rightarrow> string \<Rightarrow> (string \<Rightarrow> bool) \<Rightarrow> pod list \<Rightarrow> err + unit" where
  "checkMounts L owner claim allowed [] = Inr ()"
| "checkMounts L owner claim allowed (d # ds) =
     andThen (checkVolumes L owner claim allowed d (Volumes (podSpecOf d)))
       (\<lambda>_. checkMounts L owner claim allowed ds)"

definition volumeOf :: "lib \<Rightarrow> Identity \<Rightarrow> Profile \<Rightarrow> string \<Rightarrow> pvc \<Rightarrow> pv \<Rightarrow> Volume" where
  "volumeOf L i p claim c v =
     \<lparr>volIdentity = i, ProfileHash = Hash L p, PVCName = claim, PVCUID = UID (pvcMeta c),
      PVName = Name (pvMeta v), PVUID = UID (pvMeta v)\<rparr>"

definition inspectVolume ::
  "lib \<Rightarrow> Identity \<Rightarrow> Profile \<Rightarrow> string \<Rightarrow> Volume option \<Rightarrow> (string \<Rightarrow> bool) \<Rightarrow> ('x, 'y, err + Volume \<times> pvc) tree" where
  "inspectVolume L i p claim expected allowed =
     failIf (\<not> validIdentity L i \<or> \<not> ProfileValid L p) ErrInvalid
     (failIf (\<not> list_ex (\<lambda>v. v = claim) (pClaims p)) ErrInvalid
     (kGetPVC (pNamespace p) claim (\<lambda>got.
       if got = Inl NotFound then Ret (Inl ErrCapacity)
       else tryP (kres got) (\<lambda>c.
         tryP (checkPVC L i p expected c) (\<lambda>_.
         kGetPV (VolumeName c) (\<lambda>got.
           tryP (kres got) (\<lambda>v.
           tryP (checkPV L i p claim expected c v) (\<lambda>_.
           let out = volumeOf L i p claim c v in
           failIf (case expected of None \<Rightarrow> False | Some want \<Rightarrow> want \<noteq> out) ErrBinding
           (kListPods (pNamespace p) (\<lambda>got.
             tryP (kres got) (\<lambda>pods.
             tryP (checkMounts L (identityAnnotations L i p) claim allowed pods) (\<lambda>_.
             Ret (Inr (out, c))))))))))))))"

definition InspectVolume ::
  "lib \<Rightarrow> Identity \<Rightarrow> Profile \<Rightarrow> string \<Rightarrow> Volume option \<Rightarrow> (string \<Rightarrow> bool) \<Rightarrow> ('x, 'y, err + Volume) tree" where
  "InspectVolume L i p claim expected allowed =
     thenP (inspectVolume L i p claim expected allowed) (\<lambda>(b, _). Ret (Inr b))"

section \<open>Claiming\<close>

definition volumeClaimed :: "lib \<Rightarrow> Identity \<Rightarrow> Profile \<Rightarrow> Volume \<Rightarrow> ('x, 'y, err + unit) tree" where
  "volumeClaimed L i p b =
     kGetPVC (pNamespace p) (PVCName b) (\<lambda>got.
       tryP (kres got) (\<lambda>c.
       failIf (UID (pvcMeta c) \<noteq> PVCUID b \<or> DeletionTimestamp (pvcMeta c) \<noteq> None) ErrBinding
       (failIf (\<not> carries (Annotations (pvcMeta c)) (identityAnnotations L i p)) ErrBinding
       (Ret (Inr ())))))"

definition claimed :: "lib \<Rightarrow> Identity \<Rightarrow> Profile \<Rightarrow> pvc \<Rightarrow> pvc" where
  "claimed L i p c =
     c\<lparr>pvcMeta := (pvcMeta c)\<lparr>Annotations := putAll (identityAnnotations L i p) (Annotations (pvcMeta c))\<rparr>\<rparr>"

definition writeClaim :: "lib \<Rightarrow> Identity \<Rightarrow> Profile \<Rightarrow> Volume \<Rightarrow> pvc \<Rightarrow> ('x, 'y, err + unit) tree" where
  "writeClaim L i p b c =
     (let m = pvcMeta c; owner = identityAnnotations L i p in
      failIf (UID m \<noteq> PVCUID b \<or> VolumeName c \<noteq> PVName b \<or> DeletionTimestamp m \<noteq> None \<or> ResourceVersion m = [] \<or>
        get (Labels m) stationKey \<noteq> StationID i \<or> get (Labels m) poolKey \<noteq> pPool p) ErrBinding
      (failIf (list_ex (\<lambda>(k, v). get (Annotations m) k \<noteq> [] \<and> get (Annotations m) k \<noteq> v) owner) ErrBinding
      (if carries (Annotations m) owner then Ret (Inr ())
       else kUpdatePVC (pNamespace p) (claimed L i p c) (\<lambda>got. tryP (kres got) (\<lambda>_. Ret (Inr ()))))))"

definition ClaimVolume :: "lib \<Rightarrow> Identity \<Rightarrow> Profile \<Rightarrow> Volume \<Rightarrow> ('x, 'y, err + unit) tree" where
  "ClaimVolume L i p b =
     failIf (\<not> validVolume L i p b) ErrInvalid
     (thenP (inspectVolume L i p (PVCName b) (Some b) (\<lambda>_. False)) (\<lambda>(_, c). writeClaim L i p b c))"

section \<open>Creating a pool claim\<close>

definition poolCandidate :: "string \<Rightarrow> string \<Rightarrow> string \<Rightarrow> string \<Rightarrow> pv \<Rightarrow> bool" where
  "poolCandidate station ns pool claim v \<longleftrightarrow>
     DeletionTimestamp (pvMeta v) = None \<and> get (Labels (pvMeta v)) stationKey = station \<and>
     get (Labels (pvMeta v)) poolKey = pool \<and>
     (case ClaimRef v of None \<Rightarrow> True
      | Some ref \<Rightarrow> refNamespace ref = ns \<and> refName ref = claim \<and> pvPhase v \<noteq> ''Bound'')"

definition poolClaim :: "string \<Rightarrow> string \<Rightarrow> string \<Rightarrow> string \<Rightarrow> pv \<Rightarrow> pvc" where
  "poolClaim station ns pool claim v =
     (let storage = Some [(''storage'', amount (pvCapacity v) ''storage'')] in
      \<lparr>pvcMeta = meta claim ns [(stationKey, station), (poolKey, pool)] [],
       AccessModes = [''ReadWriteOnce''],
       VolumeMode = Some (case pvVolumeMode v of None \<Rightarrow> ''Filesystem'' | Some mode \<Rightarrow> mode),
       StorageClassName = Some (pvStorageClass v), VolumeName = Name (pvMeta v),
       pvcRequests = storage, pvcPhase = ''Bound'', pvcCapacity = storage\<rparr>)"

text \<open>The search over the two possible names of the volume.\<close>

fun findPoolPV ::
  "string \<Rightarrow> string \<Rightarrow> string \<Rightarrow> string \<Rightarrow> string list \<Rightarrow> (pv option \<Rightarrow> ('x, 'y, err option) tree) \<Rightarrow> ('x, 'y, err option) tree" where
  "findPoolPV station ns pool claim [] k = k None"
| "findPoolPV station ns pool claim (n # names) k =
     kGetPV n (\<lambda>got. case got of
         Inl e \<Rightarrow> if e = NotFound then findPoolPV station ns pool claim names k else Ret (Some (ErrKube e))
       | Inr v \<Rightarrow> if poolCandidate station ns pool claim v then k (Some v)
                 else findPoolPV station ns pool claim names k)"

text \<open>The wait for both objects to be bound, at most thirty rounds.\<close>

fun awaitBound :: "nat \<Rightarrow> string \<Rightarrow> string \<Rightarrow> string \<Rightarrow> ('x, 'y, err option) tree" where
  "awaitBound 0 ns claim pvName = Ret None"
| "awaitBound (Suc n) ns claim pvName =
     kGetPVC ns claim (\<lambda>got1. kGetPV pvName (\<lambda>got2.
       if (case (got1, got2) of (Inr c, Inr v) \<Rightarrow> pvcPhase c = ''Bound'' \<and> pvPhase v = ''Bound'' | _ \<Rightarrow> False)
       then Ret None
       else kSleep 100 (\<lambda>done. case done of
           Some _ \<Rightarrow> Ret (Some (ErrIO ''context''))
         | None \<Rightarrow> awaitBound n ns claim pvName)))"

definition bindPV :: "pvc \<Rightarrow> pv \<Rightarrow> pv" where
  "bindPV created v =
     v\<lparr>ClaimRef := Some \<lparr>refNamespace = Namespace (pvcMeta created), refName = Name (pvcMeta created),
        refUID = UID (pvcMeta created)\<rparr>, pvPhase := ''Bound''\<rparr>"

text \<open>The part behind the creation: an API server that assigns no UID gets one, the volume is
  bound to the claim.\<close>

definition bindPool :: "string \<Rightarrow> string \<Rightarrow> pv \<Rightarrow> pvc \<Rightarrow> ('x, 'y, err option) tree" where
  "bindPool ns claim v created =
     kUpdatePV (bindPV created v) (\<lambda>got.
       let next = awaitBound 30 ns claim (Name (pvMeta v)) in
       case got of
         Inr updated \<Rightarrow>
           if pvPhase updated \<noteq> ''Bound'' then kUpdatePVStatus (updated\<lparr>pvPhase := ''Bound''\<rparr>) (\<lambda>_. next) else next
       | Inl _ \<Rightarrow> next)"

definition EnsurePoolClaim :: "string \<Rightarrow> string \<Rightarrow> string \<Rightarrow> string \<Rightarrow> ('x, 'y, err option) tree" where
  "EnsurePoolClaim station ns pool claim =
     (if station = [] \<or> ns = [] \<or> pool = [] \<or> claim = [] then Ret None
      else kGetPVC ns claim (\<lambda>got. case got of
          Inr _ \<Rightarrow> Ret None
        | Inl e \<Rightarrow>
            if e \<noteq> NotFound then Ret (Some (ErrKube e))
            else findPoolPV station ns pool claim [''pv-'' @ claim, claim] (\<lambda>found. case found of
                None \<Rightarrow> Ret None
              | Some v \<Rightarrow>
                  kCreatePVC ns (poolClaim station ns pool claim v) (\<lambda>got. case got of
                      Inl e \<Rightarrow> Ret (Some (ErrKube e))
                    | Inr created \<Rightarrow>
                        if UID (pvcMeta created) \<noteq> [] then bindPool ns claim v created
                        else kFreshUUID (\<lambda>u.
                          let m = pvcMeta created;
                              storage = Some [(''storage'', amount (pvCapacity v) ''storage'')];
                              created' = created\<lparr>pvcMeta := m\<lparr>UID := u,
                                  ResourceVersion := (if ResourceVersion m = [] then ''1'' else ResourceVersion m)\<rparr>,
                                pvcPhase := ''Bound'', pvcCapacity := storage\<rparr>
                          in kUpdatePVC ns created' (\<lambda>got.
                               bindPool ns claim v (case got of Inr updated \<Rightarrow> updated | Inl _ \<Rightarrow> created')))))))"

section \<open>What an inspection establishes\<close>

lemma kres_iff [simp]: "kres r = Inr x \<longleftrightarrow> r = Inr x" "kres (Inr x) = Inr x" "kres (Inl e) = Inl (ErrKube e)"
  by (auto simp: kres_def split: sum.splits)

lemma checkVolumes_ok:
  "checkVolumes L owner claim allowed d vs = Inr () \<longleftrightarrow>
     (\<forall>v \<in> set vs. mountsClaim claim v \<longrightarrow>
       validUID L (UID (podMeta d)) \<and> allowed (UID (podMeta d)) \<and> carries (Annotations (podMeta d)) owner)"
  by (induction vs) auto

lemma checkMounts_ok:
  "checkMounts L owner claim allowed ds = Inr () \<longleftrightarrow>
     (\<forall>d \<in> set ds. \<forall>v \<in> set (Volumes (podSpecOf d)). mountsClaim claim v \<longrightarrow>
       validUID L (UID (podMeta d)) \<and> allowed (UID (podMeta d)) \<and> carries (Annotations (podMeta d)) owner)"
  by (induction ds) (auto simp: checkVolumes_ok)

text \<open>The claim and the volume are bound to each other, live, large enough, on the profile's
  node, retained on release, in this station's pool, and carry no foreign owner.\<close>

definition noForeignOwner :: "strmap \<Rightarrow> strmap \<Rightarrow> bool" where
  "noForeignOwner owner as \<longleftrightarrow> (\<forall>(k, v) \<in> set owner. get as k = [] \<or> get as k = v) \<and> (\<forall>k \<in> set legacyKeys. get as k = [])"

definition boundPair :: "lib \<Rightarrow> Identity \<Rightarrow> Profile \<Rightarrow> string \<Rightarrow> pvc \<Rightarrow> pv \<Rightarrow> bool" where
  "boundPair L i p claim c v \<longleftrightarrow>
     validUID L (UID (pvcMeta c)) \<and> validUID L (UID (pvMeta v)) \<and>
     DeletionTimestamp (pvcMeta c) = None \<and> DeletionTimestamp (pvMeta v) = None \<and>
     pvcPhase c = ''Bound'' \<and> pvPhase v = ''Bound'' \<and> ReclaimPolicy v = ''Retain'' \<and>
     ClaimRef v = Some \<lparr>refNamespace = pNamespace p, refName = claim, refUID = UID (pvcMeta c)\<rparr> \<and>
     pStorageBytes p \<le> qValue (amount (pvcCapacity c) ''storage'') \<and>
     pStorageBytes p \<le> qValue (amount (pvCapacity v) ''storage'') \<and>
     checkAffinity p v \<and>
     get (Labels (pvcMeta c)) stationKey = StationID i \<and> get (Labels (pvcMeta c)) poolKey = pPool p \<and>
     get (Labels (pvMeta v)) stationKey = StationID i \<and> get (Labels (pvMeta v)) poolKey = pPool p \<and>
     noForeignOwner (identityAnnotations L i p) (Annotations (pvcMeta c)) \<and>
     noForeignOwner (identityAnnotations L i p) (Annotations (pvMeta v))"

lemma checks_boundPair:
  assumes "checkPVC L i p expected c = Inr ()" and "checkPV L i p claim expected c v = Inr ()"
  shows "boundPair L i p claim c v"
proof -
  from assms(1) have "noForeignOwner (identityAnnotations L i p) (Annotations (pvcMeta c))"
    by (cases expected) (auto simp: checkPVC_def Let_def noForeignOwner_def list_ex_iff)
  moreover from assms(2) have "noForeignOwner (identityAnnotations L i p) (Annotations (pvMeta v))"
    by (cases expected) (auto simp: checkPV_def Let_def noForeignOwner_def list_ex_iff)
  ultimately show ?thesis
    using assms by (auto simp: boundPair_def checkPVC_def checkPV_def Let_def split: option.splits)
qed

text \<open>Every successful inspection is a read of the claim, the volume it names and the pods of
  the namespace, in this order, that passed all the checks.\<close>

lemma inspectVolume_runs:
  "runs (inspectVolume L i p claim expected allowed) h (Inr (out, c)) \<longleftrightarrow>
     validIdentity L i \<and> ProfileValid L p \<and> claim \<in> set (pClaims p) \<and>
     (\<exists>v pods. h = [(K (GetPVC (pNamespace p) claim), KR (RPVC (Inr c))),
                    (K (GetPV (VolumeName c)), KR (RPV (Inr v))),
                    (K (ListPods (pNamespace p)), KR (RPods (Inr pods)))] \<and>
       checkPVC L i p expected c = Inr () \<and> checkPV L i p claim expected c v = Inr () \<and>
       out = volumeOf L i p claim c v \<and> (expected = None \<or> expected = Some out) \<and>
       checkMounts L (identityAnnotations L i p) claim allowed pods = Inr ())"
  by (cases expected) (auto simp: inspectVolume_def Let_def list_ex_iff runs_If)

lemma inspectVolume_reads: "onlyCalls readsKube (inspectVolume L i p claim expected allowed)"
  by (auto simp: inspectVolume_def Let_def)

lemma InspectVolume_reads: "onlyCalls readsKube (InspectVolume L i p claim expected allowed)"
  by (auto simp: InspectVolume_def split: prod.splits intro!: onlyCalls_thenP inspectVolume_reads)

lemma volumeClaimed_reads: "onlyCalls readsKube (volumeClaimed L i p b)"
  by (simp add: volumeClaimed_def)

lemma inspectVolume_returns:
  "returns (\<lambda>r. \<forall>out c. r = Inr (out, c) \<longrightarrow> PVCName out = claim \<and> volIdentity out = i \<and> ProfileHash out = Hash L p \<and>
      validUID L (PVCUID out) \<and> validUID L (PVUID out) \<and> PVCUID out = UID (pvcMeta c) \<and>
      (\<forall>want. expected = Some want \<longrightarrow> out = want))
    (inspectVolume L i p claim expected allowed)"
proof -
  have "validUID L (UID (pvcMeta c)) \<and> validUID L (UID (pvMeta v))"
    if "checkPVC L i p expected c = Inr ()" "checkPV L i p claim expected c v = Inr ()" for c v
    using checks_boundPair [OF that] by (simp add: boundPair_def)
  then show ?thesis
    unfolding returns_iff by (metis (no_types, lifting) Volume.select_convs inspectVolume_runs option.discI option.inject volumeOf_def)
qed

lemma InspectVolume_runs:
  "runs (InspectVolume L i p claim expected allowed) h (Inr out) \<longleftrightarrow>
     (\<exists>c. runs (inspectVolume L i p claim expected allowed) h (Inr (out, c)))"
  by (auto simp: InspectVolume_def runs_thenP)

lemma InspectVolume_returns:
  "returns (\<lambda>r. \<forall>out. r = Inr out \<longrightarrow> PVCName out = claim \<and> volIdentity out = i \<and> ProfileHash out = Hash L p \<and>
      validUID L (PVCUID out) \<and> validUID L (PVUID out) \<and> (\<forall>want. expected = Some want \<longrightarrow> out = want))
    (InspectVolume L i p claim expected allowed)"
  using inspectVolume_returns [of claim i L p expected allowed] unfolding returns_iff InspectVolume_runs
  by (metis InspectVolume_runs)

section \<open>Properties\<close>

text \<open>C13: an inspection that succeeds has only read the cluster: a claim and its volume bound
  to each other, live, retained on release, of at least the profile's size, on its node and
  in the station's pool, without a foreign owner, and every pod that mounts the claim is an
  allowed one that carries the owner's annotations. The result names exactly these two
  objects.\<close>

theorem InspectVolume_sound:
  assumes "runs (inspectVolume L i p claim expected allowed) h (Inr (out, c))"
  shows "(\<forall>(q, r) \<in> set h. readsKube q) \<and>
    (\<exists>v pods. (K (GetPV (VolumeName c)), KR (RPV (Inr v))) \<in> set h \<and>
      (K (ListPods (pNamespace p)), KR (RPods (Inr pods))) \<in> set h \<and>
      boundPair L i p claim c v \<and> out = volumeOf L i p claim c v \<and>
      (\<forall>d \<in> set pods. \<forall>m \<in> set (Volumes (podSpecOf d)). mountsClaim claim m \<longrightarrow>
        allowed (UID (podMeta d)) \<and> carries (Annotations (podMeta d)) (identityAnnotations L i p)))"
  using assms checks_boundPair [of L i p expected c claim]
  by (auto simp: inspectVolume_runs checkMounts_ok)

text \<open>The update that claims a volume adds the owner's annotations to the inspected snapshot
  and changes nothing else of it.\<close>

lemma ClaimVolume_update:
  assumes "runs (ClaimVolume L i p b) h r" and "(q, a) \<in> set h" and "\<not> readsKube q"
  shows "\<exists>c v pods. q = K (UpdatePVC (pNamespace p) (claimed L i p c)) \<and>
    (K (GetPVC (pNamespace p) (PVCName b)), KR (RPVC (Inr c))) \<in> set h \<and>
    (K (ListPods (pNamespace p)), KR (RPods (Inr pods))) \<in> set h \<and>
    ResourceVersion (pvcMeta c) \<noteq> [] \<and> UID (pvcMeta c) = PVCUID b \<and> boundPair L i p (PVCName b) c v \<and>
    (\<forall>d \<in> set pods. \<forall>m \<in> set (Volumes (podSpecOf d)). \<not> mountsClaim (PVCName b) m)"
proof -
  from assms(1,2) have "validVolume L i p b" by (auto simp: ClaimVolume_def)
  with assms(1) obtain h1 h2 res where h: "h = h1 @ h2"
    and ins: "runs (inspectVolume L i p (PVCName b) (Some b) (\<lambda>_. False)) h1 res"
    and rest: "runs (tryP res (\<lambda>(_, c). writeClaim L i p b c)) h2 r"
    by (auto simp: ClaimVolume_def runs_thenP)
  from onlyCalls_runs [OF inspectVolume_reads ins] assms(2,3) h have "(q, a) \<in> set h2" by auto
  with rest obtain out c where res: "res = Inr (out, c)" and q: "q = K (UpdatePVC (pNamespace p) (claimed L i p c))"
    and c: "ResourceVersion (pvcMeta c) \<noteq> []" "UID (pvcMeta c) = PVCUID b"
    by (auto simp: writeClaim_def Let_def runs_If)
  from ins obtain v pods where seen: "h1 = [(K (GetPVC (pNamespace p) (PVCName b)), KR (RPVC (Inr c))),
      (K (GetPV (VolumeName c)), KR (RPV (Inr v))), (K (ListPods (pNamespace p)), KR (RPods (Inr pods)))]"
    and pair: "boundPair L i p (PVCName b) c v"
    and mounts: "checkMounts L (identityAnnotations L i p) (PVCName b) (\<lambda>_. False) pods = Inr ()"
    unfolding res inspectVolume_runs using checks_boundPair by blast
  show ?thesis
    by (rule exI [of _ c], rule exI [of _ v], rule exI [of _ pods])
      (use seen pair mounts q c h in \<open>simp add: checkMounts_ok\<close>)
qed


section \<open>A concrete volume\<close>

definition sampleMeta :: "string \<Rightarrow> string \<Rightarrow> string \<Rightarrow> objectMeta" where
  "sampleMeta n ns uid =
     (meta n ns [(stationKey, StationID sampleIdentity), (poolKey, pPool sampleProfile)] [])\<lparr>UID := uid, ResourceVersion := ''1''\<rparr>"

definition samplePVC :: pvc where
  "samplePVC =
     \<lparr>pvcMeta = sampleMeta ''claim-a'' ''apps'' (sampleID CHR ''6''), AccessModes = [''ReadWriteOnce''], VolumeMode = None,
      StorageClassName = Some ''local'', VolumeName = ''pv-a'', pvcRequests = None, pvcPhase = ''Bound'',
      pvcCapacity = Some [(''storage'', quantityOf 1)]\<rparr>"

definition samplePV :: pv where
  "samplePV =
     \<lparr>pvMeta = sampleMeta ''pv-a'' [] (sampleID CHR ''7''), ReclaimPolicy = ''Retain'', LocalPath = Some ''/data'',
      ClaimRef = Some \<lparr>refNamespace = ''apps'', refName = ''claim-a'', refUID = sampleID CHR ''6''\<rparr>,
      pvStorageClass = ''local'', pvVolumeMode = None, pvAccessModes = [''ReadWriteOnce''],
      pvCapacity = Some [(''storage'', quantityOf 1)],
      NodeAffinity = Some [\<lparr>MatchExpressions = [\<lparr>exprKey = LabelHostname, exprOperator = ''In'', exprValues = [''node-a'']\<rparr>],
        MatchFields = []\<rparr>], pvPhase = ''Bound''\<rparr>"

definition sampleReads :: "('x req \<times> 'y resp) list" where
  "sampleReads = [(K (GetPVC ''apps'' ''claim-a''), KR (RPVC (Inr samplePVC))),
     (K (GetPV ''pv-a''), KR (RPV (Inr samplePV))), (K (ListPods ''apps''), KR (RPods (Inr [])))]"

lemma sample_inspect:
  "runs (inspectVolume sampleLib sampleIdentity sampleProfile ''claim-a'' (Some sampleVolume) (\<lambda>_. False))
     sampleReads (Inr (sampleVolume, samplePVC))"
proof -
  have "checkPVC sampleLib sampleIdentity sampleProfile (Some sampleVolume) samplePVC = Inr ()" by code_simp
  moreover have "checkPV sampleLib sampleIdentity sampleProfile ''claim-a'' (Some sampleVolume) samplePVC samplePV = Inr ()"
    by code_simp
  moreover have "volumeOf sampleLib sampleIdentity sampleProfile ''claim-a'' samplePVC samplePV = sampleVolume" by code_simp
  moreover have "validIdentity sampleLib sampleIdentity" by code_simp
  ultimately show ?thesis
    unfolding inspectVolume_runs sampleReads_def
    by (simp add: sampleProfile_valid) (simp add: sampleProfile_def samplePVC_def)
qed

theorem InspectVolume_sound_witness:
  "list_all (\<lambda>(q, r). readsKube q) (sampleReads :: (unit req \<times> unit resp) list) \<and>
    (\<exists>v pods. (K (GetPV (VolumeName samplePVC)), KR (RPV (Inr v))) \<in> set (sampleReads :: (unit req \<times> unit resp) list) \<and>
      (K (ListPods (pNamespace sampleProfile)), KR (RPods (Inr pods))) \<in> set (sampleReads :: (unit req \<times> unit resp) list) \<and>
      boundPair sampleLib sampleIdentity sampleProfile ''claim-a'' samplePVC v \<and>
      sampleVolume = volumeOf sampleLib sampleIdentity sampleProfile ''claim-a'' samplePVC v \<and>
      (\<forall>d \<in> set pods. \<forall>m \<in> set (Volumes (podSpecOf d)). mountsClaim ''claim-a'' m \<longrightarrow>
        False \<and> carries (Annotations (podMeta d)) (identityAnnotations sampleLib sampleIdentity sampleProfile)))"
  unfolding list_all_iff by (rule InspectVolume_sound [OF sample_inspect])

definition sampleUpdate :: "'x req" where
  "sampleUpdate = K (UpdatePVC ''apps'' (claimed sampleLib sampleIdentity sampleProfile samplePVC))"

lemma sample_claim:
  "runs (ClaimVolume sampleLib sampleIdentity sampleProfile sampleVolume)
     (sampleReads @ [(sampleUpdate, KR (RPVC (Inr samplePVC)))]) (Inr ())"
proof -
  have checks: "\<not> carries (Annotations (pvcMeta samplePVC)) (identityAnnotations sampleLib sampleIdentity sampleProfile)"
    "\<not> list_ex (\<lambda>(k, v). get (Annotations (pvcMeta samplePVC)) k \<noteq> [] \<and> get (Annotations (pvcMeta samplePVC)) k \<noteq> v)
      (identityAnnotations sampleLib sampleIdentity sampleProfile)"
    "get (Labels (pvcMeta samplePVC)) stationKey = StationID sampleIdentity"
    "get (Labels (pvcMeta samplePVC)) poolKey = pPool sampleProfile"
    by code_simp+
  have "runs (writeClaim sampleLib sampleIdentity sampleProfile sampleVolume samplePVC)
      [(sampleUpdate, KR (RPVC (Inr samplePVC)))] (Inr ())"
    using checks by (simp add: writeClaim_def Let_def runs_If)
      (simp add: sampleUpdate_def samplePVC_def sampleVolume_def sampleMeta_def meta_def sampleProfile_def)
  with sample_inspect show ?thesis
    by (auto simp: ClaimVolume_def runs_thenP sampleVolume_valid) (fastforce simp: sampleVolume_def)
qed


end
