(* ===== verification/AppWorker.thy ===== *)
theory AppWorker
  imports AppVolume
begin

text \<open>
  The worker of a run: observation and ownership (\<^verbatim>\<open>observe.go\<close>), creation with
  checkpoints (\<^verbatim>\<open>ensure.go\<close>), the HTTP proofs of readiness and of the stop barrier
  (\<^verbatim>\<open>worker_probe.go\<close>, \<^verbatim>\<open>worker_stop.go\<close>) and the removal with committed intents
  (\<^verbatim>\<open>remove.go\<close>), all under \<^verbatim>\<open>internal/appinstances\<close>.

  A checkpoint is a callback that runs in the caller's state: \<open>checkpoint c x\<close> records
  \<open>x\<close> durably, starting from the caller's state \<open>c\<close>, and returns an error (if any) with
  the caller's state afterwards.
\<close>

section \<open>Observations\<close>

record Observation =
  PodUID :: string
  ServiceUID :: string
  SecretUID :: string
  PodReady :: bool
  BootID :: string
  Endpoint :: string

definition noObservation :: Observation where
  "noObservation = \<lparr>PodUID = [], ServiceUID = [], SecretUID = [], PodReady = False, BootID = [], Endpoint = []\<rparr>"

definition validBoot :: "lib \<Rightarrow> string \<Rightarrow> bool" where
  "validBoot L v \<longleftrightarrow>
     (case parseUUID L v of None \<Rightarrow> False | Some u \<Rightarrow> uuidVersion u = 4 \<and> uuidString u = v)"

definition validObservation :: "lib \<Rightarrow> Observation \<Rightarrow> bool" where
  "validObservation L ob \<longleftrightarrow>
     (if BootID ob \<noteq> [] \<and> (\<not> validBoot L (BootID ob) \<or> PodUID ob = []) then False
      else if list_ex (\<lambda>uid. uid \<noteq> [] \<and> \<not> validUID L uid) [PodUID ob, ServiceUID ob, SecretUID ob] then False
      else (PodUID ob = [] \<or> SecretUID ob \<noteq> [] \<and> ServiceUID ob \<noteq> []) \<and>
        (ServiceUID ob = [] \<or> SecretUID ob \<noteq> []) \<and> (\<not> PodReady ob \<or> PodUID ob \<noteq> []))"

section \<open>Ownership and matching\<close>

definition owned :: "lib \<Rightarrow> objectMeta \<Rightarrow> objectMeta \<Rightarrow> string \<Rightarrow> bool" where
  "owned L actual desired uid \<longleftrightarrow>
     (if \<not> validUID L (UID actual) \<or> DeletionTimestamp actual \<noteq> None \<or> Name actual \<noteq> Name desired \<or>
         Namespace actual \<noteq> Namespace desired \<or> length (OwnerReferences actual) \<noteq> 0 \<or>
         length (Finalizers actual) \<noteq> 0 \<or> uid \<noteq> [] \<and> UID actual \<noteq> uid
      then False
      else carries (Annotations actual) (Annotations desired) \<and> carries (Labels actual) (Labels desired))"

definition orDefault :: "string \<Rightarrow> string \<Rightarrow> string" where
  "orDefault d s = (if s = [] then d else s)"

definition stdToleration :: "toleration \<Rightarrow> bool" where
  "stdToleration t \<longleftrightarrow> \<not> ((tolKey t \<noteq> ''node.kubernetes.io/not-ready'' \<and> tolKey t \<noteq> ''node.kubernetes.io/unreachable'') \<or>
     tolOperator t \<noteq> ''Exists'' \<or> tolEffect t \<noteq> ''NoExecute'' \<or> tolValue t \<noteq> [] \<or> TolerationSeconds t \<noteq> Some 300)"

definition normalizeProbe :: "probe option \<Rightarrow> probe option" where
  "normalizeProbe q =
     map_option (\<lambda>pr. if SuccessThreshold pr = 0 then pr\<lparr>SuccessThreshold := 1\<rparr> else pr) q"

definition normalizeContainer :: "container \<Rightarrow> container" where
  "normalizeContainer c =
     c\<lparr>TerminationMessagePath := orDefault ''/dev/termination-log'' (TerminationMessagePath c),
       TerminationMessagePolicy := orDefault ''File'' (TerminationMessagePolicy c),
       StartupProbe := normalizeProbe (StartupProbe c), ReadinessProbe := normalizeProbe (ReadinessProbe c),
       LivenessProbe := normalizeProbe (LivenessProbe c)\<rparr>"

definition normalizePod :: "pod \<Rightarrow> string \<Rightarrow> podSpec option" where
  "normalizePod d node =
     (let s = podSpecOf d in
      if NodeName s \<noteq> [] \<and> NodeName s \<noteq> node then None
      else if \<not> list_all stdToleration (Tolerations s) then None
      else Some (s\<lparr>NodeName := [], DNSPolicy := orDefault ''ClusterFirst'' (DNSPolicy s),
        ServiceAccountName := orDefault ''default'' (ServiceAccountName s),
        DeprecatedServiceAccount := orDefault ''default'' (DeprecatedServiceAccount s),
        Tolerations := [], Containers := map normalizeContainer (Containers s)\<rparr>))"

definition podMatches :: "lib \<Rightarrow> pod \<Rightarrow> pod \<Rightarrow> string \<Rightarrow> string \<Rightarrow> bool" where
  "podMatches L actual desired uid node \<longleftrightarrow>
     (if \<not> owned L (podMeta actual) (podMeta desired) uid then False
      else (case (normalizePod actual node, normalizePod desired node) of
          (Some a, Some d) \<Rightarrow> semPodSpec L a d \<or> semPodSpec L a (Apply (policyEnv L) d)
        | _ \<Rightarrow> False))"

definition normalizeService :: "serviceSpec \<Rightarrow> serviceSpec" where
  "normalizeService s =
     s\<lparr>ClusterIP := [], ClusterIPs := [], IPFamilies := [], IPFamilyPolicy := None,
       SessionAffinity := (if SessionAffinity s = ''None'' then [] else SessionAffinity s),
       InternalTrafficPolicy := (if InternalTrafficPolicy s = Some ''Cluster'' then None else InternalTrafficPolicy s)\<rparr>"

definition serviceMatches :: "lib \<Rightarrow> service \<Rightarrow> service \<Rightarrow> string \<Rightarrow> bool" where
  "serviceMatches L actual desired uid \<longleftrightarrow>
     (if \<not> owned L (svcMeta actual) (svcMeta desired) uid \<or> ClusterIP (svcSpec actual) = ''None'' \<or>
         length (ExternalIPs (svcSpec actual)) \<noteq> 0
      then False
      else semServiceSpec L (normalizeService (svcSpec actual)) (svcSpec desired))"

definition credentialValid :: "string \<Rightarrow> bool" where
  "credentialValid value \<longleftrightarrow> 32 \<le> length value \<and> length value \<le> 512 \<and>
     list_all (\<lambda>b. 32 < (of_char b :: nat) \<and> (of_char b :: nat) \<le> 126) value"

definition secretMatches :: "lib \<Rightarrow> secret \<Rightarrow> Identity \<Rightarrow> Profile \<Rightarrow> string \<Rightarrow> bool" where
  "secretMatches L actual i p uid \<longleftrightarrow>
     owned L (secMeta actual) (meta (instanceName i) (pNamespace p) [] (identityAnnotations L i p)) uid \<and>
     secType actual = ''Opaque'' \<and> Immutable actual = Some True \<and> length (Data actual) = 1 \<and>
     credentialValid (get (Data actual) ''worker-token'')"

section \<open>Observing a worker\<close>

definition workerOrigin :: "Run \<Rightarrow> Profile \<Rightarrow> string" where
  "workerOrigin r p = ''http://'' @ runName r @ ''.'' @ pNamespace p @ ''.svc.cluster.local:'' @ showInt (pPort p)"

definition readyOn :: "string \<Rightarrow> pod \<Rightarrow> bool" where
  "readyOn node d \<longleftrightarrow> podPhase d = ''Running'' \<and> NodeName (podSpecOf d) = node \<and>
     list_ex (\<lambda>c. condType c = ''Ready'' \<and> condStatus c = ''True'') (podConditions d)"

definition ObserveWorker ::
  "lib \<Rightarrow> Run \<Rightarrow> Profile \<Rightarrow> Volume \<Rightarrow> Observation \<Rightarrow> ('x, 'y, err + Observation) tree" where
  "ObserveWorker L r p b expected =
     failIf (\<not> validObservation L expected) ErrInvalid
     (tryP (WorkerObjects L r p b) (\<lambda>(desired, svc).
       kGetPod (pNamespace p) (Name (podMeta desired)) (\<lambda>got. tryP (kres got) (\<lambda>d.
       failIf (\<not> podMatches L d desired (PodUID expected) (pNodeName p)) ErrBinding
       (kGetService (pNamespace p) (Name (svcMeta svc)) (\<lambda>got. tryP (kres got) (\<lambda>current.
       failIf (\<not> serviceMatches L current svc (ServiceUID expected)) ErrBinding
       (kGetSecret (pNamespace p) (instanceName (runIdentity r)) (\<lambda>got. tryP (kres got) (\<lambda>sec.
       failIf (\<not> secretMatches L sec (runIdentity r) p (SecretUID expected)) ErrBinding
       (thenP (InspectVolume L (runIdentity r) p (PVCName b) (Some b) (\<lambda>u. u = UID (podMeta d))) (\<lambda>_.
       thenP (volumeClaimed L (runIdentity r) p b) (\<lambda>_.
       Ret (Inr \<lparr>PodUID = UID (podMeta d), ServiceUID = UID (svcMeta current), SecretUID = UID (secMeta sec),
         PodReady = readyOn (pNodeName p) d, BootID = [],
         Endpoint = ''http://'' @ Name (svcMeta svc) @ ''.'' @ pNamespace p @ ''.svc.cluster.local:'' @ showInt (pPort p)\<rparr>))))))))))))))"

section \<open>Creating a worker\<close>

text \<open>What is made of a lookup: absent (allowed or not), present and matching, or neither.\<close>

definition existing :: "kerr + 'o \<Rightarrow> bool \<Rightarrow> ('o \<Rightarrow> bool) \<Rightarrow> err + 'o option" where
  "existing got mayMiss matches =
     (case got of
        Inl e \<Rightarrow> if e = NotFound then (if mayMiss then Inr None else Inl ErrBinding) else Inl (ErrKube e)
      | Inr x \<Rightarrow> if matches x then Inr (Some x) else Inl ErrBinding)"

text \<open>The first half of \<open>EnsureWorker\<close> reads and validates every existing object.\<close>

definition ensureRead ::
  "lib \<Rightarrow> Run \<Rightarrow> Profile \<Rightarrow> Volume \<Rightarrow> Observation \<Rightarrow> pod \<Rightarrow> service
     \<Rightarrow> ('x, 'y, err + pod option \<times> service option \<times> secret option) tree" where
  "ensureRead L r p b expected desired svc =
     kGetPod (pNamespace p) (Name (podMeta desired)) (\<lambda>got.
     tryP (existing got (PodUID expected = []) (\<lambda>d. podMatches L d desired (PodUID expected) (pNodeName p))) (\<lambda>currentPod.
     kGetService (pNamespace p) (Name (svcMeta svc)) (\<lambda>got.
     tryP (existing got (ServiceUID expected = [] \<and> currentPod = None)
       (\<lambda>s. serviceMatches L s svc (ServiceUID expected))) (\<lambda>currentService.
     kGetSecret (pNamespace p) (instanceName (runIdentity r)) (\<lambda>got.
     tryP (existing got (SecretUID expected = [] \<and> currentPod = None \<and> currentService = None)
       (\<lambda>s. secretMatches L s (runIdentity r) p (SecretUID expected))) (\<lambda>sec.
     thenP (InspectVolume L (runIdentity r) p (PVCName b) (Some b)
       (\<lambda>u. case currentPod of None \<Rightarrow> False | Some d \<Rightarrow> u = UID (podMeta d))) (\<lambda>_.
     thenP (volumeClaimed L (runIdentity r) p b) (\<lambda>_.
     Ret (Inr (currentPod, currentService, sec))))))))))"

type_synonym ('x, 'y, 'p, 'c) checkpoint = "'c \<Rightarrow> 'p \<Rightarrow> ('x, 'y, err option \<times> 'c) tree"

text \<open>\<open>committing\<close>: run the checkpoint and go on only when it succeeded.\<close>

definition committing ::
  "('x, 'y, 'p, 'c) checkpoint \<Rightarrow> 'c \<Rightarrow> 'p \<Rightarrow> ('c \<Rightarrow> ('x, 'y, ('p \<times> err option) \<times> 'c) tree)
     \<Rightarrow> ('x, 'y, ('p \<times> err option) \<times> 'c) tree" where
  "committing checkpoint c progress k =
     bindP (checkpoint c progress) (\<lambda>(e, c'). case e of Some x \<Rightarrow> Ret ((progress, Some x), c') | None \<Rightarrow> k c')"

definition newSecret :: "lib \<Rightarrow> Run \<Rightarrow> Profile \<Rightarrow> string \<Rightarrow> secret" where
  "newSecret L r p random =
     \<lparr>secMeta = meta (instanceName (runIdentity r)) (pNamespace p) [] (identityAnnotations L (runIdentity r) p),
      secType = ''Opaque'', Immutable = Some True,
      Data = [(''worker-token'', rawURLEncode (map of_char random))]\<rparr>"

definition ensureSecret ::
  "lib \<Rightarrow> Run \<Rightarrow> Profile \<Rightarrow> ('x, 'y, Observation, 'c) checkpoint \<Rightarrow> secret option \<Rightarrow> Observation \<Rightarrow> 'c
     \<Rightarrow> (Observation \<Rightarrow> 'c \<Rightarrow> ('x, 'y, (Observation \<times> err option) \<times> 'c) tree)
     \<Rightarrow> ('x, 'y, (Observation \<times> err option) \<times> 'c) tree" where
  "ensureSecret L r p checkpoint sec progress c k =
     (case sec of
        Some _ \<Rightarrow> k progress c
      | None \<Rightarrow>
          kRandomBytes 32 (\<lambda>rnd. case rnd of
              Inl e \<Rightarrow> Ret ((noObservation, Some (ErrKube e)), c)
            | Inr random \<Rightarrow>
                kCreateSecret (pNamespace p) (newSecret L r p random) (\<lambda>got. case got of
                    Inl e \<Rightarrow> Ret ((noObservation, Some (ErrKube e)), c)
                  | Inr created \<Rightarrow>
                      if \<not> secretMatches L created (runIdentity r) p [] then Ret ((noObservation, Some ErrBinding), c)
                      else (let progress' = progress\<lparr>SecretUID := UID (secMeta created)\<rparr>
                            in committing checkpoint c progress' (k progress')))))"

definition ensureService ::
  "lib \<Rightarrow> Profile \<Rightarrow> service \<Rightarrow> ('x, 'y, Observation, 'c) checkpoint \<Rightarrow> service option \<Rightarrow> Observation \<Rightarrow> 'c
     \<Rightarrow> (Observation \<Rightarrow> 'c \<Rightarrow> ('x, 'y, (Observation \<times> err option) \<times> 'c) tree)
     \<Rightarrow> ('x, 'y, (Observation \<times> err option) \<times> 'c) tree" where
  "ensureService L p svc checkpoint current progress c k =
     (case current of
        Some _ \<Rightarrow> k progress c
      | None \<Rightarrow>
          kCreateService (pNamespace p) svc (\<lambda>got. case got of
              Inl e \<Rightarrow> Ret ((noObservation, Some (ErrKube e)), c)
            | Inr created \<Rightarrow>
                if \<not> serviceMatches L created svc [] then Ret ((noObservation, Some ErrBinding), c)
                else (let progress' = progress\<lparr>ServiceUID := UID (svcMeta created)\<rparr>
                      in committing checkpoint c progress' (k progress'))))"

definition ensurePod ::
  "lib \<Rightarrow> Profile \<Rightarrow> pod \<Rightarrow> ('x, 'y, Observation, 'c) checkpoint \<Rightarrow> pod option \<Rightarrow> Observation \<Rightarrow> 'c
     \<Rightarrow> (Observation \<Rightarrow> 'c \<Rightarrow> ('x, 'y, (Observation \<times> err option) \<times> 'c) tree)
     \<Rightarrow> ('x, 'y, (Observation \<times> err option) \<times> 'c) tree" where
  "ensurePod L p desired checkpoint current progress c k =
     (case current of
        Some _ \<Rightarrow> k progress c
      | None \<Rightarrow>
          (let policed = desired\<lparr>podSpecOf := Apply (policyEnv L) (podSpecOf desired)\<rparr> in
           kCreatePod (pNamespace p) policed (\<lambda>got. case got of
              Inl e \<Rightarrow> Ret ((noObservation, Some (ErrKube e)), c)
            | Inr created \<Rightarrow>
                if \<not> podMatches L created policed [] (pNodeName p) then Ret ((noObservation, Some ErrBinding), c)
                else (let progress' = progress\<lparr>PodUID := UID (podMeta created)\<rparr>
                      in committing checkpoint c progress' (k progress')))))"

definition uidOf :: "('o \<Rightarrow> objectMeta) \<Rightarrow> 'o option \<Rightarrow> string" where
  "uidOf m x = (case x of None \<Rightarrow> [] | Some v \<Rightarrow> UID (m v))"

definition EnsureWorker ::
  "lib \<Rightarrow> Run \<Rightarrow> Profile \<Rightarrow> Volume \<Rightarrow> Observation \<Rightarrow> ('x, 'y, Observation, 'c) checkpoint \<Rightarrow> 'c
     \<Rightarrow> ('x, 'y, (Observation \<times> err option) \<times> 'c) tree" where
  "EnsureWorker L r p b expected checkpoint c =
     (if \<not> validObservation L expected then Ret ((noObservation, Some ErrInvalid), c)
      else (case WorkerObjects L r p b of
          Inl e \<Rightarrow> Ret ((noObservation, Some e), c)
        | Inr (desired, svc) \<Rightarrow>
            bindP (ensureRead L r p b expected desired svc) (\<lambda>res. case res of
                Inl e \<Rightarrow> Ret ((noObservation, Some e), c)
              | Inr (currentPod, currentService, sec) \<Rightarrow>
                  (let progress = noObservation\<lparr>SecretUID := uidOf secMeta sec, ServiceUID := uidOf svcMeta currentService,
                         PodUID := uidOf podMeta currentPod\<rparr> in
                   committing checkpoint c progress (\<lambda>c.
                   ensureSecret L r p checkpoint sec progress c (\<lambda>progress c.
                   ensureService L p svc checkpoint currentService progress c (\<lambda>progress c.
                   ensurePod L p desired checkpoint currentPod progress c (\<lambda>progress c.
                   bindP (ObserveWorker L r p b progress) (\<lambda>res. case res of
                       Inl e \<Rightarrow> Ret ((progress, Some e), c)
                     | Inr observed \<Rightarrow>
                         committing checkpoint c observed (\<lambda>c. Ret ((observed, None), c)))))))))))"

section \<open>The worker's HTTP proofs\<close>

record ResourceBinding =
  rbPodUID :: string
  rbPodName :: string
  rbNamespace :: string
  rbContainer :: string

record WorkerStopProof =
  spSchemaVersion :: int
  spInstanceID :: string
  spStartOperationID :: string
  spStopOperationID :: string
  spGeneration :: int
  spBootID :: string
  spBinding :: ResourceBinding
  spState :: string

text \<open>The status document of a worker has the same fields without the stop operation.\<close>

record WorkerStatus =
  wsSchemaVersion :: int
  wsState :: string
  wsInstanceID :: string
  wsStartOperationID :: string
  wsGeneration :: int
  wsBootID :: string
  wsBinding :: ResourceBinding

text \<open>Parsing of a media type, the decoders of the three documents and the encoder of the
  request without its state.\<close>

record httpLib =
  mediaType :: "string \<Rightarrow> string option"
  statusCodec :: "WorkerStatus codec"
  proofCodec :: "WorkerStopProof codec"
  failureCodec :: "string codec"
  sealBody :: "WorkerStopProof \<Rightarrow> string"

definition plainJSON :: "httpLib \<Rightarrow> httpResponse \<Rightarrow> bool" where
  "plainJSON H resp \<longleftrightarrow> mediaType H (contentType resp) = Some ''application/json'' \<and> contentEncoding resp = [] \<and>
     \<not> Uncompressed resp"

definition workerBinding :: "Run \<Rightarrow> Profile \<Rightarrow> string \<Rightarrow> ResourceBinding" where
  "workerBinding r p uid = \<lparr>rbPodUID = uid, rbPodName = runName r, rbNamespace = pNamespace p, rbContainer = ''worker''\<rparr>"

definition statusProves :: "lib \<Rightarrow> Run \<Rightarrow> Profile \<Rightarrow> Observation \<Rightarrow> WorkerStatus \<Rightarrow> bool" where
  "statusProves L r p observed s \<longleftrightarrow> \<not>
     (wsSchemaVersion s \<noteq> 1 \<or> wsState s \<noteq> ''ready'' \<or> wsInstanceID s \<noteq> InstanceID (runIdentity r) \<or>
      wsStartOperationID s \<noteq> OperationID r \<or> wsGeneration s \<noteq> Generation r \<or> \<not> validBoot L (wsBootID s) \<or>
      BootID observed \<noteq> [] \<and> BootID observed \<noteq> wsBootID s \<or> wsBinding s \<noteq> workerBinding r p (PodUID observed))"

text \<open>\<^verbatim>\<open>HTTPWorkerObserver.Observe\<close>\<close>

definition Observe ::
  "lib \<Rightarrow> httpLib \<Rightarrow> Run \<Rightarrow> Profile \<Rightarrow> Observation \<Rightarrow> string \<Rightarrow> ('x, 'y, err + string) tree" where
  "Observe L H r p observed token =
     failIf (\<not> validIdentity L (runIdentity r) \<or> \<not> validID L (OperationID r) \<or> Generation r < 1 \<or> \<not> ProfileValid L p \<or>
       \<not> validObservation L observed \<or> PodUID observed = [] \<or> \<not> credentialValid token) ErrInvalid
     (failIf (\<not> PodReady observed) ErrNotReady
     (kHttpDo \<lparr>httpMethod = ''GET'', httpURL = workerOrigin r p @ ''/internal/v1/app-instance/status'',
        httpHeaders = [(''Authorization'', ''Bearer '' @ token)], httpBody = []\<rparr> (\<lambda>reply.
     case reply of
       None \<Rightarrow> Ret (Inl ErrUnavailable)
     | Some resp \<Rightarrow>
         failIf (StatusCode resp \<noteq> 200 \<or> \<not> plainJSON H resp) ErrNotReady
         (case Decode (statusCodec H) (Some (respBody resp)) (16 * 1024) of
            None \<Rightarrow> Ret (Inl ErrBinding)
          | Some s \<Rightarrow> if \<not> statusProves L r p observed s then Ret (Inl ErrBinding) else Ret (Inr (wsBootID s))))))"

definition stopProof :: "Run \<Rightarrow> Profile \<Rightarrow> Observation \<Rightarrow> string \<Rightarrow> WorkerStopProof" where
  "stopProof r p observed operation =
     \<lparr>spSchemaVersion = 1, spInstanceID = InstanceID (runIdentity r), spStartOperationID = OperationID r,
      spStopOperationID = operation, spGeneration = Generation r, spBootID = BootID observed,
      spBinding = workerBinding r p (PodUID observed), spState = ''sealed''\<rparr>"

text \<open>\<^verbatim>\<open>HTTPWorkerStopper.Seal\<close>\<close>

definition Seal ::
  "lib \<Rightarrow> httpLib \<Rightarrow> Run \<Rightarrow> Profile \<Rightarrow> Observation \<Rightarrow> string \<Rightarrow> string \<Rightarrow> ('x, 'y, err + WorkerStopProof) tree" where
  "Seal L H r p observed token operation =
     failIf (\<not> validIdentity L (runIdentity r) \<or> \<not> validID L (OperationID r) \<or> Generation r < 1 \<or> \<not> ProfileValid L p \<or>
       \<not> validObservation L observed \<or> PodUID observed = [] \<or> \<not> validBoot L (BootID observed) \<or> \<not> credentialValid token \<or>
       \<not> validID L operation \<or> operation = OperationID r) ErrInvalid
     (let expected = stopProof r p observed operation in
      kHttpDo \<lparr>httpMethod = ''POST'', httpURL = workerOrigin r p @ ''/internal/v1/app-instance/stop-barrier'',
        httpHeaders = [(''Authorization'', ''Bearer '' @ token), (''Content-Type'', ''application/json'')],
        httpBody = sealBody H expected\<rparr> (\<lambda>reply.
      case reply of
        None \<Rightarrow> Ret (Inl ErrUnavailable)
      | Some resp \<Rightarrow>
          failIf (\<not> plainJSON H resp) ErrUnavailable
          (if StatusCode resp \<noteq> 200 then
             (case Decode (failureCodec H) (Some (respBody resp)) 4096 of
                None \<Rightarrow> Ret (Inl ErrUnavailable)
              | Some code \<Rightarrow>
                  if StatusCode resp = 409 \<and> code = ''INSTANCE_BUSY'' then Ret (Inl ErrBusy)
                  else if StatusCode resp = 409 then Ret (Inl ErrBinding)
                  else Ret (Inl ErrUnavailable))
           else
             (case Decode (proofCodec H) (Some (respBody resp)) 4096 of
                None \<Rightarrow> Ret (Inl ErrBinding)
              | Some proof \<Rightarrow> if proof \<noteq> expected then Ret (Inl ErrBinding) else Ret (Inr proof)))))"

section \<open>Removing a worker\<close>

record StopProgress =
  Proof :: WorkerStopProof
  Phase :: string

definition stopPhases :: "(string \<times> int) list" where
  "stopPhases = [(''sealed'', 0), (''pod_delete_requested'', 1), (''pod_deleted'', 2),
     (''service_delete_requested'', 3), (''stopped'', 4)]"

definition stopIndex :: "string \<Rightarrow> int" where
  "stopIndex phase = (case map_of stopPhases phase of None \<Rightarrow> 0 | Some n \<Rightarrow> n)"

definition nodeReady :: "node \<Rightarrow> bool" where
  "nodeReady n = fold (\<lambda>c ready. if condType c = ''Ready'' then condStatus c = ''True'' else ready) (nodeConditions n) False"

definition removablePod :: "lib \<Rightarrow> Profile \<Rightarrow> Observation \<Rightarrow> pod \<Rightarrow> int \<Rightarrow> kerr + pod \<Rightarrow> err + pod option" where
  "removablePod L p observed desired stage got =
     (case got of
        Inl e \<Rightarrow> if e = NotFound then (if stage < 1 then Inl ErrBinding else Inr None) else Inl (ErrKube e)
      | Inr d \<Rightarrow>
          (let m = podMeta d; checked = d\<lparr>podMeta := m\<lparr>DeletionTimestamp := None\<rparr>\<rparr> in
           if DeletionTimestamp m \<noteq> None \<and>
              (stage \<noteq> 1 \<or> (case DeletionGracePeriodSeconds m of None \<Rightarrow> True | Some g \<Rightarrow> g \<le> 0)) then Inl ErrBinding
           else if stage \<ge> 2 \<or> \<not> podMatches L checked desired (PodUID observed) (pNodeName p) \<or>
              ResourceVersion m = [] \<or> NodeName (podSpecOf d) \<noteq> pNodeName p then Inl ErrBinding
           else Inr (Some d)))"

definition removableService :: "lib \<Rightarrow> Observation \<Rightarrow> service \<Rightarrow> int \<Rightarrow> kerr + service \<Rightarrow> err + service option" where
  "removableService L observed desired stage got =
     (case got of
        Inl e \<Rightarrow> if e = NotFound then (if stage < 3 then Inl ErrBinding else Inr None) else Inl (ErrKube e)
      | Inr s \<Rightarrow>
          (let m = svcMeta s; checked = s\<lparr>svcMeta := m\<lparr>DeletionTimestamp := None\<rparr>\<rparr> in
           if DeletionTimestamp m \<noteq> None \<and> stage \<noteq> 3 then Inl ErrBinding
           else if stage \<ge> 4 \<or> \<not> serviceMatches L checked desired (ServiceUID observed) \<or> ResourceVersion m = []
           then Inl ErrBinding
           else Inr (Some s)))"

text \<open>The reads and validations in front of the first intent.\<close>

definition removeRead ::
  "lib \<Rightarrow> Run \<Rightarrow> Profile \<Rightarrow> Volume \<Rightarrow> Observation \<Rightarrow> int \<Rightarrow> ('x, 'y, err + pod option \<times> service option) tree" where
  "removeRead L r p b observed stage =
     tryP (WorkerObjects L r p b) (\<lambda>(desiredPod, desiredService).
     kGetNode (pNodeName p) (\<lambda>got. case got of
         Inl _ \<Rightarrow> Ret (Inl ErrUnavailable)
       | Inr n \<Rightarrow>
     failIf (DeletionTimestamp (nodeMeta n) \<noteq> None) ErrUnavailable
     (failIf (\<not> nodeReady n) ErrNotReady
     (kGetPod (pNamespace p) (Name (podMeta desiredPod)) (\<lambda>got.
     tryP (removablePod L p observed desiredPod stage got) (\<lambda>d.
     kGetService (pNamespace p) (Name (svcMeta desiredService)) (\<lambda>got.
     tryP (removableService L observed desiredService stage got) (\<lambda>s.
     thenP (InspectVolume L (runIdentity r) p (PVCName b) (Some b) (\<lambda>u. u = PodUID observed)) (\<lambda>_.
     thenP (volumeClaimed L (runIdentity r) p b) (\<lambda>_.
     kGetSecret (pNamespace p) (instanceName (runIdentity r)) (\<lambda>got. case got of
         Inl _ \<Rightarrow> Ret (Inl ErrBinding)
       | Inr sec \<Rightarrow>
     failIf (\<not> secretMatches L sec (runIdentity r) p (SecretUID observed)) ErrBinding
     (Ret (Inr (d, s))))))))))))))"

definition advanceStop ::
  "('x, 'y, StopProgress, 'c) checkpoint \<Rightarrow> 'c \<Rightarrow> StopProgress \<Rightarrow> string
     \<Rightarrow> (StopProgress \<Rightarrow> 'c \<Rightarrow> ('x, 'y, (StopProgress \<times> err option) \<times> 'c) tree)
     \<Rightarrow> ('x, 'y, (StopProgress \<times> err option) \<times> 'c) tree" where
  "advanceStop checkpoint c progress phase k =
     (let next = \<lparr>Proof = Proof progress, Phase = phase\<rparr> in
      if stopIndex phase \<noteq> stopIndex (Phase progress) + 1 then Ret ((progress, Some ErrConflict), c)
      else bindP (checkpoint c next) (\<lambda>(e, c'). case e of
          Some x \<Rightarrow> Ret ((progress, Some x), c')
        | None \<Rightarrow> k next c'))"

definition removeService ::
  "Profile \<Rightarrow> service option \<Rightarrow> ('x, 'y, StopProgress, 'c) checkpoint \<Rightarrow> StopProgress \<Rightarrow> 'c
     \<Rightarrow> ('x, 'y, (StopProgress \<times> err option) \<times> 'c) tree" where
  "removeService p svc checkpoint progress c =
     (if Phase progress = ''service_delete_requested'' then
        (case svc of
           Some s \<Rightarrow>
             if DeletionTimestamp (svcMeta s) = None then
               kDeleteService (pNamespace p) (Name (svcMeta s))
                 \<lparr>PreUID = Some (UID (svcMeta s)), PreResourceVersion = Some (ResourceVersion (svcMeta s)),
                  GracePeriodSeconds = None, PropagationPolicy = None\<rparr>
                 (\<lambda>e. Ret ((progress, map_option ErrKube e), c))
             else Ret ((progress, None), c)
         | None \<Rightarrow> advanceStop checkpoint c progress ''stopped'' (\<lambda>progress c. Ret ((progress, None), c)))
      else Ret ((progress, None), c))"

definition removeAfterPod ::
  "Profile \<Rightarrow> service option \<Rightarrow> ('x, 'y, StopProgress, 'c) checkpoint \<Rightarrow> StopProgress \<Rightarrow> 'c
     \<Rightarrow> ('x, 'y, (StopProgress \<times> err option) \<times> 'c) tree" where
  "removeAfterPod p svc checkpoint progress c =
     (if Phase progress = ''pod_deleted''
      then advanceStop checkpoint c progress ''service_delete_requested'' (removeService p svc checkpoint)
      else removeService p svc checkpoint progress c)"

definition removePod ::
  "Profile \<Rightarrow> pod option \<Rightarrow> service option \<Rightarrow> ('x, 'y, StopProgress, 'c) checkpoint \<Rightarrow> StopProgress \<Rightarrow> 'c
     \<Rightarrow> ('x, 'y, (StopProgress \<times> err option) \<times> 'c) tree" where
  "removePod p d svc checkpoint progress c =
     (if Phase progress = ''pod_delete_requested'' then
        (case d of
           Some d \<Rightarrow>
             if DeletionTimestamp (podMeta d) = None then
               kDeletePod (pNamespace p) (Name (podMeta d))
                 \<lparr>PreUID = Some (UID (podMeta d)), PreResourceVersion = Some (ResourceVersion (podMeta d)),
                  GracePeriodSeconds = Some 30, PropagationPolicy = Some ''Background''\<rparr>
                 (\<lambda>e. Ret ((progress, map_option ErrKube e), c))
             else Ret ((progress, None), c)
         | None \<Rightarrow> advanceStop checkpoint c progress ''pod_deleted'' (removeAfterPod p svc checkpoint))
      else removeAfterPod p svc checkpoint progress c)"

definition removePhases ::
  "Profile \<Rightarrow> pod option \<Rightarrow> service option \<Rightarrow> ('x, 'y, StopProgress, 'c) checkpoint \<Rightarrow> StopProgress \<Rightarrow> 'c
     \<Rightarrow> ('x, 'y, (StopProgress \<times> err option) \<times> 'c) tree" where
  "removePhases p d svc checkpoint progress c =
     (if Phase progress = ''sealed''
      then advanceStop checkpoint c progress ''pod_delete_requested'' (removePod p d svc checkpoint)
      else removePod p d svc checkpoint progress c)"

definition RemoveWorker ::
  "lib \<Rightarrow> Run \<Rightarrow> Profile \<Rightarrow> Volume \<Rightarrow> Observation \<Rightarrow> ('x, 'y, StopProgress, 'c) checkpoint \<Rightarrow> StopProgress \<Rightarrow> 'c
     \<Rightarrow> ('x, 'y, (StopProgress \<times> err option) \<times> 'c) tree" where
  "RemoveWorker L r p b observed checkpoint progress c =
     (if map_of stopPhases (Phase progress) = None \<or> \<not> validObservation L observed \<or> \<not> validBoot L (BootID observed) \<or>
         PodUID observed = [] \<or> \<not> validID L (spStopOperationID (Proof progress)) \<or>
         spStopOperationID (Proof progress) = OperationID r \<or>
         Proof progress \<noteq> stopProof r p observed (spStopOperationID (Proof progress))
      then Ret ((progress, Some ErrInvalid), c)
      else bindP (removeRead L r p b observed (stopIndex (Phase progress))) (\<lambda>res. case res of
          Inl e \<Rightarrow> Ret ((progress, Some e), c)
        | Inr (d, s) \<Rightarrow> removePhases p d s checkpoint progress c))"

end
