(* ===== verification/AppLedger.thy ===== *)
theory AppLedger
  imports AppWorker
begin

text \<open>
  The contract between the worker operations and the journal that runs them. The worker
  side asks for checkpoints and Kubernetes changes; the journal side promises that a
  checkpoint that reports success is durably recorded and stays so. The locale \<open>ledger\<close>
  states the promise; inside its two extensions the operations \<open>EnsureWorker\<close> and
  \<open>RemoveWorker\<close> are proved to issue each change of the cluster only behind the record it
  needs. The journal interprets both locales on its own checkpoints.
\<close>

section \<open>What the read-only parts call and return\<close>

lemma owned_validUID: "owned L a d uid \<Longrightarrow> validUID L (UID a)"
  by (simp add: owned_def split: if_splits)

lemma owned_uid: "owned L a d uid \<Longrightarrow> uid \<noteq> [] \<Longrightarrow> UID a = uid"
  by (auto simp: owned_def split: if_splits)

lemma podMatches_owned: "podMatches L a d uid node \<Longrightarrow> owned L (podMeta a) (podMeta d) uid"
  by (simp add: podMatches_def split: if_splits)

lemma serviceMatches_owned: "serviceMatches L a d uid \<Longrightarrow> owned L (svcMeta a) (svcMeta d) uid"
  by (simp add: serviceMatches_def split: if_splits)

lemma secretMatches_owned:
  "secretMatches L a i p uid \<Longrightarrow> owned L (secMeta a) (meta (instanceName i) (pNamespace p) [] (identityAnnotations L i p)) uid"
  by (simp add: secretMatches_def)

lemmas matches_validUID = owned_validUID [OF podMatches_owned] owned_validUID [OF serviceMatches_owned]
  owned_validUID [OF secretMatches_owned]

lemmas matches_uid = owned_uid [OF podMatches_owned] owned_uid [OF serviceMatches_owned]
  owned_uid [OF secretMatches_owned]

lemma existing_Inr:
  "existing got mayMiss matches = Inr x \<longleftrightarrow>
     (x = None \<and> got = Inl NotFound \<and> mayMiss) \<or> (\<exists>o'. x = Some o' \<and> got = Inr o' \<and> matches o')"
  by (auto simp: existing_def split: sum.splits if_splits)

lemma ObserveWorker_reads: "onlyCalls readsKube (ObserveWorker L r p b expected)"
  by (auto simp: ObserveWorker_def intro!: onlyCalls_thenP InspectVolume_reads volumeClaimed_reads)

lemma ensureRead_reads: "onlyCalls readsKube (ensureRead L r p b expected desired svc)"
  by (auto simp: ensureRead_def intro!: onlyCalls_thenP InspectVolume_reads volumeClaimed_reads)

lemma removeRead_reads: "onlyCalls readsKube (removeRead L r p b observed stage)"
  by (auto simp: removeRead_def intro!: onlyCalls_thenP InspectVolume_reads volumeClaimed_reads split: sum.splits)

lemma Observe_reads: "onlyCalls readsKube (Observe L H r p observed token)"
  by (auto simp: Observe_def split: option.splits)

lemma Seal_reads: "onlyCalls readsKube (Seal L H r p observed token operation)"
  by (auto simp: Seal_def Let_def split: option.splits)

text \<open>The objects found by the first half of \<open>EnsureWorker\<close>: a service only with a secret, a
  pod only with both, every UID valid and equal to the expected one if there is one.\<close>

definition found :: "lib \<Rightarrow> Observation \<Rightarrow> pod option \<times> service option \<times> secret option \<Rightarrow> bool" where
  "found L expected x \<longleftrightarrow>
     (case x of (cp, cs, sec) \<Rightarrow>
       (cp \<noteq> None \<longrightarrow> cs \<noteq> None) \<and> (cs \<noteq> None \<longrightarrow> sec \<noteq> None) \<and>
       (\<forall>d. cp = Some d \<longrightarrow> validUID L (UID (podMeta d))) \<and> (\<forall>s. cs = Some s \<longrightarrow> validUID L (UID (svcMeta s))) \<and>
       (\<forall>s. sec = Some s \<longrightarrow> validUID L (UID (secMeta s))) \<and>
       (PodUID expected \<noteq> [] \<longrightarrow> uidOf podMeta cp = PodUID expected) \<and>
       (ServiceUID expected \<noteq> [] \<longrightarrow> uidOf svcMeta cs = ServiceUID expected) \<and>
       (SecretUID expected \<noteq> [] \<longrightarrow> uidOf secMeta sec = SecretUID expected))"

lemma ensureRead_runs:
  assumes "runs (ensureRead L r p b expected desired svc) h (Inr x)"
  shows "found L expected x"
proof -
  obtain cp cs sec where x: "x = (cp, cs, sec)" by (cases x) auto
  from assms obtain g1 g2 g3 where
    "existing g1 (PodUID expected = []) (\<lambda>d. podMatches L d desired (PodUID expected) (pNodeName p)) = Inr cp"
    "existing g2 (ServiceUID expected = [] \<and> cp = None) (\<lambda>s. serviceMatches L s svc (ServiceUID expected)) = Inr cs"
    "existing g3 (SecretUID expected = [] \<and> cp = None \<and> cs = None)
       (\<lambda>s. secretMatches L s (runIdentity r) p (SecretUID expected)) = Inr sec"
    unfolding x ensureRead_def by (auto simp: runs_thenP)
  then show ?thesis
    unfolding x found_def uidOf_def existing_Inr by (auto intro: matches_validUID dest: matches_uid)
qed

section \<open>The ledger\<close>

locale ledger =
  fixes C :: "'m \<Rightarrow> 'x req \<Rightarrow> bool"
    and E :: "'m \<Rightarrow> 'x req \<Rightarrow> 'y resp \<Rightarrow> 'm \<Rightarrow> bool"
    and I :: "'m \<Rightarrow> 'c \<Rightarrow> bool"
    and J :: "'m \<Rightarrow> bool"
    and recorded :: "'m \<Rightarrow> 'p \<Rightarrow> bool"
    and guard :: "('p \<Rightarrow> bool) \<Rightarrow> kreq \<Rightarrow> bool"
    and checkpoint :: "('x, 'y, 'p, 'c) checkpoint"
  assumes guarded: "I m c \<Longrightarrow> guard (recorded m) q \<Longrightarrow> C m (K q)"
    and guard_reads: "\<not> mutates q \<Longrightarrow> guard R q"
    and kube_keeps: "I m c \<Longrightarrow> E m (K q) r m' \<Longrightarrow> I m' c"
    and kube_records: "I m c \<Longrightarrow> E m (K q) r m' \<Longrightarrow> recorded m x \<Longrightarrow> recorded m' x"
    and checkpoint_ok: "I m c \<Longrightarrow>
      holds C E (\<lambda>m' (e, c'). if e = None then I m' c' \<and> recorded m' x else J m') m (checkpoint c x)"
    and weaken: "I m c \<Longrightarrow> J m"
begin

lemma reads:
  assumes "onlyCalls readsKube t" and "returns Q t" and "I m c" and "R \<subseteq> Collect (recorded m)"
  shows "holds C E (\<lambda>m' a. (I m' c \<and> R \<subseteq> Collect (recorded m')) \<and> Q a) m t"
proof (rule holds_reads [where P = readsKube and I = "\<lambda>m. I m c \<and> R \<subseteq> Collect (recorded m)"])
  show "C m q" if "readsKube q" "I m c \<and> R \<subseteq> Collect (recorded m)" for m q
    using that guarded guard_reads by (cases q) auto
  show "I m' c \<and> R \<subseteq> Collect (recorded m')"
    if "readsKube q" "I m c \<and> R \<subseteq> Collect (recorded m)" "E m q a m'" for m q a m'
    using that kube_keeps kube_records by (cases q) auto
qed (use assms in auto)

lemma kube_ask:
  assumes "I m c" and "recorded m x" and "guard (recorded m) q"
    and "\<And>m' a. I m' c \<Longrightarrow> recorded m' x \<Longrightarrow> holds C E Q m' (k a)"
  shows "holds C E Q m (ask (K q) as k)"
  using assms guarded kube_keeps kube_records by auto

lemma committing_rule:
  assumes "I m c"
    and "\<And>m' c'. I m' c' \<Longrightarrow> recorded m' x \<Longrightarrow> holds C E Q m' (k c')"
    and "\<And>m' c' e. J m' \<Longrightarrow> Q m' ((x, Some e), c')"
  shows "holds C E Q m (committing checkpoint c x k)"
  unfolding committing_def holds_bindP
  by (rule holds_mono [OF checkpoint_ok [OF assms(1)]]) (use assms(2,3) in \<open>auto split: option.splits if_splits\<close>)

end

section \<open>Creating a worker behind checkpoints\<close>

text \<open>The outcome of an operation with checkpoints: without an error the caller's invariant
  with its state and the result recorded, with an error what remains true of the world.\<close>

definition finished ::
  "('m \<Rightarrow> 'c \<Rightarrow> bool) \<Rightarrow> ('m \<Rightarrow> bool) \<Rightarrow> ('m \<Rightarrow> 'p \<Rightarrow> bool) \<Rightarrow> 'm \<Rightarrow> ('p \<times> err option) \<times> 'c \<Rightarrow> bool" where
  "finished I J recorded m a \<longleftrightarrow>
     (if snd (fst a) = None then I m (snd a) \<and> recorded m (fst (fst a)) else J m)"

text \<open>A secret is created behind any checkpoint, the service behind one that records the
  secret's UID, the pod behind one that records both; nothing else is changed.\<close>

definition ensureGuard :: "lib \<Rightarrow> (Observation \<Rightarrow> bool) \<Rightarrow> kreq \<Rightarrow> bool" where
  "ensureGuard L R q =
     (case q of
        CreateSecret _ _ \<Rightarrow> \<exists>ob. R ob
      | CreateService _ _ \<Rightarrow> \<exists>ob. R ob \<and> validUID L (SecretUID ob)
      | CreatePod _ _ \<Rightarrow> \<exists>ob. R ob \<and> validUID L (SecretUID ob) \<and> validUID L (ServiceUID ob)
      | _ \<Rightarrow> \<not> mutates q)"

locale ensure_ledger = ledger C E I J recorded "ensureGuard L" checkpoint
  for C :: "'m \<Rightarrow> 'x req \<Rightarrow> bool" and E :: "'m \<Rightarrow> 'x req \<Rightarrow> 'y resp \<Rightarrow> 'm \<Rightarrow> bool" and I :: "'m \<Rightarrow> 'c \<Rightarrow> bool" and J :: "'m \<Rightarrow> bool"
    and recorded :: "'m \<Rightarrow> Observation \<Rightarrow> bool" and L :: lib
    and checkpoint :: "('x, 'y, Observation, 'c) checkpoint"
begin

lemma ensureSecret_rule:
  assumes "I m c" and "recorded m ob" and "\<And>s. sec = Some s \<Longrightarrow> validUID L (SecretUID ob)"
    and "\<And>m ob' c. I m c \<Longrightarrow> recorded m ob' \<Longrightarrow> validUID L (SecretUID ob') \<Longrightarrow> ServiceUID ob' = ServiceUID ob \<Longrightarrow>
      holds C E (finished I J recorded) m (k ob' c)"
  shows "holds C E (finished I J recorded) m (ensureSecret L r p checkpoint sec ob c k)"
proof (cases sec)
  case None
  have create: "holds C E (finished I J recorded) m' (kCreateSecret ns s (\<lambda>got. case got of
      Inl e \<Rightarrow> Ret ((noObservation, Some (ErrKube e)), c)
    | Inr created \<Rightarrow> if \<not> secretMatches L created (runIdentity r) p [] then Ret ((noObservation, Some ErrBinding), c)
        else (let ob' = ob\<lparr>SecretUID := UID (secMeta created)\<rparr> in committing checkpoint c ob' (k ob'))))"
    if "I m' c" "recorded m' ob" for m' ns s
    using that assms(4) matches_validUID(3)
    by (intro kube_ask [where x = ob])
      (auto simp: ensureGuard_def Let_def finished_def weaken split: sum.splits intro!: committing_rule)
  show ?thesis
    unfolding ensureSecret_def None option.case
    by (rule kube_ask [where x = ob])
      (use assms(1,2) in \<open>auto simp: ensureGuard_def finished_def weaken simp del: holds_ask split: sum.splits intro!: create\<close>)
qed (use assms in \<open>simp add: ensureSecret_def\<close>)

lemma ensureService_rule:
  assumes "I m c" and "recorded m ob" and "validUID L (SecretUID ob)"
    and "\<And>s. current = Some s \<Longrightarrow> validUID L (ServiceUID ob)"
    and "\<And>m ob' c. I m c \<Longrightarrow> recorded m ob' \<Longrightarrow> validUID L (SecretUID ob') \<Longrightarrow> validUID L (ServiceUID ob') \<Longrightarrow>
      holds C E (finished I J recorded) m (k ob' c)"
  shows "holds C E (finished I J recorded) m (ensureService L p svc checkpoint current ob c k)"
proof (cases current)
  case None
  show ?thesis
    unfolding ensureService_def None option.case
    by (rule kube_ask [where x = ob])
      (use assms matches_validUID(2) in \<open>auto simp: ensureGuard_def Let_def finished_def weaken split: sum.splits intro!: committing_rule\<close>)
qed (use assms in \<open>simp add: ensureService_def\<close>)

lemma ensurePod_rule:
  assumes "I m c" and "recorded m ob" and "validUID L (SecretUID ob)" and "validUID L (ServiceUID ob)"
    and "\<And>m ob' c. I m c \<Longrightarrow> recorded m ob' \<Longrightarrow> holds C E (finished I J recorded) m (k ob' c)"
  shows "holds C E (finished I J recorded) m (ensurePod L p desired checkpoint current ob c k)"
proof (cases current)
  case None
  show ?thesis
    unfolding ensurePod_def None option.case Let_def
    by (rule kube_ask [where x = ob])
      (use assms in \<open>auto simp: ensureGuard_def finished_def weaken split: sum.splits intro!: committing_rule\<close>)
qed (use assms in \<open>simp add: ensurePod_def\<close>)

lemma observe_rule:
  assumes "I m c" and "recorded m ob"
  shows "holds C E (finished I J recorded) m (bindP (ObserveWorker L r p b ob) (\<lambda>res. case res of
      Inl e \<Rightarrow> Ret ((ob, Some e), c)
    | Inr observed \<Rightarrow> committing checkpoint c observed (\<lambda>c. Ret ((observed, None), c))))"
proof -
  have "holds C E (\<lambda>m' a. (I m' c \<and> {} \<subseteq> Collect (recorded m')) \<and> True) m (ObserveWorker L r p b ob)"
    by (rule reads [OF ObserveWorker_reads _ assms(1)]) (simp_all add: returns_iff)
  then show ?thesis
    unfolding holds_bindP
    by (rule holds_mono) (auto simp: finished_def weaken split: sum.splits intro!: committing_rule)
qed

text \<open>The second half of \<open>EnsureWorker\<close>, from the objects found on.\<close>

lemma ensure_chain:
  assumes "I m c" and f: "found L expected (cp, cs, sec)"
    and ob: "SecretUID ob = uidOf secMeta sec" "ServiceUID ob = uidOf svcMeta cs"
  shows "holds C E (finished I J recorded) m (committing checkpoint c ob (\<lambda>c.
    ensureSecret L r p checkpoint sec ob c (\<lambda>ob c.
    ensureService L p svc checkpoint cs ob c (\<lambda>ob c.
    ensurePod L p desired checkpoint cp ob c (\<lambda>ob c.
    bindP (ObserveWorker L r p b ob) (\<lambda>res. case res of
        Inl e \<Rightarrow> Ret ((ob, Some e), c)
      | Inr observed \<Rightarrow> committing checkpoint c observed (\<lambda>c. Ret ((observed, None), c))))))))"
proof (rule committing_rule [OF assms(1)])
  fix m' c' assume I: "I m' c'" and rec: "recorded m' ob"
  show "holds C E (finished I J recorded) m' (ensureSecret L r p checkpoint sec ob c' (\<lambda>ob c.
    ensureService L p svc checkpoint cs ob c (\<lambda>ob c.
    ensurePod L p desired checkpoint cp ob c (\<lambda>ob c.
    bindP (ObserveWorker L r p b ob) (\<lambda>res. case res of
        Inl e \<Rightarrow> Ret ((ob, Some e), c)
      | Inr observed \<Rightarrow> committing checkpoint c observed (\<lambda>c. Ret ((observed, None), c)))))))"
  proof (rule ensureSecret_rule [OF I rec])
    show "validUID L (SecretUID ob)" if "sec = Some s" for s
      using that f ob(1) by (simp add: found_def uidOf_def)
  next
    fix m2 ob2 c2
    assume 2: "I m2 c2" "recorded m2 ob2" "validUID L (SecretUID ob2)" and svc2: "ServiceUID ob2 = ServiceUID ob"
    have valid: "validUID L (ServiceUID ob2)" if "cs = Some s" for s
      using that f ob(2) svc2 by (simp add: found_def uidOf_def)
    show "holds C E (finished I J recorded) m2 (ensureService L p svc checkpoint cs ob2 c2 (\<lambda>ob c.
      ensurePod L p desired checkpoint cp ob c (\<lambda>ob c.
      bindP (ObserveWorker L r p b ob) (\<lambda>res. case res of
          Inl e \<Rightarrow> Ret ((ob, Some e), c)
        | Inr observed \<Rightarrow> committing checkpoint c observed (\<lambda>c. Ret ((observed, None), c))))))"
      by (rule ensureService_rule [OF 2 valid], assumption) (rule ensurePod_rule; (rule observe_rule)?; assumption)
  qed
qed (simp add: finished_def weaken)

lemma EnsureWorker_guarded:
  assumes "I m c"
  shows "holds C E (finished I J recorded) m (EnsureWorker L r p b expected checkpoint c)"
proof (cases "validObservation L expected \<and> (\<exists>ds. WorkerObjects L r p b = Inr ds)")
  case True
  then obtain desired svc where ds: "WorkerObjects L r p b = Inr (desired, svc)" by auto
  have "returns (\<lambda>x. \<forall>y. x = Inr y \<longrightarrow> found L expected y) (ensureRead L r p b expected desired svc)"
    by (auto simp: returns_iff intro: ensureRead_runs)
  from reads [OF ensureRead_reads this assms, of "{}"]
  have read: "holds C E (\<lambda>m' x. (I m' c \<and> {} \<subseteq> Collect (recorded m')) \<and> (\<forall>y. x = Inr y \<longrightarrow> found L expected y)) m
      (ensureRead L r p b expected desired svc)"
    by simp
  show ?thesis
    unfolding EnsureWorker_def using True ds
    by (simp add: holds_bindP Let_def, intro holds_mono [OF read])
      (auto simp: finished_def weaken split: sum.splits intro!: ensure_chain)
next
  case False
  with assms show ?thesis
    by (auto simp: EnsureWorker_def finished_def weaken split: sum.splits)
qed

end

section \<open>Removing a worker behind committed intents\<close>

text \<open>A pod is deleted only behind the recorded phase \<open>pod_delete_requested\<close>, a service only
  behind \<open>service_delete_requested\<close>; the request names the UID the run observed and the
  resource version just read, and a pod keeps its grace period. Nothing else is changed.\<close>

definition stopGuard :: "Observation \<Rightarrow> (StopProgress \<Rightarrow> bool) \<Rightarrow> kreq \<Rightarrow> bool" where
  "stopGuard observed R q =
     (case q of
        DeletePod _ _ d \<Rightarrow> (\<exists>pr. R pr \<and> Phase pr = ''pod_delete_requested'') \<and> PreUID d = Some (PodUID observed) \<and>
          (\<exists>v. PreResourceVersion d = Some v \<and> v \<noteq> []) \<and> GracePeriodSeconds d = Some 30
      | DeleteService _ _ d \<Rightarrow> (\<exists>pr. R pr \<and> Phase pr = ''service_delete_requested'') \<and> PreUID d = Some (ServiceUID observed) \<and>
          (\<exists>v. PreResourceVersion d = Some v \<and> v \<noteq> [])
      | _ \<Rightarrow> \<not> mutates q)"

definition removable :: "Observation \<Rightarrow> pod option \<times> service option \<Rightarrow> bool" where
  "removable observed x \<longleftrightarrow>
     (\<forall>d. fst x = Some d \<longrightarrow> ResourceVersion (podMeta d) \<noteq> [] \<and> (PodUID observed \<noteq> [] \<longrightarrow> UID (podMeta d) = PodUID observed)) \<and>
     (\<forall>s. snd x = Some s \<longrightarrow> ResourceVersion (svcMeta s) \<noteq> [] \<and> (ServiceUID observed \<noteq> [] \<longrightarrow> UID (svcMeta s) = ServiceUID observed))"

lemma removablePod_Some:
  assumes "removablePod L p observed desired stage got = Inr (Some d)"
  shows "got = Inr d \<and> stage < 2 \<and> ResourceVersion (podMeta d) \<noteq> [] \<and>
    (PodUID observed \<noteq> [] \<longrightarrow> UID (podMeta d) = PodUID observed)"
proof -
  from assms have "podMatches L (d\<lparr>podMeta := (podMeta d)\<lparr>DeletionTimestamp := None\<rparr>\<rparr>) desired (PodUID observed) (pNodeName p)"
    and "got = Inr d \<and> stage < 2 \<and> ResourceVersion (podMeta d) \<noteq> []"
    by (auto simp: removablePod_def Let_def split: sum.splits if_splits)
  with matches_uid(1) show ?thesis by fastforce
qed

lemma removableService_Some:
  assumes "removableService L observed desired stage got = Inr (Some s)"
  shows "got = Inr s \<and> stage < 4 \<and> ResourceVersion (svcMeta s) \<noteq> [] \<and>
    (ServiceUID observed \<noteq> [] \<longrightarrow> UID (svcMeta s) = ServiceUID observed)"
proof -
  from assms have "serviceMatches L (s\<lparr>svcMeta := (svcMeta s)\<lparr>DeletionTimestamp := None\<rparr>\<rparr>) desired (ServiceUID observed)"
    and "got = Inr s \<and> stage < 4 \<and> ResourceVersion (svcMeta s) \<noteq> []"
    by (auto simp: removableService_def Let_def split: sum.splits if_splits)
  with matches_uid(2) show ?thesis by fastforce
qed

lemma removeRead_runs:
  assumes "runs (removeRead L r p b observed stage) h (Inr x)"
  shows "removable observed x"
proof -
  obtain d s where x: "x = (d, s)" by (cases x)
  from assms obtain desired svc g1 g2 where "removablePod L p observed desired stage g1 = Inr d"
    "removableService L observed svc stage g2 = Inr s"
    unfolding x removeRead_def by (auto simp: runs_thenP split: sum.splits)
  then show ?thesis
    unfolding x removable_def by (auto dest: removablePod_Some removableService_Some)
qed

locale stop_ledger = ledger C E I J recorded "stopGuard observed" checkpoint
  for C :: "'m \<Rightarrow> 'x req \<Rightarrow> bool" and E :: "'m \<Rightarrow> 'x req \<Rightarrow> 'y resp \<Rightarrow> 'm \<Rightarrow> bool" and I :: "'m \<Rightarrow> 'c \<Rightarrow> bool" and J :: "'m \<Rightarrow> bool"
    and recorded :: "'m \<Rightarrow> StopProgress \<Rightarrow> bool" and observed :: Observation
    and checkpoint :: "('x, 'y, StopProgress, 'c) checkpoint"
begin

lemma advance_rule:
  assumes "I m c"
    and "\<And>m' c' next. I m' c' \<Longrightarrow> recorded m' next \<Longrightarrow> Phase next = phase \<Longrightarrow> holds C E Q m' (k next c')"
    and "\<And>m' c' e. J m' \<Longrightarrow> Q m' ((pr, Some e), c')"
  shows "holds C E Q m (advanceStop checkpoint c pr phase k)"
  unfolding advanceStop_def Let_def using assms(3) weaken [OF assms(1)]
  by (auto simp: holds_bindP intro!: holds_mono [OF checkpoint_ok [OF assms(1)]] assms(2) split: option.splits if_splits)

lemma removeService_rule:
  assumes "I m c" and "recorded m pr" and "removable observed (d, svc)" and "ServiceUID observed \<noteq> []"
  shows "holds C E (finished I J recorded) m (removeService p svc checkpoint pr c)"
proof (cases "Phase pr = ''service_delete_requested''")
  case True
  show ?thesis
  proof (cases svc)
    case None
    with True assms show ?thesis
      by (auto simp: removeService_def finished_def weaken intro!: advance_rule)
  next
    case (Some s)
    with True assms show ?thesis
      by (auto simp: removeService_def finished_def weaken removable_def stopGuard_def simp del: holds_ask
          intro!: kube_ask [where x = pr])
  qed
qed (use assms in \<open>simp add: removeService_def finished_def\<close>)

lemma removeAfterPod_rule:
  assumes "I m c" and "recorded m pr" and "removable observed (d, svc)" and "ServiceUID observed \<noteq> []"
  shows "holds C E (finished I J recorded) m (removeAfterPod p svc checkpoint pr c)"
  using assms by (auto simp: removeAfterPod_def finished_def weaken intro!: advance_rule removeService_rule)

lemma removePod_rule:
  assumes "I m c" and "recorded m pr" and "removable observed (d, svc)"
    and "ServiceUID observed \<noteq> []" and "PodUID observed \<noteq> []"
  shows "holds C E (finished I J recorded) m (removePod p d svc checkpoint pr c)"
proof (cases "Phase pr = ''pod_delete_requested''")
  case True
  show ?thesis
  proof (cases d)
    case None
    with True assms show ?thesis
      by (auto simp: removePod_def finished_def weaken intro!: advance_rule removeAfterPod_rule)
  next
    case (Some x)
    with True assms show ?thesis
      by (auto simp: removePod_def finished_def weaken removable_def stopGuard_def simp del: holds_ask
          intro!: kube_ask [where x = pr])
  qed
qed (use assms in \<open>auto simp: removePod_def intro!: removeAfterPod_rule\<close>)

lemma removePhases_rule:
  assumes "I m c" and "recorded m pr" and "removable observed (d, svc)"
    and "ServiceUID observed \<noteq> []" and "PodUID observed \<noteq> []"
  shows "holds C E (finished I J recorded) m (removePhases p d svc checkpoint pr c)"
  using assms by (auto simp: removePhases_def finished_def weaken intro!: advance_rule removePod_rule)

lemma RemoveWorker_guarded:
  assumes "I m c" and "recorded m pr"
  shows "holds C E (finished I J recorded) m (RemoveWorker L r p b observed checkpoint pr c)"
proof (cases "map_of stopPhases (Phase pr) = None \<or> \<not> validObservation L observed \<or> \<not> validBoot L (BootID observed) \<or>
    PodUID observed = [] \<or> \<not> validID L (spStopOperationID (Proof pr)) \<or> spStopOperationID (Proof pr) = OperationID r \<or>
    Proof pr \<noteq> stopProof r p observed (spStopOperationID (Proof pr))")
  case False
  then have uid: "PodUID observed \<noteq> []" "ServiceUID observed \<noteq> []"
    by (auto simp: validObservation_def split: if_splits)
  have "returns (\<lambda>x. \<forall>y. x = Inr y \<longrightarrow> removable observed y) (removeRead L r p b observed (stopIndex (Phase pr)))"
    by (auto simp: returns_iff intro: removeRead_runs)
  from reads [OF removeRead_reads this assms(1), of "{pr}"] assms(2)
  have read: "holds C E (\<lambda>m' x. (I m' c \<and> {pr} \<subseteq> Collect (recorded m')) \<and> (\<forall>y. x = Inr y \<longrightarrow> removable observed y)) m
      (removeRead L r p b observed (stopIndex (Phase pr)))"
    by simp
  show ?thesis
    unfolding RemoveWorker_def if_not_P [OF False] holds_bindP
    by (rule holds_mono [OF read]) (use uid in \<open>auto simp: finished_def weaken split: sum.splits intro!: removePhases_rule\<close>)
next
  case True
  show ?thesis unfolding RemoveWorker_def if_P [OF True] using assms(1) by (simp add: finished_def weaken)
qed

end

end
