(* ===== verification/AppJournal.thy ===== *)
theory AppJournal
  imports AppLedger
begin

text \<open>
  \<^verbatim>\<open>internal/appinstances/journal.go\<close>, \<^verbatim>\<open>stop_journal.go\<close> and the access check of
  \<^verbatim>\<open>access.go\<close>: the durable journal of worker starts and stops. The database tables are
  lists of rows; every SQL statement of the sources is a constructor of \<open>sql\<close> or \<open>query\<close>
  with its meaning as a function on the tables (\<open>execSql\<close>, \<open>answerTo\<close>). A JSON column is
  seen through the strict decoder: \<open>Json x\<close> decodes to \<open>x\<close>, \<open>Garbage\<close> does not decode.
\<close>

section \<open>Tables\<close>

datatype 'a col = Json 'a | Garbage

record startRow =
  sOperationID :: string
  sInstanceID :: string
  sGeneration :: int
  sInstallationRevision :: int
  sProfileHash :: string
  sInput :: "Run col"
  sPhase :: string
  sObservation :: "Observation col"
  sRevision :: int

record workspaceRow =
  wInstanceID :: string
  wStationID :: string
  wOrganizationID :: string
  wUserID :: string
  wInstallationID :: string
  wProfileHash :: string
  wNamespace :: string
  wPVCName :: string
  wPVCUID :: string
  wPVName :: string
  wPVUID :: string
  wBinding :: "Volume col"

text \<open>The columns of the older allocator's table that the reservation reads.\<close>

record legacyRow =
  lStationID :: string
  lNamespace :: string
  lPVCName :: string
  lPVCUID :: string
  lPVUID :: string

text \<open>The proof column of a stop: the default \<^verbatim>\<open>{}\<close> of a new row, or a proof.\<close>

datatype proofCol = NoProof | ProofCol "WorkerStopProof col"

record stopRow =
  tOperationID :: string
  tStartOperationID :: string
  tBootID :: string
  tPhase :: string
  tProof :: proofCol
  tRevision :: int

record installationRow =
  iInstallationID :: string
  iStationID :: string
  iOrganizationID :: string
  iAppID :: string
  iState :: string
  iRevision :: int

record db =
  starts :: "startRow list"
  workspaces :: "workspaceRow list"
  legacy :: "legacyRow list"
  stops :: "stopRow list"
  installations :: "installationRow list"

section \<open>Statements\<close>

text \<open>An encoded observation has no endpoint: the field is not part of the JSON shape.\<close>

definition persisted :: "Observation \<Rightarrow> Observation" where
  "persisted ob = ob\<lparr>Endpoint := []\<rparr>"

record startKey =
  kOperationID :: string
  kInstanceID :: string
  kGeneration :: int
  kProfileHash :: string
  kInstallationRevision :: int
  kRevision :: int

datatype sql =
    InsertStart startRow
  | InsertWorkspace workspaceRow
  | UpdateWorkspace string string string string string "Volume col"
  | UpdateStart Observation string startKey
  | InsertStop string string string
  | MarkStopping string int
  | UpdateStop string WorkerStopProof string int string
  | MarkStopped string int

text \<open>\<^verbatim>\<open>UPDATE ... WHERE\<close>: the rows that match are changed, and their number returned.\<close>

definition updateWhere :: "('r \<Rightarrow> bool) \<Rightarrow> ('r \<Rightarrow> 'r) \<Rightarrow> 'r list \<Rightarrow> 'r list" where
  "updateWhere match f rows = map (\<lambda>x. if match x then f x else x) rows"

definition countWhere :: "('r \<Rightarrow> bool) \<Rightarrow> 'r list \<Rightarrow> nat" where
  "countWhere match rows = length (filter match rows)"

definition matchStart :: "startKey \<Rightarrow> startRow \<Rightarrow> bool" where
  "matchStart k s \<longleftrightarrow> sOperationID s = kOperationID k \<and> sInstanceID s = kInstanceID k \<and> sGeneration s = kGeneration k \<and>
     sProfileHash s = kProfileHash k \<and> sInstallationRevision s = kInstallationRevision k \<and> sRevision s = kRevision k \<and>
     sPhase s \<in> {''accepted'', ''launching''}"

definition matchPhase :: "string \<Rightarrow> int \<Rightarrow> string \<Rightarrow> startRow \<Rightarrow> bool" where
  "matchPhase op rv phase s \<longleftrightarrow> sOperationID s = op \<and> sRevision s = rv \<and> sPhase s = phase"

definition matchStop :: "string \<Rightarrow> int \<Rightarrow> string \<Rightarrow> stopRow \<Rightarrow> bool" where
  "matchStop op rv phase t \<longleftrightarrow> tOperationID t = op \<and> tRevision t = rv \<and> tPhase t = phase"

fun execSql :: "sql \<Rightarrow> db \<Rightarrow> db \<times> nat" where
  "execSql (InsertStart s) d = (d\<lparr>starts := starts d @ [s]\<rparr>, 1)"
| "execSql (InsertWorkspace w) d = (d\<lparr>workspaces := workspaces d @ [w]\<rparr>, 1)"
| "execSql (UpdateWorkspace inst hash ns claim uid b) d =
     (d\<lparr>workspaces := updateWhere (\<lambda>w. wInstanceID w = inst)
        (\<lambda>w. w\<lparr>wProfileHash := hash, wNamespace := ns, wPVCName := claim, wPVCUID := uid, wBinding := b\<rparr>) (workspaces d)\<rparr>,
      countWhere (\<lambda>w. wInstanceID w = inst) (workspaces d))"
| "execSql (UpdateStart ob phase k) d =
     (d\<lparr>starts := updateWhere (matchStart k)
        (\<lambda>s. s\<lparr>sObservation := Json (persisted ob), sPhase := phase, sRevision := sRevision s + 1\<rparr>) (starts d)\<rparr>,
      countWhere (matchStart k) (starts d))"
| "execSql (InsertStop op start boot) d =
     (d\<lparr>stops := stops d @ [\<lparr>tOperationID = op, tStartOperationID = start, tBootID = boot, tPhase = ''accepted'',
        tProof = NoProof, tRevision = 1\<rparr>]\<rparr>, 1)"
| "execSql (MarkStopping op rv) d =
     (d\<lparr>starts := updateWhere (matchPhase op rv ''running'')
        (\<lambda>s. s\<lparr>sPhase := ''stopping'', sRevision := sRevision s + 1\<rparr>) (starts d)\<rparr>,
      countWhere (matchPhase op rv ''running'') (starts d))"
| "execSql (UpdateStop phase proof op rv old) d =
     (d\<lparr>stops := updateWhere (matchStop op rv old)
        (\<lambda>t. t\<lparr>tPhase := phase, tProof := ProofCol (Json proof), tRevision := tRevision t + 1\<rparr>) (stops d)\<rparr>,
      countWhere (matchStop op rv old) (stops d))"
| "execSql (MarkStopped op rv) d =
     (d\<lparr>starts := updateWhere (matchPhase op rv ''stopping'')
        (\<lambda>s. s\<lparr>sPhase := ''stopped'', sRevision := sRevision s + 1\<rparr>) (starts d)\<rparr>,
      countWhere (matchPhase op rv ''stopping'') (starts d))"

section \<open>Queries\<close>

datatype query =
    QInstallation string string string string int
  | QRecord string
  | QLatest string
  | QWorkspace string
  | QClaimUsed string string string
  | QUidUsed string string
  | QStop string

datatype answer =
    ABool bool
  | ARecord "(startRow \<times> Volume col) option"
  | ALatest "startRow option"
  | AWorkspace "Volume col option"
  | AStop "stopRow option"

definition firstRow :: "'r list \<Rightarrow> 'r option" where
  "firstRow rows = (case rows of [] \<Rightarrow> None | r # _ \<Rightarrow> Some r)"

text \<open>\<^verbatim>\<open>starts s JOIN workspaces w USING (instance_id) WHERE operation_id = op\<close>\<close>

definition joined :: "string \<Rightarrow> db \<Rightarrow> (startRow \<times> Volume col) list" where
  "joined op d =
     [(s, wBinding w). s \<leftarrow> starts d, w \<leftarrow> workspaces d, sInstanceID s = wInstanceID w \<and> sOperationID s = op]"

text \<open>\<^verbatim>\<open>ORDER BY generation DESC LIMIT 1\<close>\<close>

fun latest :: "startRow list \<Rightarrow> startRow option" where
  "latest [] = None"
| "latest (s # ss) =
     (case latest ss of None \<Rightarrow> Some s | Some t \<Rightarrow> Some (if sGeneration t > sGeneration s then t else s))"

fun answerTo :: "query \<Rightarrow> db \<Rightarrow> answer" where
  "answerTo (QInstallation inst st org app rv) d =
     ABool (list_ex (\<lambda>x. iInstallationID x = inst \<and> iStationID x = st \<and> iOrganizationID x = org \<and> iAppID x = app \<and>
       iState x = ''installed'' \<and> iRevision x = rv) (installations d))"
| "answerTo (QRecord op) d = ARecord (firstRow (joined op d))"
| "answerTo (QLatest inst) d = ALatest (latest (filter (\<lambda>s. sInstanceID s = inst) (starts d)))"
| "answerTo (QWorkspace inst) d = AWorkspace (firstRow [wBinding w. w \<leftarrow> workspaces d, wInstanceID w = inst])"
| "answerTo (QClaimUsed st ns claim) d =
     ABool (list_ex (\<lambda>w. wStationID w = st \<and> wNamespace w = ns \<and> wPVCName w = claim) (workspaces d) \<or>
       list_ex (\<lambda>l. lStationID l = st \<and> lNamespace l = ns \<and> lPVCName l = claim) (legacy d))"
| "answerTo (QUidUsed c v) d =
     ABool (list_ex (\<lambda>w. wPVCUID w = c \<or> wPVUID w = v) (workspaces d) \<or>
       list_ex (\<lambda>l. lPVCUID l = c \<or> lPVUID l = v) (legacy d))"
| "answerTo (QStop op) d = AStop (firstRow (filter (\<lambda>t. tOperationID t = op) (stops d)))"

section \<open>Requests of the journal\<close>

datatype sqlErr = UniqueViolation | SqlErr string

datatype jreq =
    Begin | Commit | Exec sql | Query query | TryLock string bool | TryXactLock string | XactLock string | Unlock string bool
  | Authorize Run Profile

datatype jresp =
    RTx "string option" | RExec "sqlErr + nat" | RAnswer "string + answer" | RLock "string + bool"
  | RRevision "err + int"

type_synonym 'a jtree = "(jreq, jresp, 'a) tree"

fun asTx :: "jresp resp \<Rightarrow> string option option" where
  "asTx (XR (RTx x)) = Some x" | "asTx _ = None"

fun asExec :: "jresp resp \<Rightarrow> (sqlErr + nat) option" where
  "asExec (XR (RExec x)) = Some x" | "asExec _ = None"

fun asAnswer :: "jresp resp \<Rightarrow> (string + answer) option" where
  "asAnswer (XR (RAnswer x)) = Some x" | "asAnswer _ = None"

fun asLock :: "jresp resp \<Rightarrow> (string + bool) option" where
  "asLock (XR (RLock x)) = Some x" | "asLock _ = None"

fun asRevision :: "jresp resp \<Rightarrow> (err + int) option" where
  "asRevision (XR (RRevision x)) = Some x" | "asRevision _ = None"

lemma as_journal [simp]:
  "asTx r = Some a \<longleftrightarrow> r = XR (RTx a)" "asExec r = Some b \<longleftrightarrow> r = XR (RExec b)"
  "asAnswer r = Some c \<longleftrightarrow> r = XR (RAnswer c)" "asLock r = Some d \<longleftrightarrow> r = XR (RLock d)"
  "asRevision r = Some e \<longleftrightarrow> r = XR (RRevision e)"
  by (cases r rule: asTx.cases, simp_all)
    (cases r rule: asExec.cases, simp_all, cases r rule: asAnswer.cases, simp_all,
     cases r rule: asLock.cases, simp_all, cases r rule: asRevision.cases, simp_all)

definition sqlError :: "sqlErr \<Rightarrow> err" where
  "sqlError e = (case e of UniqueViolation \<Rightarrow> ErrDb ''23505'' | SqlErr s \<Rightarrow> ErrDb s)"

abbreviation "jBegin k \<equiv> ask (X Begin) asTx (\<lambda>e. case e of Some x \<Rightarrow> Ret (Inl (ErrDb x)) | None \<Rightarrow> k)"
abbreviation "jCommit k \<equiv> ask (X Commit) asTx (\<lambda>e. case e of Some x \<Rightarrow> Ret (Inl (ErrDb x)) | None \<Rightarrow> k)"
abbreviation "jExec s k \<equiv> ask (X (Exec s)) asExec (\<lambda>r. case r of Inl e \<Rightarrow> Ret (Inl (sqlError e)) | Inr n \<Rightarrow> k n)"
abbreviation "jQuery q k \<equiv> ask (X (Query q)) asAnswer (\<lambda>r. case r of Inl e \<Rightarrow> Ret (Inl (ErrDb e)) | Inr a \<Rightarrow> k a)"
abbreviation "jAuthorize r p k \<equiv> ask (X (Authorize r p)) asRevision (\<lambda>x. tryP x k)"

text \<open>A typed answer to a query; an answer of another kind belongs to another query.\<close>

fun toBool :: "answer \<Rightarrow> bool option" where
  "toBool (ABool b) = Some b" | "toBool _ = None"

fun toRecord :: "answer \<Rightarrow> (startRow \<times> Volume col) option option" where
  "toRecord (ARecord b) = Some b" | "toRecord _ = None"

fun toLatest :: "answer \<Rightarrow> startRow option option" where
  "toLatest (ALatest b) = Some b" | "toLatest _ = None"

fun toWorkspace :: "answer \<Rightarrow> Volume col option option" where
  "toWorkspace (AWorkspace b) = Some b" | "toWorkspace _ = None"

fun toStop :: "answer \<Rightarrow> stopRow option option" where
  "toStop (AStop b) = Some b" | "toStop _ = None"

definition typed :: "(answer \<Rightarrow> 'b option) \<Rightarrow> ('b \<Rightarrow> 'a jtree) \<Rightarrow> answer \<Rightarrow> 'a jtree" where
  "typed to k a = (case to a of None \<Rightarrow> Stuck | Some b \<Rightarrow> k b)"

abbreviation "jBool q k \<equiv> jQuery q (typed toBool k)"

section \<open>Records\<close>

record StartRecord =
  rRun :: Run
  rVolume :: Volume
  rProfileHash :: string
  rInstallationRevision :: int
  rPhase :: string
  rObservation :: Observation
  rRevision :: int

text \<open>The journal: its station, and the worker observer and stopper if configured.\<close>

record journal =
  jStationID :: string
  jObserver :: "(Run \<Rightarrow> Profile \<Rightarrow> Observation \<Rightarrow> string \<Rightarrow> (err + string) jtree) option"
  jStopper :: "(Run \<Rightarrow> Profile \<Rightarrow> Observation \<Rightarrow> string \<Rightarrow> string \<Rightarrow> (err + WorkerStopProof) jtree) option"

definition journalValid :: "lib \<Rightarrow> journal \<Rightarrow> Run \<Rightarrow> Profile \<Rightarrow> bool" where
  "journalValid L J r p \<longleftrightarrow> StationID (runIdentity r) = jStationID J \<and> validIdentity L (runIdentity r) \<and>
     validID L (OperationID r) \<and> Generation r > 0 \<and> ProfileValid L p"

definition instanceKey :: "Run \<Rightarrow> string" where
  "instanceKey r = ''runtime-instance:'' @ StationID (runIdentity r) @ '':'' @ InstanceID (runIdentity r)"

definition workspacesKey :: "Run \<Rightarrow> string" where
  "workspacesKey r = ''runtime-workspaces:'' @ StationID (runIdentity r)"

definition scanRecord :: "lib \<Rightarrow> (startRow \<times> Volume col) option \<Rightarrow> err + StartRecord" where
  "scanRecord L row =
     (case row of
        None \<Rightarrow> Inl ErrNoRows
      | Some (s, binding) \<Rightarrow>
          (case (sInput s, binding, sObservation s) of
             (Json run, Json vol, Json ob) \<Rightarrow>
               if \<not> validObservation L ob \<or> sRevision s < 1 then Inl ErrBinding
               else Inr \<lparr>rRun = run, rVolume = vol, rProfileHash = sProfileHash s,
                 rInstallationRevision = sInstallationRevision s, rPhase = sPhase s, rObservation = ob,
                 rRevision = sRevision s\<rparr>
           | _ \<Rightarrow> Inl ErrBinding))"

definition sameRecord :: "lib \<Rightarrow> StartRecord \<Rightarrow> Run \<Rightarrow> Profile \<Rightarrow> int \<Rightarrow> bool" where
  "sameRecord L rec r p revision \<longleftrightarrow> rRun rec = r \<and> rProfileHash rec = Hash L p \<and> rInstallationRevision rec > 0 \<and>
     rInstallationRevision rec \<le> revision \<and> validVolume L (runIdentity r) p (rVolume rec)"

definition installationMatches :: "Run \<Rightarrow> Profile \<Rightarrow> int \<Rightarrow> (err + unit) jtree" where
  "installationMatches r p revision =
     jBool (QInstallation (InstallationID (runIdentity r)) (StationID (runIdentity r))
       (OrganizationID (runIdentity r)) (pAppID p) revision) (\<lambda>found.
     failIf (revision < 1 \<or> \<not> found) ErrDenied (Ret (Inr ())))"

section \<open>Reservation\<close>

definition workspaceRowOf :: "lib \<Rightarrow> Run \<Rightarrow> Profile \<Rightarrow> Volume \<Rightarrow> workspaceRow" where
  "workspaceRowOf L r p b =
     (let i = runIdentity r in
      \<lparr>wInstanceID = InstanceID i, wStationID = StationID i, wOrganizationID = OrganizationID i, wUserID = UserID i,
       wInstallationID = InstallationID i, wProfileHash = Hash L p, wNamespace = pNamespace p, wPVCName = PVCName b,
       wPVCUID = PVCUID b, wPVName = PVName b, wPVUID = PVUID b, wBinding = Json b\<rparr>)"

text \<open>An inspection that reports missing capacity is repeated behind \<open>EnsurePoolClaim\<close>.\<close>

definition inspectOrCreate :: "lib \<Rightarrow> Run \<Rightarrow> Profile \<Rightarrow> string \<Rightarrow> (err + Volume \<Rightarrow> (err + 'a) jtree) \<Rightarrow> (err + 'a) jtree" where
  "inspectOrCreate L r p claim k =
     bindP (InspectVolume L (runIdentity r) p claim None (\<lambda>_. False)) (\<lambda>res.
     if res = Inl ErrCapacity then
       bindP (EnsurePoolClaim (StationID (runIdentity r)) (pNamespace p) (pPool p) claim) (\<lambda>e. case e of
           Some x \<Rightarrow> Ret (Inl x)
         | None \<Rightarrow> bindP (InspectVolume L (runIdentity r) p claim None (\<lambda>_. False)) k)
     else k res)"

fun reserveLoop :: "lib \<Rightarrow> Run \<Rightarrow> Profile \<Rightarrow> string list \<Rightarrow> (err + Volume) jtree" where
  "reserveLoop L r p [] = Ret (Inl ErrCapacity)"
| "reserveLoop L r p (claim # claims) =
     jBool (QClaimUsed (StationID (runIdentity r)) (pNamespace p) claim) (\<lambda>used.
     if used then reserveLoop L r p claims
     else inspectOrCreate L r p claim (\<lambda>res. case res of
         Inl e \<Rightarrow> if e = ErrBinding \<or> e = ErrBusy \<or> e = ErrCapacity then reserveLoop L r p claims else Ret (Inl e)
       | Inr b \<Rightarrow>
           jBool (QUidUsed (PVCUID b) (PVUID b)) (\<lambda>used.
           if used then reserveLoop L r p claims
           else jExec (InsertWorkspace (workspaceRowOf L r p b)) (\<lambda>_. Ret (Inr b)))))"

text \<open>A binding of another profile: it is rebound when the claim of the same name now passes
  the inspection under the new profile, on the same volume.\<close>

definition rebind :: "lib \<Rightarrow> Run \<Rightarrow> Profile \<Rightarrow> Volume \<Rightarrow> (err + Volume) jtree" where
  "rebind L r p b =
     failIf (volIdentity b \<noteq> runIdentity r \<or> \<not> validUID L (PVUID b) \<or> PVName b = []) ErrBinding
     (kGetPVC (pNamespace p) (PVCName b) (\<lambda>got. case got of
         Inl _ \<Rightarrow> Ret (Inl ErrBinding)
       | Inr c \<Rightarrow>
           failIf (\<not> validUID L (UID (pvcMeta c))) ErrBinding
           (let candidate = \<lparr>volIdentity = runIdentity r, ProfileHash = Hash L p, PVCName = PVCName b,
                  PVCUID = UID (pvcMeta c), PVName = PVName b, PVUID = PVUID b\<rparr> in
            bindP (InspectVolume L (runIdentity r) p (PVCName b) (Some candidate) (\<lambda>_. False)) (\<lambda>res. case res of
                Inl _ \<Rightarrow> Ret (Inl ErrBinding)
              | Inr inspected \<Rightarrow>
                  jExec (UpdateWorkspace (InstanceID (runIdentity r)) (Hash L p) (pNamespace p) (PVCName inspected)
                    (PVCUID inspected) (Json inspected)) (\<lambda>_. Ret (Inr inspected))))))"

definition reserve :: "lib \<Rightarrow> Run \<Rightarrow> Profile \<Rightarrow> (err + Volume) jtree" where
  "reserve L r p =
     ask (X (XactLock (workspacesKey r))) asTx (\<lambda>e. case e of Some x \<Rightarrow> Ret (Inl (ErrDb x)) | None \<Rightarrow>
     jQuery (QWorkspace (InstanceID (runIdentity r))) (typed toWorkspace (\<lambda>raw. case raw of
         Some col \<Rightarrow>
           (case col of
              Garbage \<Rightarrow> Ret (Inl ErrBinding)
            | Json b \<Rightarrow> if validVolume L (runIdentity r) p b then Ret (Inr b) else rebind L r p b)
       | None \<Rightarrow> reserveLoop L r p (pClaims p))))"

section \<open>Accepting a start\<close>

text \<open>The observation a new generation starts from: the credential of the previous one.\<close>

definition initialObservation :: "lib \<Rightarrow> Run \<Rightarrow> Profile \<Rightarrow> startRow option \<Rightarrow> (err + Observation) jtree" where
  "initialObservation L r p previous =
     (case previous of
        None \<Rightarrow> failIf (Generation r \<noteq> 1) ErrConflict (Ret (Inr noObservation))
      | Some s \<Rightarrow>
          failIf (sPhase s \<noteq> ''stopped'' \<or> sGeneration s \<ge> Generation r \<or> i64 (Generation r - sGeneration s) \<noteq> 1) ErrConflict
          (case sObservation s of
             Garbage \<Rightarrow> Ret (Inl ErrBinding)
           | Json prior \<Rightarrow>
               failIf (\<not> validObservation L prior \<or> SecretUID prior = []) ErrBinding
               (if sProfileHash s = Hash L p then Ret (Inr (noObservation\<lparr>SecretUID := SecretUID prior\<rparr>))
                else kGetSecret (pNamespace p) (instanceName (runIdentity r)) (\<lambda>got. case got of
                    Inr sec \<Rightarrow>
                      if secretMatches L sec (runIdentity r) p []
                      then Ret (Inr (noObservation\<lparr>SecretUID := UID (secMeta sec)\<rparr>)) else Ret (Inr noObservation)
                  | Inl e \<Rightarrow> if e \<noteq> NotFound then Ret (Inl (ErrKube e)) else Ret (Inr noObservation)))))"

definition acceptedRow :: "lib \<Rightarrow> Run \<Rightarrow> Profile \<Rightarrow> int \<Rightarrow> Observation \<Rightarrow> startRow" where
  "acceptedRow L r p revision initial =
     \<lparr>sOperationID = OperationID r, sInstanceID = InstanceID (runIdentity r), sGeneration = Generation r,
      sInstallationRevision = revision, sProfileHash = Hash L p, sInput = Json r, sPhase = ''accepted'',
      sObservation = Json (persisted initial), sRevision = 1\<rparr>"

definition acceptNew :: "lib \<Rightarrow> Run \<Rightarrow> Profile \<Rightarrow> int \<Rightarrow> (err + StartRecord) jtree" where
  "acceptNew L r p revision =
     jQuery (QLatest (InstanceID (runIdentity r))) (typed toLatest (\<lambda>previous.
     thenP (initialObservation L r p previous) (\<lambda>initial.
     thenP (reserve L r p) (\<lambda>b.
     jExec (InsertStart (acceptedRow L r p revision initial)) (\<lambda>_.
     jCommit (Ret (Inr \<lparr>rRun = r, rVolume = b, rProfileHash = Hash L p, rInstallationRevision = revision,
       rPhase = ''accepted'', rObservation = initial, rRevision = 1\<rparr>)))))))"

definition Accept :: "lib \<Rightarrow> journal \<Rightarrow> Run \<Rightarrow> Profile \<Rightarrow> (err + StartRecord) jtree" where
  "Accept L J r p =
     failIf (\<not> journalValid L J r p) ErrInvalid
     (jBegin
     (ask (X (TryXactLock (instanceKey r))) asLock (\<lambda>l. case l of Inl e \<Rightarrow> Ret (Inl (ErrDb e)) | Inr locked \<Rightarrow>
     failIf (\<not> locked) ErrBusy
     (jAuthorize r p (\<lambda>revision.
     thenP (installationMatches r p revision) (\<lambda>_.
     jQuery (QRecord (OperationID r)) (typed toRecord (\<lambda>row. case scanRecord L row of
         Inr old \<Rightarrow> failIf (\<not> sameRecord L old r p revision) ErrConflict (jCommit (Ret (Inr old)))
       | Inl e \<Rightarrow> if e \<noteq> ErrNoRows then Ret (Inl e) else acceptNew L r p revision))))))))"

section \<open>Checkpoints and locked visits\<close>

definition monotonicObservation :: "lib \<Rightarrow> Observation \<Rightarrow> Observation \<Rightarrow> bool" where
  "monotonicObservation L previous next \<longleftrightarrow>
     (if \<not> validObservation L previous \<or> \<not> validObservation L next then False
      else (SecretUID previous = [] \<or> SecretUID previous = SecretUID next) \<and>
        (ServiceUID previous = [] \<or> ServiceUID previous = ServiceUID next) \<and>
        (PodUID previous = [] \<or> PodUID previous = PodUID next) \<and>
        (BootID previous = [] \<or> BootID previous = BootID next))"

definition recordKey :: "StartRecord \<Rightarrow> startKey" where
  "recordKey rec = \<lparr>kOperationID = OperationID (rRun rec), kInstanceID = InstanceID (runIdentity (rRun rec)),
     kGeneration = Generation (rRun rec), kProfileHash = rProfileHash rec,
     kInstallationRevision = rInstallationRevision rec, kRevision = rRevision rec\<rparr>"

definition checkpoint :: "lib \<Rightarrow> StartRecord \<Rightarrow> Observation \<Rightarrow> (err option \<times> StartRecord) jtree" where
  "checkpoint L rec next =
     (if \<not> monotonicObservation L (rObservation rec) next \<or> (rPhase rec \<noteq> ''accepted'' \<and> rPhase rec \<noteq> ''launching'')
      then Ret (Some ErrBinding, rec)
      else if BootID next \<noteq> [] \<and> \<not> PodReady next then Ret (Some ErrNotReady, rec)
      else (let phase = (if BootID next \<noteq> [] then ''running'' else ''launching'') in
        ask (X (Exec (UpdateStart next phase (recordKey rec)))) asExec (\<lambda>res. case res of
            Inl e \<Rightarrow> Ret (Some (sqlError e), rec)
          | Inr n \<Rightarrow>
              if n \<noteq> 1 then Ret (Some ErrConflict, rec)
              else Ret (None, rec\<lparr>rObservation := next, rPhase := phase, rRevision := rRevision rec + 1\<rparr>))))"

text \<open>The visit runs between the session lock and its release; its state is returned only
  without an error.\<close>

definition visitRecord :: "lib \<Rightarrow> Run \<Rightarrow> Profile \<Rightarrow> (StartRecord \<Rightarrow> (err + 'a) jtree) \<Rightarrow> (err + 'a) jtree" where
  "visitRecord L r p visit =
     jAuthorize r p (\<lambda>revision.
     thenP (installationMatches r p revision) (\<lambda>_.
     jQuery (QRecord (OperationID r)) (typed toRecord (\<lambda>row.
     tryP (scanRecord L row) (\<lambda>rec.
     failIf (\<not> sameRecord L rec r p revision) ErrConflict (visit rec))))))"

definition withLockedRecord ::
  "lib \<Rightarrow> journal \<Rightarrow> Run \<Rightarrow> Profile \<Rightarrow> bool \<Rightarrow> (StartRecord \<Rightarrow> (err + 'a) jtree) \<Rightarrow> (err + 'a) jtree" where
  "withLockedRecord L J r p shared visit =
     failIf (\<not> journalValid L J r p) ErrInvalid
     (ask (X (TryLock (instanceKey r) shared)) asLock (\<lambda>l. case l of Inl e \<Rightarrow> Ret (Inl (ErrDb e)) | Inr locked \<Rightarrow>
     failIf (\<not> locked) ErrBusy
     (bindP (visitRecord L r p visit)
       (\<lambda>res. ask (X (Unlock (instanceKey r) shared)) asLock (\<lambda>_. Ret res)))))"

text \<open>\<^verbatim>\<open>Journal.verifyWorker\<close> of \<^verbatim>\<open>worker_probe.go\<close>\<close>

definition verifyWorker :: "lib \<Rightarrow> journal \<Rightarrow> Run \<Rightarrow> Profile \<Rightarrow> StartRecord \<Rightarrow> (err + Observation) jtree" where
  "verifyWorker L J r p rec =
     (case jObserver J of
        None \<Rightarrow> Ret (Inl ErrUnavailable)
      | Some observe \<Rightarrow>
          thenP (ObserveWorker L r p (rVolume rec) (rObservation rec)) (\<lambda>current0.
          let current = current0\<lparr>BootID := BootID (rObservation rec)\<rparr> in
          kGetSecret (pNamespace p) (instanceName (runIdentity r)) (\<lambda>got. case got of
              Inl _ \<Rightarrow> Ret (Inl ErrBinding)
            | Inr sec \<Rightarrow>
                failIf (\<not> secretMatches L sec (runIdentity r) p (SecretUID current)) ErrBinding
                (thenP (observe r p current (get (Data sec) ''worker-token'')) (\<lambda>boot.
                failIf (\<not> validBoot L boot \<or> BootID current \<noteq> [] \<and> BootID current \<noteq> boot) ErrBinding
                (thenP (ObserveWorker L r p (rVolume rec) current) (\<lambda>latest.
                failIf (\<not> PodReady latest) ErrNotReady
                (Ret (Inr (latest\<lparr>BootID := boot\<rparr>))))))))))"

text \<open>The three parts of the visit: the claim of the volume, the worker's objects, and once the
  pod is ready the verified boot.\<close>

definition claimStep :: "lib \<Rightarrow> Run \<Rightarrow> Profile \<Rightarrow> StartRecord \<Rightarrow> (err + unit) jtree" where
  "claimStep L r p rec =
     bindP (volumeClaimed L (runIdentity r) p (rVolume rec)) (\<lambda>res.
     if res = Inl ErrBinding then ClaimVolume L (runIdentity r) p (rVolume rec) else Ret res)"

definition verifyStep :: "lib \<Rightarrow> journal \<Rightarrow> Run \<Rightarrow> Profile \<Rightarrow> StartRecord \<Rightarrow> (err + StartRecord) jtree" where
  "verifyStep L J r p rec =
     (if PodReady (rObservation rec) \<and> jObserver J \<noteq> None then
        thenP (verifyWorker L J r p rec) (\<lambda>verified.
        bindP (checkpoint L rec verified) (\<lambda>(e, rec'). case e of Some x \<Rightarrow> Ret (Inl x) | None \<Rightarrow> Ret (Inr rec')))
      else Ret (Inr rec))"

definition advanceVisit :: "lib \<Rightarrow> journal \<Rightarrow> Run \<Rightarrow> Profile \<Rightarrow> StartRecord \<Rightarrow> (err + StartRecord) jtree" where
  "advanceVisit L J r p rec =
     (if rPhase rec \<noteq> ''accepted'' \<and> rPhase rec \<noteq> ''launching'' \<and> rPhase rec \<noteq> ''running'' then Ret (Inl ErrConflict)
      else if rPhase rec = ''running'' then
        failIf (BootID (rObservation rec) = []) ErrBinding
        (thenP (verifyWorker L J r p rec) (\<lambda>_. Ret (Inr rec)))
      else
        thenP (claimStep L r p rec) (\<lambda>_.
        bindP (EnsureWorker L r p (rVolume rec) (rObservation rec) (checkpoint L) rec) (\<lambda>((_, e), rec').
        case e of Some x \<Rightarrow> Ret (Inl x) | None \<Rightarrow> verifyStep L J r p rec')))"

definition AdvanceResources :: "lib \<Rightarrow> journal \<Rightarrow> Run \<Rightarrow> Profile \<Rightarrow> (err + StartRecord) jtree" where
  "AdvanceResources L J r p = withLockedRecord L J r p False (advanceVisit L J r p)"

definition Start :: "lib \<Rightarrow> journal \<Rightarrow> Run \<Rightarrow> Profile \<Rightarrow> (err + StartRecord) jtree" where
  "Start L J r p =
     failIf (jObserver J = None) ErrUnavailable
     (thenP (Accept L J r p) (\<lambda>_. AdvanceResources L J r p))"

section \<open>Access\<close>

record WorkerAccess =
  waSchemaVersion :: int
  waInstanceID :: string
  waStartOperationID :: string
  waGeneration :: int
  waBootID :: string
  waWorkerOrigin :: string
  waWorkerToken :: string
  waBinding :: ResourceBinding

definition accessValid :: "lib \<Rightarrow> Run \<Rightarrow> Profile \<Rightarrow> WorkerAccess \<Rightarrow> bool" where
  "accessValid L r p v \<longleftrightarrow> waSchemaVersion v = 1 \<and> waInstanceID v = InstanceID (runIdentity r) \<and>
     waStartOperationID v = OperationID r \<and> waGeneration v = Generation r \<and> validBoot L (waBootID v) \<and>
     waWorkerOrigin v = workerOrigin r p \<and> credentialValid (waWorkerToken v) \<and> validUID L (rbPodUID (waBinding v)) \<and>
     rbPodName (waBinding v) = runName r \<and> rbNamespace (waBinding v) = pNamespace p \<and> rbContainer (waBinding v) = ''worker''"

definition accessVisit :: "lib \<Rightarrow> journal \<Rightarrow> Run \<Rightarrow> Profile \<Rightarrow> StartRecord \<Rightarrow> (err + WorkerAccess) jtree" where
  "accessVisit L J r p rec =
     failIf (rPhase rec \<noteq> ''running'' \<or> BootID (rObservation rec) = []) ErrNotReady
     (thenP (verifyWorker L J r p rec) (\<lambda>current.
     kGetSecret (pNamespace p) (instanceName (runIdentity r)) (\<lambda>got. case got of
         Inl _ \<Rightarrow> Ret (Inl ErrBinding)
       | Inr sec \<Rightarrow>
           failIf (\<not> secretMatches L sec (runIdentity r) p (SecretUID current)) ErrBinding
           (Ret (Inr \<lparr>waSchemaVersion = 1, waInstanceID = InstanceID (runIdentity r), waStartOperationID = OperationID r,
             waGeneration = Generation r, waBootID = BootID current, waWorkerOrigin = workerOrigin r p,
             waWorkerToken = get (Data sec) ''worker-token'', waBinding = workerBinding r p (PodUID current)\<rparr>)))))"

definition Access :: "lib \<Rightarrow> journal \<Rightarrow> Run \<Rightarrow> Profile \<Rightarrow> (err + WorkerAccess) jtree" where
  "Access L J r p = withLockedRecord L J r p True (accessVisit L J r p)"

section \<open>Stopping\<close>

record StopRecord =
  stOperationID :: string
  stStartID :: string
  stBootID :: string
  stProgress :: StopProgress
  stRevision :: int

text \<open>The zero value of a proof, which a stop record has until the worker is sealed.\<close>

definition zeroProof :: WorkerStopProof where
  "zeroProof = \<lparr>spSchemaVersion = 0, spInstanceID = [], spStartOperationID = [], spStopOperationID = [], spGeneration = 0,
     spBootID = [], spBinding = \<lparr>rbPodUID = [], rbPodName = [], rbNamespace = [], rbContainer = []\<rparr>, spState = []\<rparr>"

definition scanStop :: "Run \<Rightarrow> Profile \<Rightarrow> StartRecord \<Rightarrow> string \<Rightarrow> string \<Rightarrow> stopRow option \<Rightarrow> err + StopRecord" where
  "scanStop r p rec operation boot row =
     (case row of
        None \<Rightarrow> Inl ErrNoRows
      | Some t \<Rightarrow>
          if tOperationID t \<noteq> operation \<or> tStartOperationID t \<noteq> OperationID r \<or> tBootID t \<noteq> boot \<or>
             boot \<noteq> BootID (rObservation rec) \<or> tRevision t < 1 then Inl ErrConflict
          else if tPhase t = ''accepted'' then
            (if tProof t \<noteq> NoProof \<or> rPhase rec \<noteq> ''stopping'' then Inl ErrBinding
             else Inr \<lparr>stOperationID = tOperationID t, stStartID = tStartOperationID t, stBootID = tBootID t,
               stProgress = \<lparr>Proof = zeroProof, Phase = tPhase t\<rparr>, stRevision = tRevision t\<rparr>)
          else
            (case tProof t of
               ProofCol (Json proof) \<Rightarrow>
                 if map_of stopPhases (tPhase t) = None \<or> proof \<noteq> stopProof r p (rObservation rec) operation \<or>
                    (tPhase t = ''stopped'' \<and> rPhase rec \<noteq> ''stopped'') \<or> (tPhase t \<noteq> ''stopped'' \<and> rPhase rec \<noteq> ''stopping'')
                 then Inl ErrBinding
                 else Inr \<lparr>stOperationID = tOperationID t, stStartID = tStartOperationID t, stBootID = tBootID t,
                   stProgress = \<lparr>Proof = proof, Phase = tPhase t\<rparr>, stRevision = tRevision t\<rparr>
             | _ \<Rightarrow> Inl ErrBinding))"

text \<open>The caller's state of the stop operations: the start record and the stop record.\<close>

type_synonym stopState = "StartRecord \<times> StopRecord"

text \<open>The transaction that accepts a stop: its row, and the phase of its start.\<close>

definition acceptTx :: "Run \<Rightarrow> StartRecord \<Rightarrow> string \<Rightarrow> string \<Rightarrow> (err + stopState) jtree" where
  "acceptTx r rec operation boot =
     jBegin
     (ask (X (Exec (InsertStop operation (OperationID r) boot))) asExec (\<lambda>res. case res of
         Inl e \<Rightarrow> Ret (Inl (if e = UniqueViolation then ErrConflict else sqlError e))
       | Inr _ \<Rightarrow>
     jExec (MarkStopping (OperationID r) (rRevision rec)) (\<lambda>n.
     failIf (n \<noteq> 1) ErrConflict
     (jCommit (Ret (Inr (rec\<lparr>rPhase := ''stopping'', rRevision := rRevision rec + 1\<rparr>,
       \<lparr>stOperationID = operation, stStartID = OperationID r, stBootID = boot,
        stProgress = \<lparr>Proof = zeroProof, Phase = ''accepted''\<rparr>, stRevision = 1\<rparr>)))))))"

definition acceptStop :: "Run \<Rightarrow> Profile \<Rightarrow> StartRecord \<Rightarrow> string \<Rightarrow> string \<Rightarrow> (err + stopState) jtree" where
  "acceptStop r p rec operation boot =
     jQuery (QStop operation) (typed toStop (\<lambda>row. case scanStop r p rec operation boot row of
         Inr s \<Rightarrow> Ret (Inr (rec, s))
       | Inl e \<Rightarrow>
           if e \<noteq> ErrNoRows then Ret (Inl e)
           else failIf (rPhase rec \<noteq> ''running'' \<or> BootID (rObservation rec) \<noteq> boot) ErrConflict
             (acceptTx r rec operation boot)))"

definition stopStepOk :: "StopRecord \<Rightarrow> StopProgress \<Rightarrow> bool" where
  "stopStepOk s next \<longleftrightarrow>
     (if Phase (stProgress s) \<noteq> ''accepted'' then
        (case (map_of stopPhases (Phase (stProgress s)), map_of stopPhases (Phase next)) of
           (Some before, Some after) \<Rightarrow> after = before + 1 \<and> Proof next = Proof (stProgress s)
         | _ \<Rightarrow> False)
      else Phase next = ''sealed'')"

text \<open>The transaction of a step: the stop row, and with the last step its start.\<close>

definition stopTx :: "stopState \<Rightarrow> StopProgress \<Rightarrow> (err + stopState) jtree" where
  "stopTx c next =
     (let rec = fst c; s = snd c in
      jBegin
      (jExec (UpdateStop (Phase next) (Proof next) (stOperationID s) (stRevision s) (Phase (stProgress s))) (\<lambda>n.
       failIf (n \<noteq> 1) ErrConflict
       (if Phase next = ''stopped'' then
          jExec (MarkStopped (OperationID (rRun rec)) (rRevision rec)) (\<lambda>n.
          failIf (n \<noteq> 1) ErrConflict
          (jCommit (Ret (Inr (rec\<lparr>rPhase := ''stopped'', rRevision := rRevision rec + 1\<rparr>,
            s\<lparr>stProgress := next, stRevision := stRevision s + 1\<rparr>)))))
        else jCommit (Ret (Inr (rec, s\<lparr>stProgress := next, stRevision := stRevision s + 1\<rparr>)))))))"

definition checkpointStop :: "stopState \<Rightarrow> StopProgress \<Rightarrow> (err option \<times> stopState) jtree" where
  "checkpointStop c next =
     (if \<not> stopStepOk (snd c) next \<or> rPhase (fst c) \<noteq> ''stopping'' \<or>
         spStopOperationID (Proof next) \<noteq> stOperationID (snd c) \<or> spBootID (Proof next) \<noteq> stBootID (snd c)
      then Ret (Some ErrConflict, c)
      else bindP (stopTx c next) (\<lambda>res. case res of Inl e \<Rightarrow> Ret (Some e, c) | Inr c' \<Rightarrow> Ret (None, c')))"

definition sealVisit :: "lib \<Rightarrow> (Run \<Rightarrow> Profile \<Rightarrow> Observation \<Rightarrow> string \<Rightarrow> string \<Rightarrow> (err + WorkerStopProof) jtree)
     \<Rightarrow> Run \<Rightarrow> Profile \<Rightarrow> string \<Rightarrow> stopState \<Rightarrow> (err + stopState) jtree" where
  "sealVisit L stopper r p operation c =
     (let rec = fst c in
      thenP (ObserveWorker L r p (rVolume rec) (rObservation rec)) (\<lambda>_.
      kGetSecret (pNamespace p) (instanceName (runIdentity r)) (\<lambda>got. case got of
          Inl _ \<Rightarrow> Ret (Inl ErrBinding)
        | Inr sec \<Rightarrow>
      failIf (\<not> secretMatches L sec (runIdentity r) p (SecretUID (rObservation rec))) ErrBinding
      (thenP (stopper r p (rObservation rec) (get (Data sec) ''worker-token'') operation) (\<lambda>proof.
      failIf (proof \<noteq> stopProof r p (rObservation rec) operation) ErrBinding
      (thenP (ObserveWorker L r p (rVolume rec) (rObservation rec)) (\<lambda>_.
      bindP (checkpointStop c \<lparr>Proof = proof, Phase = ''sealed''\<rparr>) (\<lambda>(e, c').
      case e of Some x \<Rightarrow> Ret (Inl x) | None \<Rightarrow> Ret (Inr c')))))))))"

definition stopVisit :: "lib \<Rightarrow> (Run \<Rightarrow> Profile \<Rightarrow> Observation \<Rightarrow> string \<Rightarrow> string \<Rightarrow> (err + WorkerStopProof) jtree)
     \<Rightarrow> Run \<Rightarrow> Profile \<Rightarrow> string \<Rightarrow> string \<Rightarrow> StartRecord \<Rightarrow> (err + StopRecord) jtree" where
  "stopVisit L stopper r p operation boot rec =
     thenP (acceptStop r p rec operation boot) (\<lambda>c.
     if Phase (stProgress (snd c)) = ''stopped'' then Ret (Inr (snd c))
     else thenP (if Phase (stProgress (snd c)) = ''accepted'' then sealVisit L stopper r p operation c else Ret (Inr c)) (\<lambda>c.
       bindP (RemoveWorker L r p (rVolume (fst c)) (rObservation (fst c)) checkpointStop (stProgress (snd c)) c)
         (\<lambda>((_, e), c'). case e of Some x \<Rightarrow> Ret (Inl x) | None \<Rightarrow> Ret (Inr (snd c')))))"

definition Stop :: "lib \<Rightarrow> journal \<Rightarrow> Run \<Rightarrow> Profile \<Rightarrow> string \<Rightarrow> string \<Rightarrow> (err + StopRecord) jtree" where
  "Stop L J r p operation boot =
     (case jStopper J of
        None \<Rightarrow> Ret (Inl ErrInvalid)
      | Some stopper \<Rightarrow>
          failIf (\<not> validID L operation \<or> operation = OperationID r \<or> \<not> validBoot L boot) ErrInvalid
          (withLockedRecord L J r p False (stopVisit L stopper r p operation boot)))"

end
