(* ===== verification/AppWorld.thy ===== *)
theory AppWorld
  imports AppJournal
begin

text \<open>
  The world the journal runs in. \<open>world\<close> is the committed database, the statements of the
  open transaction and the advisory locks held. \<open>effect\<close> says what a request may do,
  failures and lost replies included; \<open>rely\<close> what other sessions may do between two
  requests: they keep the invariant \<open>Inv\<close>, and they leave alone what a held lock protects.
  \<open>okStep\<close> is what this session guarantees in turn for every commit of its own.

  The parameter \<open>A\<close> of \<open>effect\<close> stands for the constraints of the database schema, which
  is not part of the repository: \<open>A d s\<close> says that statement \<open>s\<close> violates none on the
  tables \<open>d\<close>. What the code relies on is \<open>primaryKeys\<close>.
\<close>

section \<open>The invariant of the tables\<close>

definition phaseOrder :: "string list" where
  "phaseOrder = [''accepted'', ''launching'', ''running'', ''stopping'', ''stopped'']"

definition rank :: "string \<Rightarrow> nat" where
  "rank ph = length (takeWhile (\<lambda>x. x \<noteq> ph) phaseOrder)"

text \<open>The columns of a start agree with its stored input.\<close>

definition rowOk :: "startRow \<Rightarrow> bool" where
  "rowOk s \<longleftrightarrow> 1 \<le> sGeneration s \<and> sPhase s \<in> set phaseOrder \<and>
     (\<forall>run. sInput s = Json run \<longrightarrow> OperationID run = sOperationID s \<and> InstanceID (runIdentity run) = sInstanceID s \<and>
       Generation run = sGeneration s) \<and>
     (\<forall>ob. sObservation s = Json ob \<longrightarrow> Endpoint ob = [])"

text \<open>Generations are used once per instance, and each but the first has a stopped predecessor.\<close>

definition generationsOk :: "startRow list \<Rightarrow> bool" where
  "generationsOk ss \<longleftrightarrow> distinct (map (\<lambda>s. (sInstanceID s, sGeneration s)) ss) \<and>
     (\<forall>s \<in> set ss. sGeneration s \<noteq> 1 \<longrightarrow>
       (\<exists>s' \<in> set ss. sInstanceID s' = sInstanceID s \<and> sGeneration s' = sGeneration s - 1 \<and> sPhase s' = ''stopped''))"

text \<open>A start has a stop exactly when it is stopping or stopped, and both end together.\<close>

definition stopsOk :: "startRow list \<Rightarrow> stopRow list \<Rightarrow> bool" where
  "stopsOk ss ts \<longleftrightarrow> distinct (map tStartOperationID ts) \<and> distinct (map tOperationID ts) \<and>
     (\<forall>t \<in> set ts. \<exists>s \<in> set ss. sOperationID s = tStartOperationID t \<and>
       sPhase s = (if tPhase t = ''stopped'' then ''stopped'' else ''stopping'')) \<and>
     (\<forall>s \<in> set ss. sPhase s \<in> {''stopping'', ''stopped''} \<longrightarrow> (\<exists>t \<in> set ts. tStartOperationID t = sOperationID s))"

definition pvUIDs :: "db \<Rightarrow> string list" where
  "pvUIDs d = map wPVUID (workspaces d) @ map lPVUID (legacy d)"

definition Inv :: "db \<Rightarrow> bool" where
  "Inv d \<longleftrightarrow> distinct (map sOperationID (starts d)) \<and> (\<forall>s \<in> set (starts d). rowOk s) \<and> generationsOk (starts d) \<and>
     stopsOk (starts d) (stops d) \<and> distinct (pvUIDs d) \<and> distinct (map wInstanceID (workspaces d))"

section \<open>Progress and locality of a step\<close>

text \<open>What is recorded stays: identifiers never change once set.\<close>

definition keepsUID :: "string \<Rightarrow> string \<Rightarrow> bool" where
  "keepsUID a b \<longleftrightarrow> a = [] \<or> a = b"

definition obsLE :: "Observation \<Rightarrow> Observation \<Rightarrow> bool" where
  "obsLE a b \<longleftrightarrow> keepsUID (SecretUID a) (SecretUID b) \<and> keepsUID (ServiceUID a) (ServiceUID b) \<and>
     keepsUID (PodUID a) (PodUID b) \<and> keepsUID (BootID a) (BootID b)"

definition rowLE :: "startRow \<Rightarrow> startRow \<Rightarrow> bool" where
  "rowLE s s' \<longleftrightarrow> sOperationID s' = sOperationID s \<and> sInstanceID s' = sInstanceID s \<and> sGeneration s' = sGeneration s \<and>
     sInstallationRevision s' = sInstallationRevision s \<and> sProfileHash s' = sProfileHash s \<and> sInput s' = sInput s \<and>
     rank (sPhase s) \<le> rank (sPhase s') \<and> sRevision s \<le> sRevision s' \<and>
     (\<forall>ob. sObservation s = Json ob \<longrightarrow> (\<exists>ob'. sObservation s' = Json ob' \<and> obsLE ob ob'))"

definition advances :: "db \<Rightarrow> db \<Rightarrow> bool" where
  "advances d d' \<longleftrightarrow> (\<forall>s \<in> set (starts d). \<exists>s' \<in> set (starts d'). rowLE s s')"

definition startsOf :: "string \<Rightarrow> db \<Rightarrow> startRow list" where
  "startsOf inst d = filter (\<lambda>s. sInstanceID s = inst) (starts d)"

definition stopsOf :: "string \<Rightarrow> db \<Rightarrow> stopRow list" where
  "stopsOf inst d = filter (\<lambda>t. tStartOperationID t \<in> sOperationID ` set (startsOf inst d)) (stops d)"

definition workspacesOf :: "string \<Rightarrow> db \<Rightarrow> workspaceRow list" where
  "workspacesOf inst d = filter (\<lambda>w. wInstanceID w = inst) (workspaces d)"

definition sameInstance :: "string \<Rightarrow> db \<Rightarrow> db \<Rightarrow> bool" where
  "sameInstance inst d d' \<longleftrightarrow> startsOf inst d' = startsOf inst d \<and> stopsOf inst d' = stopsOf inst d \<and>
     workspacesOf inst d' = workspacesOf inst d"

text \<open>The guarantee of a commit in a session for instance \<open>inst\<close>.\<close>

definition okStep :: "string \<Rightarrow> db \<Rightarrow> db \<Rightarrow> bool" where
  "okStep inst d d' \<longleftrightarrow> Inv d' \<and> advances d d' \<and> legacy d' = legacy d \<and> (\<forall>i. i \<noteq> inst \<longrightarrow> sameInstance i d d')"

section \<open>Requests in the world\<close>

record world =
  committed :: db
  pending :: "sql list option"
  held :: "string set"
  xheld :: "string set"

text \<open>The locks of the session and those of its open transaction, which end with it.\<close>

definition locks :: "world \<Rightarrow> string set" where
  "locks w = held w \<union> xheld w"

definition execAll :: "sql list \<Rightarrow> db \<Rightarrow> db" where
  "execAll ss d = fold (\<lambda>s d. fst (execSql s d)) ss d"

definition view :: "world \<Rightarrow> db" where
  "view w = (case pending w of None \<Rightarrow> committed w | Some ss \<Rightarrow> execAll ss (committed w))"

definition perform :: "sql \<Rightarrow> world \<Rightarrow> world" where
  "perform s w =
     (case pending w of
        None \<Rightarrow> w\<lparr>committed := fst (execSql s (committed w))\<rparr>
      | Some ss \<Rightarrow> w\<lparr>pending := Some (ss @ [s])\<rparr>)"

definition commitAll :: "world \<Rightarrow> world" where
  "commitAll w = w\<lparr>committed := view w, pending := None, xheld := {}\<rparr>"

inductive effect :: "(db \<Rightarrow> sql \<Rightarrow> bool) \<Rightarrow> world \<Rightarrow> jreq req \<Rightarrow> jresp resp \<Rightarrow> world \<Rightarrow> bool" for A where
  kube: "effect A w (K q) (KR r) w"
| begin_ok: "effect A w (X Begin) (XR (RTx None)) (w\<lparr>pending := Some []\<rparr>)"
| begin_fail: "effect A w (X Begin) (XR (RTx (Some e))) w"
| commit_ok: "effect A w (X Commit) (XR (RTx None)) (commitAll w)"
| commit_lost: "effect A w (X Commit) (XR (RTx (Some e))) (commitAll w)"
| commit_fail: "effect A w (X Commit) (XR (RTx (Some e))) (w\<lparr>pending := None, xheld := {}\<rparr>)"
| exec_ok: "A (view w) s \<Longrightarrow> effect A w (X (Exec s)) (XR (RExec (Inr (snd (execSql s (view w)))))) (perform s w)"
| exec_lost: "A (view w) s \<Longrightarrow> effect A w (X (Exec s)) (XR (RExec (Inl e))) (perform s w)"
| exec_fail: "effect A w (X (Exec s)) (XR (RExec (Inl e))) w"
| query_ok: "effect A w (X (Query q)) (XR (RAnswer (Inr (answerTo q (view w))))) w"
| query_fail: "effect A w (X (Query q)) (XR (RAnswer (Inl e))) w"
| lock_ok: "effect A w (X (TryLock k sh)) (XR (RLock (Inr True))) (w\<lparr>held := insert k (held w)\<rparr>)"
| lock_busy: "effect A w (X (TryLock k sh)) (XR (RLock (Inr False))) w"
| lock_fail: "effect A w (X (TryLock k sh)) (XR (RLock (Inl e))) w"
| tryxact_ok: "effect A w (X (TryXactLock k)) (XR (RLock (Inr True))) (w\<lparr>xheld := insert k (xheld w)\<rparr>)"
| tryxact_busy: "effect A w (X (TryXactLock k)) (XR (RLock (Inr False))) w"
| tryxact_fail: "effect A w (X (TryXactLock k)) (XR (RLock (Inl e))) w"
| xact_ok: "effect A w (X (XactLock k)) (XR (RTx None)) (w\<lparr>xheld := insert k (xheld w)\<rparr>)"
| xact_fail: "effect A w (X (XactLock k)) (XR (RTx (Some e))) w"
| unlock: "effect A w (X (Unlock k sh)) (XR (RLock r)) (w\<lparr>held := held w - {k}\<rparr>)"
| authorize: "effect A w (X (Authorize run p)) (XR (RRevision r)) w"

inductive_simps effect_K [simp]: "effect A w (K q) r w'"
inductive_simps effect_Begin [simp]: "effect A w (X Begin) r w'"
inductive_simps effect_Commit [simp]: "effect A w (X Commit) r w'"
inductive_simps effect_Exec [simp]: "effect A w (X (Exec s)) r w'"
inductive_simps effect_Query [simp]: "effect A w (X (Query q)) r w'"
inductive_simps effect_TryLock [simp]: "effect A w (X (TryLock k sh)) r w'"
inductive_simps effect_TryXactLock [simp]: "effect A w (X (TryXactLock k)) r w'"
inductive_simps effect_XactLock [simp]: "effect A w (X (XactLock k)) r w'"
inductive_simps effect_Unlock [simp]: "effect A w (X (Unlock k sh)) r w'"
inductive_simps effect_Authorize [simp]: "effect A w (X (Authorize run p)) r w'"

text \<open>The primary keys of the schema: an operation identifier is stored once.\<close>

definition primaryKeys :: "(db \<Rightarrow> sql \<Rightarrow> bool) \<Rightarrow> bool" where
  "primaryKeys A \<longleftrightarrow>
     (\<forall>d s. A d (InsertStart s) \<longrightarrow> sOperationID s \<notin> sOperationID ` set (starts d)) \<and>
     (\<forall>d op start boot. A d (InsertStop op start boot) \<longrightarrow> op \<notin> tOperationID ` set (stops d))"

text \<open>The key an uncommitted insert occupies: no other session can commit the same one.\<close>

definition occupied :: "sql list option \<Rightarrow> db \<Rightarrow> bool" where
  "occupied p d \<longleftrightarrow>
     (case p of None \<Rightarrow> True | Some ss \<Rightarrow>
       (\<forall>s. InsertStart s \<in> set ss \<longrightarrow> sOperationID s \<notin> sOperationID ` set (starts d)) \<and>
       (\<forall>op start boot. InsertStop op start boot \<in> set ss \<longrightarrow> op \<notin> tOperationID ` set (stops d)))"

definition instKey :: "string \<Rightarrow> string \<Rightarrow> string" where
  "instKey st inst = ''runtime-instance:'' @ st @ '':'' @ inst"

definition poolLock :: "string \<Rightarrow> string" where
  "poolLock st = ''runtime-workspaces:'' @ st"

definition rely :: "string \<Rightarrow> world \<Rightarrow> world \<Rightarrow> bool" where
  "rely st w w' \<longleftrightarrow> (Inv (committed w) \<longrightarrow> Inv (committed w')) \<and> pending w' = pending w \<and> held w' = held w \<and> xheld w' = xheld w \<and>
     (\<forall>inst. instKey st inst \<in> locks w \<longrightarrow> sameInstance inst (committed w) (committed w')) \<and>
     (poolLock st \<in> locks w \<longrightarrow> set (pvUIDs (committed w')) \<subseteq> set (pvUIDs (committed w))) \<and>
     (occupied (pending w) (committed w) \<longrightarrow> occupied (pending w') (committed w'))"

definition env :: "(db \<Rightarrow> sql \<Rightarrow> bool) \<Rightarrow> string \<Rightarrow> world \<Rightarrow> jreq req \<Rightarrow> jresp resp \<Rightarrow> world \<Rightarrow> bool" where
  "env A st w q r w' \<longleftrightarrow> (\<exists>w1. effect A w q r w1 \<and> rely st w1 w')"

text \<open>The guarantee of a session for what it commits: an \<open>okStep\<close> for the instance whose
  lock it holds, with new volumes only under the pool lock.\<close>

definition guarantee :: "string \<Rightarrow> string \<Rightarrow> world \<Rightarrow> db \<Rightarrow> bool" where
  "guarantee st inst w d' \<longleftrightarrow> okStep inst (committed w) d' \<and> instKey st inst \<in> locks w \<and>
     (poolLock st \<in> locks w \<or> set (pvUIDs d') \<subseteq> set (pvUIDs (committed w)))"

text \<open>What must hold when a request is issued: a commit keeps the guarantee, a change of the
  cluster satisfies the guard \<open>G\<close>.\<close>

definition permitted :: "string \<Rightarrow> string \<Rightarrow> (world \<Rightarrow> kreq \<Rightarrow> bool) \<Rightarrow> world \<Rightarrow> jreq req \<Rightarrow> bool" where
  "permitted st inst G w q =
     (case q of
        K k \<Rightarrow> mutates k \<longrightarrow> G w k
      | X (Exec s) \<Rightarrow> pending w = None \<longrightarrow> guarantee st inst w (fst (execSql s (committed w)))
      | X Commit \<Rightarrow> guarantee st inst w (view w)
      | _ \<Rightarrow> True)"

lemma permitted_simps [simp]:
  "permitted st inst G w (K k) \<longleftrightarrow> (mutates k \<longrightarrow> G w k)"
  "permitted st inst G w (X Begin)" "permitted st inst G w (X (Query qq))" "permitted st inst G w (X (TryLock k' sh))"
  "permitted st inst G w (X (TryXactLock k'))" "permitted st inst G w (X (XactLock k'))"
  "permitted st inst G w (X (Unlock k' sh))" "permitted st inst G w (X (Authorize r p))"
  "permitted st inst G w (X Commit) \<longleftrightarrow> guarantee st inst w (view w)"
  "permitted st inst G w (X (Exec s)) \<longleftrightarrow>
     (pending w = None \<longrightarrow> guarantee st inst w (fst (execSql s (committed w))))"
  by (simp_all add: permitted_def)

text \<open>The guarantee of one session is what the others rely on, as long as locks exclude each
  other and no committed key equals one that another transaction has inserted.\<close>

lemma guarantee_rely:
  assumes "guarantee st inst w d'" and "committed other = committed w" and "locks w \<inter> locks other = {}"
    and "occupied (pending other) (committed other) \<Longrightarrow> occupied (pending other) d'"
  shows "rely st other (other\<lparr>committed := d'\<rparr>)"
proof -
  from assms(1) have ok: "okStep inst (committed w) d'" and lock: "instKey st inst \<in> locks w"
    and pool: "poolLock st \<in> locks w \<or> set (pvUIDs d') \<subseteq> set (pvUIDs (committed w))" by (simp_all add: guarantee_def)
  have "sameInstance i (committed other) d'" if "instKey st i \<in> locks other" for i
  proof -
    have "i \<noteq> inst" using that lock assms(3) by blast
    with ok assms(2) show ?thesis by (simp add: okStep_def)
  qed
  moreover have "set (pvUIDs d') \<subseteq> set (pvUIDs (committed other))" if "poolLock st \<in> locks other"
    using that pool assms(2,3) by auto
  ultimately show ?thesis using ok assms(4) by (simp add: rely_def okStep_def)
qed

section \<open>Facts about the invariant\<close>

lemma rank_simps [simp]:
  "rank ''accepted'' = 0" "rank ''launching'' = 1" "rank ''running'' = 2" "rank ''stopping'' = 3" "rank ''stopped'' = 4"
  by (simp_all add: rank_def phaseOrder_def)

lemma keepsUID_refl [simp]: "keepsUID a a" by (simp add: keepsUID_def)
lemma obsLE_refl [simp]: "obsLE a a" by (simp add: obsLE_def)
lemma rowLE_refl [simp]: "rowLE s s" by (simp add: rowLE_def)

lemma advances_refl [simp]: "advances d d"
  by (auto simp: advances_def intro: rowLE_refl)

lemma Inv_start_unique:
  "Inv d \<Longrightarrow> s \<in> set (starts d) \<Longrightarrow> s' \<in> set (starts d) \<Longrightarrow> sOperationID s = sOperationID s' \<Longrightarrow> s = s'"
  by (auto simp: Inv_def distinct_map inj_on_def)

text \<open>Below a start, every generation of its instance is stopped.\<close>

lemma older_stopped:
  assumes "Inv d" and "s \<in> set (starts d)" and "s' \<in> set (starts d)" and "sInstanceID s' = sInstanceID s"
    and "sGeneration s' < sGeneration s"
  shows "sPhase s' = ''stopped''"
  using assms(2-5)
proof (induction "nat (sGeneration s)" arbitrary: s rule: less_induct)
  case less
  have "1 \<le> sGeneration s'" using assms(1) less.prems(2) by (auto simp: Inv_def rowOk_def)
  with less.prems(4) have "sGeneration s \<noteq> 1" by simp
  with assms(1) less.prems(1) obtain t where t: "t \<in> set (starts d)" "sInstanceID t = sInstanceID s"
      "sGeneration t = sGeneration s - 1" "sPhase t = ''stopped''"
    by (auto simp: Inv_def generationsOk_def)
  show ?case
  proof (cases "sGeneration s' = sGeneration t")
    case True
    then have "s' = t"
      using assms(1) t less.prems by (auto simp: Inv_def generationsOk_def distinct_map inj_on_def)
    with t show ?thesis by simp
  next
    case False
    have "nat (sGeneration t) < nat (sGeneration s)" using t(3) \<open>1 \<le> sGeneration s'\<close> less.prems(4) by simp
    moreover have "sGeneration s' < sGeneration t" using False t(3) less.prems(4) by simp
    ultimately show ?thesis using less.hyps [of t] t less.prems by simp
  qed
qed

lemma single_active:
  assumes "Inv d" and "s \<in> set (starts d)" and "s' \<in> set (starts d)" and "sInstanceID s' = sInstanceID s"
    and "sPhase s \<noteq> ''stopped''" and "sPhase s' \<noteq> ''stopped''"
  shows "s' = s"
proof -
  have "sGeneration s' = sGeneration s"
    using older_stopped [OF assms(1-4)] older_stopped [OF assms(1) assms(3) assms(2)] assms(4-6) by force
  then show ?thesis
    using assms by (auto simp: Inv_def generationsOk_def distinct_map inj_on_def)
qed

section \<open>Updates of the start table\<close>

lemma set_updateWhere: "set (updateWhere m f xs) = (\<lambda>x. if m x then f x else x) ` set xs"
  by (simp add: updateWhere_def)

lemma map_updateWhere: "(\<And>x. m x \<Longrightarrow> g (f x) = g x) \<Longrightarrow> map g (updateWhere m f xs) = map g xs"
  by (simp add: updateWhere_def)

lemma filter_updateWhere:
  "(\<And>x. m x \<Longrightarrow> \<not> P x \<and> \<not> P (f x)) \<Longrightarrow> filter P (updateWhere m f xs) = filter P xs"
  by (induction xs) (auto simp: updateWhere_def)

text \<open>An update that keeps the identifying columns and does not touch stopped rows keeps the
  generations.\<close>

definition keepsRow :: "(startRow \<Rightarrow> startRow) \<Rightarrow> startRow \<Rightarrow> bool" where
  "keepsRow f s \<longleftrightarrow> sOperationID (f s) = sOperationID s \<and> sInstanceID (f s) = sInstanceID s \<and>
     sGeneration (f s) = sGeneration s \<and> rowOk (f s)"

lemma updateWhere_generations:
  assumes "generationsOk ss" and "\<And>s. s \<in> set ss \<Longrightarrow> m s \<Longrightarrow> keepsRow f s \<and> sPhase s \<noteq> ''stopped''"
  shows "generationsOk (updateWhere m f ss)"
proof -
  define g where "g = (\<lambda>x. if m x then f x else x)"
  have upd: "updateWhere m f ss = map g ss" by (simp add: updateWhere_def g_def)
  have keep: "sInstanceID (g s) = sInstanceID s" "sGeneration (g s) = sGeneration s" if "s \<in> set ss" for s
    using assms(2) [OF that] by (auto simp: keepsRow_def g_def)
  have stopped: "g t = t" if "t \<in> set ss" "sPhase t = ''stopped''" for t
    using assms(2) [OF that(1)] that(2) by (auto simp: g_def)
  have "map (\<lambda>s. (sInstanceID s, sGeneration s)) (map g ss) = map (\<lambda>s. (sInstanceID s, sGeneration s)) ss"
    using keep by simp
  moreover have "\<exists>s' \<in> set (map g ss). sInstanceID s' = sInstanceID (g s) \<and> sGeneration s' = sGeneration (g s) - 1 \<and>
      sPhase s' = ''stopped''" if s: "s \<in> set ss" "sGeneration (g s) \<noteq> 1" for s
  proof -
    from assms(1) s keep obtain t where t: "t \<in> set ss" "sInstanceID t = sInstanceID s"
        "sGeneration t = sGeneration s - 1" "sPhase t = ''stopped''"
      by (auto simp: generationsOk_def)
    with stopped keep s show ?thesis by (intro bexI [of _ t]) (force simp: image_iff)+
  qed
  ultimately show ?thesis
    using assms(1) unfolding generationsOk_def upd by (simp del: map_map)
qed

lemma updateWhere_rows:
  assumes "\<And>s. s \<in> set ss \<Longrightarrow> m s \<Longrightarrow> keepsRow f s" and "\<forall>s \<in> set ss. rowOk s"
  shows "map sOperationID (updateWhere m f ss) = map sOperationID ss" and "\<forall>s \<in> set (updateWhere m f ss). rowOk s"
  using assms by (auto simp: updateWhere_def keepsRow_def)

text \<open>\<open>UpdateStart\<close> keeps the invariant whatever its key, because it applies to rows that are
  accepted or launching only.\<close>

lemma updateStart_stops:
  assumes "stopsOk ss ts" and "phase \<in> {''launching'', ''running''}"
  shows "stopsOk (updateWhere (matchStart k)
    (\<lambda>s. s\<lparr>sObservation := ob, sPhase := phase, sRevision := sRevision s + 1\<rparr>) ss) ts"
proof -
  let ?f = "\<lambda>s. s\<lparr>sObservation := ob, sPhase := phase, sRevision := sRevision s + 1\<rparr>"
  have "\<exists>s \<in> set (updateWhere (matchStart k) ?f ss). sOperationID s = tStartOperationID t \<and>
      sPhase s = (if tPhase t = ''stopped'' then ''stopped'' else ''stopping'')" if "t \<in> set ts" for t
  proof -
    from assms(1) that obtain s where s: "s \<in> set ss" "sOperationID s = tStartOperationID t"
        "sPhase s = (if tPhase t = ''stopped'' then ''stopped'' else ''stopping'')"
      by (auto simp: stopsOk_def)
    then have "\<not> matchStart k s" by (auto simp: matchStart_def split: if_splits)
    with s show ?thesis by (force simp: set_updateWhere)
  qed
  with assms show ?thesis by (auto simp: stopsOk_def set_updateWhere split: if_splits)
qed

text \<open>The common shape of the updates: the start table changed at rows that are not stopped,
  the stop table such that the two agree again.\<close>

lemma Inv_updateStarts:
  assumes "Inv d" and "\<And>s. s \<in> set (starts d) \<Longrightarrow> m s \<Longrightarrow> keepsRow f s \<and> sPhase s \<noteq> ''stopped''"
    and "stopsOk (updateWhere m f (starts d)) ts"
  shows "Inv (d\<lparr>starts := updateWhere m f (starts d), stops := ts\<rparr>)"
proof -
  from assms(1) have rows: "\<forall>s \<in> set (starts d). rowOk s" by (simp add: Inv_def)
  have "\<forall>s \<in> set (updateWhere m f (starts d)). rowOk s"
    by (rule updateWhere_rows(2) [OF _ rows]) (use assms(2) in blast)
  moreover have "map sOperationID (updateWhere m f (starts d)) = map sOperationID (starts d)"
    by (rule updateWhere_rows(1) [OF _ rows]) (use assms(2) in blast)
  moreover have "generationsOk (updateWhere m f (starts d))"
    using assms(1) by (intro updateWhere_generations assms(2)) (simp_all add: Inv_def)
  ultimately show ?thesis using assms(1,3) by (simp add: Inv_def pvUIDs_def)
qed

lemma db_same [simp]: "d\<lparr>starts := ss, stops := stops d\<rparr> = d\<lparr>starts := ss\<rparr>"
  by simp

lemma db_commute: "d\<lparr>stops := ts, starts := ss\<rparr> = d\<lparr>starts := ss, stops := ts\<rparr>"
  by (cases d) simp

lemma Inv_UpdateStart:
  assumes "Inv d" and "phase \<in> {''launching'', ''running''}"
  shows "Inv (fst (execSql (UpdateStart ob phase k) d))"
proof -
  let ?f = "\<lambda>s. s\<lparr>sObservation := Json (persisted ob), sPhase := phase, sRevision := sRevision s + 1\<rparr>"
  have "Inv (d\<lparr>starts := updateWhere (matchStart k) ?f (starts d), stops := stops d\<rparr>)"
  proof (rule Inv_updateStarts [OF assms(1)])
    show "keepsRow ?f s \<and> sPhase s \<noteq> ''stopped''" if "s \<in> set (starts d)" "matchStart k s" for s
      using assms that by (auto simp: Inv_def keepsRow_def rowOk_def phaseOrder_def persisted_def matchStart_def)
    show "stopsOk (updateWhere (matchStart k) ?f (starts d)) (stops d)"
      using assms by (intro updateStart_stops) (simp_all add: Inv_def)
  qed
  then show ?thesis by simp
qed

text \<open>Accepting a stop: the row of the stop and the phase of its start, in one transaction.\<close>

lemma Inv_acceptStop:
  assumes "Inv d" and s: "s \<in> set (starts d)" "sOperationID s = op" "sRevision s = rv" "sPhase s = ''running''"
    and "operation \<notin> tOperationID ` set (stops d)"
  shows "Inv (execAll [InsertStop operation op boot, MarkStopping op rv] d)"
proof -
  let ?m = "matchPhase op rv ''running''" and ?f = "\<lambda>s. s\<lparr>sPhase := ''stopping'', sRevision := sRevision s + 1\<rparr>"
  let ?t = "\<lparr>tOperationID = operation, tStartOperationID = op, tBootID = boot, tPhase = ''accepted'', tProof = NoProof,
    tRevision = 1\<rparr>"
  have m: "?m x \<longleftrightarrow> x = s" if "x \<in> set (starts d)" for x
    using Inv_start_unique [OF assms(1) that s(1)] s by (auto simp: matchPhase_def)
  have img: "set (updateWhere ?m ?f (starts d)) = insert (?f s) (set (starts d) - {s})"
    using m s(1) by (auto simp: set_updateWhere image_iff split: if_splits)
  have fresh: "op \<notin> tStartOperationID ` set (stops d)"
  proof
    assume "op \<in> tStartOperationID ` set (stops d)"
    then obtain t x where "t \<in> set (stops d)" "tStartOperationID t = op" "x \<in> set (starts d)" "sOperationID x = op"
        "sPhase x = (if tPhase t = ''stopped'' then ''stopped'' else ''stopping'')"
      using assms(1) by (auto simp: Inv_def stopsOk_def)
    with Inv_start_unique [OF assms(1) _ s(1)] s show False by (auto split: if_splits)
  qed
  have old: "\<exists>x \<in> insert (?f s) (set (starts d) - {s}). sOperationID x = tStartOperationID t \<and>
      sPhase x = (if tPhase t = ''stopped'' then ''stopped'' else ''stopping'')" if "t \<in> set (stops d)" for t
  proof -
    from assms(1) that obtain x where "x \<in> set (starts d)" "sOperationID x = tStartOperationID t"
        "sPhase x = (if tPhase t = ''stopped'' then ''stopped'' else ''stopping'')"
      by (auto simp: Inv_def stopsOk_def)
    moreover from this fresh that s have "x \<noteq> s" by (auto intro: rev_image_eqI)
    ultimately show ?thesis by blast
  qed
  have "stopsOk (updateWhere ?m ?f (starts d)) (stops d @ [?t])"
    using assms(1,6) fresh old s unfolding stopsOk_def img by (auto simp: Inv_def stopsOk_def)
  moreover have "keepsRow ?f x \<and> sPhase x \<noteq> ''stopped''" if "x \<in> set (starts d)" "?m x" for x
    using that assms(1) by (auto simp: keepsRow_def Inv_def rowOk_def phaseOrder_def matchPhase_def)
  ultimately have "Inv (d\<lparr>starts := updateWhere ?m ?f (starts d), stops := stops d @ [?t]\<rparr>)"
    by (intro Inv_updateStarts [OF assms(1)])
  then show ?thesis by (simp add: execAll_def db_commute)
qed

section \<open>Steps of the protocol\<close>

lemma filter_updateWhere_mem:
  "(\<And>x. x \<in> set xs \<Longrightarrow> m x \<Longrightarrow> \<not> P x \<and> \<not> P (f x)) \<Longrightarrow> filter P (updateWhere m f xs) = filter P xs"
  by (induction xs) (auto simp: updateWhere_def)

text \<open>A change of one start row, and of stop rows that belong to it, is local to its instance
  and a progress when the row advances.\<close>

lemma okStep_row:
  assumes "Inv d" and s: "s \<in> set (starts d)"
    and m: "\<And>x. x \<in> set (starts d) \<Longrightarrow> m x \<Longrightarrow> x = s" and le: "m s \<Longrightarrow> rowLE s (f s)"
    and ts: "\<And>i. i \<noteq> sInstanceID s \<Longrightarrow>
      filter (\<lambda>t. tStartOperationID t \<in> sOperationID ` set (startsOf i d)) ts = stopsOf i d"
    and inv: "Inv (d\<lparr>starts := updateWhere m f (starts d), stops := ts\<rparr>)"
  shows "okStep (sInstanceID s) d (d\<lparr>starts := updateWhere m f (starts d), stops := ts\<rparr>)"
proof -
  let ?d = "d\<lparr>starts := updateWhere m f (starts d), stops := ts\<rparr>"
  have eq: "starts ?d = updateWhere m f (starts d)" by simp
  have starts: "startsOf i ?d = startsOf i d" if "i \<noteq> sInstanceID s" for i
    unfolding startsOf_def eq
    by (rule filter_updateWhere_mem) (use m le that in \<open>auto simp: rowLE_def\<close>)
  have "sameInstance i d ?d" if "i \<noteq> sInstanceID s" for i
    using starts [OF that] ts [OF that] by (simp add: sameInstance_def stopsOf_def workspacesOf_def)
  moreover have "advances d ?d"
    unfolding advances_def
  proof
    fix x assume x: "x \<in> set (starts d)"
    have "rowLE x (if m x then f x else x)" using m [OF x] le by auto
    moreover have "(if m x then f x else x) \<in> set (starts ?d)" unfolding eq set_updateWhere using x by (rule imageI)
    ultimately show "\<exists>s' \<in> set (starts ?d). rowLE x s'" by blast
  qed
  ultimately show ?thesis using inv by (simp add: okStep_def)
qed

lemma okStep_UpdateStart:
  assumes "Inv d" and s: "s \<in> set (starts d)" "sOperationID s = kOperationID k" "sInstanceID s = kInstanceID k"
    and "sObservation s = Json ob0" and "obsLE ob0 ob" and "phase \<in> {''launching'', ''running''}"
  shows "okStep (kInstanceID k) d (fst (execSql (UpdateStart ob phase k) d))"
proof -
  let ?f = "\<lambda>s. s\<lparr>sObservation := Json (persisted ob), sPhase := phase, sRevision := sRevision s + 1\<rparr>"
  have "obsLE ob0 (persisted ob)" using assms(6) by (simp add: obsLE_def persisted_def)
  then have "rowLE s (?f s)" if "matchStart k s"
    using that assms(5,7) by (auto simp: rowLE_def matchStart_def)
  moreover have "x = s" if "x \<in> set (starts d)" "matchStart k x" for x
    using Inv_start_unique [OF assms(1) that(1) s(1)] that(2) s(2) by (simp add: matchStart_def)
  ultimately have "okStep (sInstanceID s) d (d\<lparr>starts := updateWhere (matchStart k) ?f (starts d), stops := stops d\<rparr>)"
    using Inv_UpdateStart [OF assms(1) assms(7), of ob k]
    by (intro okStep_row [OF assms(1) s(1)]) (simp_all add: stopsOf_def)
  with s(3) show ?thesis by simp
qed

text \<open>The stops of another instance are not affected by rows of this one.\<close>

lemma other_ops:
  assumes "Inv d" and "s \<in> set (starts d)" and "i \<noteq> sInstanceID s"
  shows "sOperationID s \<notin> sOperationID ` set (startsOf i d)"
proof
  assume "sOperationID s \<in> sOperationID ` set (startsOf i d)"
  then obtain x where "x \<in> set (starts d)" "sInstanceID x = i" "sOperationID x = sOperationID s"
    by (auto simp: startsOf_def)
  with Inv_start_unique [OF assms(1) _ assms(2)] assms(3) show False by auto
qed

lemma okStep_acceptStop:
  assumes "Inv d" and s: "s \<in> set (starts d)" "sOperationID s = op" "sRevision s = rv" "sPhase s = ''running''"
    and "operation \<notin> tOperationID ` set (stops d)"
  shows "okStep (sInstanceID s) d (execAll [InsertStop operation op boot, MarkStopping op rv] d)"
proof -
  let ?m = "matchPhase op rv ''running''" and ?f = "\<lambda>s. s\<lparr>sPhase := ''stopping'', sRevision := sRevision s + 1\<rparr>"
  let ?ts = "stops d @ [\<lparr>tOperationID = operation, tStartOperationID = op, tBootID = boot, tPhase = ''accepted'',
    tProof = NoProof, tRevision = 1\<rparr>]"
  have ts: "filter (\<lambda>t. tStartOperationID t \<in> sOperationID ` set (startsOf i d)) ?ts = stopsOf i d" if "i \<noteq> sInstanceID s" for i
    using other_ops [OF assms(1) s(1) that] s(2) by (simp add: stopsOf_def)
  have m: "x = s" if "x \<in> set (starts d)" "?m x" for x
    using Inv_start_unique [OF assms(1) that(1) s(1)] that(2) s(2) by (simp add: matchPhase_def)
  have le: "rowLE s (?f s)" using s by (simp add: rowLE_def)
  have "Inv (d\<lparr>starts := updateWhere ?m ?f (starts d), stops := ?ts\<rparr>)"
    using Inv_acceptStop [OF assms, of boot] by (simp add: execAll_def db_commute)
  from okStep_row [OF assms(1) s(1) m le ts this] show ?thesis by (simp add: execAll_def db_commute)
qed

text \<open>A step of the stop below \<open>stopped\<close>.\<close>

lemma stopsOk_step:
  assumes "stopsOk ss ts" and "old \<noteq> ''stopped''" and "phase \<noteq> ''stopped''"
  shows "stopsOk ss (updateWhere (matchStop op rv old)
    (\<lambda>t. t\<lparr>tPhase := phase, tProof := pc, tRevision := tRevision t + 1\<rparr>) ts)"
proof -
  define g where "g = (\<lambda>t. if matchStop op rv old t
    then t\<lparr>tPhase := phase, tProof := pc, tRevision := tRevision t + 1\<rparr> else t)"
  have upd: "updateWhere (matchStop op rv old) (\<lambda>t. t\<lparr>tPhase := phase, tProof := pc, tRevision := tRevision t + 1\<rparr>) ts = map g ts"
    by (simp add: updateWhere_def g_def)
  have g [simp]: "tStartOperationID (g t) = tStartOperationID t" "tOperationID (g t) = tOperationID t"
    "tPhase (g t) = ''stopped'' \<longleftrightarrow> tPhase t = ''stopped''" for t
    using assms(2,3) by (auto simp: g_def matchStop_def)
  show ?thesis using assms(1) unfolding upd stopsOk_def by (simp add: comp_def)
qed

lemma stopsOf_update:
  assumes "Inv d" and s: "s \<in> set (starts d)" and t: "t \<in> set (stops d)" "tStartOperationID t = sOperationID s" "tOperationID t = op"
    and "i \<noteq> sInstanceID s"
  shows "filter (\<lambda>t. tStartOperationID t \<in> sOperationID ` set (startsOf i d)) (updateWhere (matchStop op rv old)
    (\<lambda>t. t\<lparr>tPhase := phase, tProof := pc, tRevision := tRevision t + 1\<rparr>) (stops d)) = stopsOf i d"
  unfolding stopsOf_def
proof (rule filter_updateWhere_mem)
  fix x assume x: "x \<in> set (stops d)" "matchStop op rv old x"
  with t assms(1) have "x = t" by (auto simp: Inv_def stopsOk_def distinct_map inj_on_def matchStop_def)
  with t(2) other_ops [OF assms(1) s assms(6)]
  show "tStartOperationID x \<notin> sOperationID ` set (startsOf i d) \<and>
      tStartOperationID (x\<lparr>tPhase := phase, tProof := pc, tRevision := tRevision x + 1\<rparr>) \<notin> sOperationID ` set (startsOf i d)"
    by simp
qed

lemma updateWhere_none: "(\<And>x. x \<in> set xs \<Longrightarrow> \<not> m x) \<Longrightarrow> updateWhere m f xs = xs"
  by (simp add: updateWhere_def map_idI)

lemma okStep_UpdateStop:
  assumes "Inv d" and s: "s \<in> set (starts d)" and t: "t \<in> set (stops d)" "tStartOperationID t = sOperationID s" "tOperationID t = op"
    and "old \<noteq> ''stopped''" and "phase \<noteq> ''stopped''"
  shows "okStep (sInstanceID s) d (fst (execSql (UpdateStop phase proof op rv old) d))"
proof -
  let ?ts = "updateWhere (matchStop op rv old) (\<lambda>t. t\<lparr>tPhase := phase, tProof := ProofCol (Json proof),
    tRevision := tRevision t + 1\<rparr>) (stops d)"
  have none: "updateWhere (\<lambda>_. False) id (starts d) = starts d" by (rule updateWhere_none) simp
  have "Inv (d\<lparr>stops := ?ts\<rparr>)"
    using assms(1) stopsOk_step [OF _ assms(6,7)] by (auto simp: Inv_def pvUIDs_def)
  then have "Inv (d\<lparr>starts := updateWhere (\<lambda>_. False) id (starts d), stops := ?ts\<rparr>)" unfolding none by simp
  from okStep_row [OF assms(1) s _ _ stopsOf_update [OF assms(1) s t] this]
  have "okStep (sInstanceID s) d (d\<lparr>starts := starts d, stops := ?ts\<rparr>)" unfolding none by simp
  then show ?thesis by simp
qed

text \<open>The last step ends the stop and its start together.\<close>

lemma stopsOk_stopped:
  assumes inv: "Inv d" and s: "s \<in> set (starts d)" "sOperationID s = op" "sRevision s = srv" "sPhase s = ''stopping''"
    and t: "t \<in> set (stops d)" "tStartOperationID t = op" "tOperationID t = sop" "tRevision t = trv" "tPhase t = old"
  shows "stopsOk (updateWhere (matchPhase op srv ''stopping'') (\<lambda>s. s\<lparr>sPhase := ''stopped'', sRevision := sRevision s + 1\<rparr>) (starts d))
    (updateWhere (matchStop sop trv old) (\<lambda>t. t\<lparr>tPhase := ''stopped'', tProof := pc, tRevision := tRevision t + 1\<rparr>) (stops d))"
proof -
  define g where "g = (\<lambda>t. if matchStop sop trv old t
    then t\<lparr>tPhase := ''stopped'', tProof := pc, tRevision := tRevision t + 1\<rparr> else t)"
  define f where "f = (\<lambda>s. if matchPhase op srv ''stopping'' s then s\<lparr>sPhase := ''stopped'', sRevision := sRevision s + 1\<rparr> else s)"
  from inv have ok: "stopsOk (starts d) (stops d)" by (simp add: Inv_def)
  have g [simp]: "tStartOperationID (g u) = tStartOperationID u" "tOperationID (g u) = tOperationID u" for u
    by (simp_all add: g_def)
  have f [simp]: "sOperationID (f x) = sOperationID x" for x by (simp add: f_def)
  have was: "sPhase x = ''stopping'' \<or> sPhase x = ''stopped''" if "sPhase (f x) = ''stopping'' \<or> sPhase (f x) = ''stopped''" for x
    using that by (auto simp: f_def matchPhase_def split: if_splits)
  have gt: "tPhase (g t) = ''stopped''" using t by (simp add: g_def matchStop_def)
  have fs: "sPhase (f s) = ''stopped''" using s by (simp add: f_def matchPhase_def)
  have each: "\<exists>x \<in> set (map f (starts d)). sOperationID x = tStartOperationID (g u) \<and>
      sPhase x = (if tPhase (g u) = ''stopped'' then ''stopped'' else ''stopping'')" if u: "u \<in> set (stops d)" for u
  proof (cases "u = t")
    case True
    with s gt fs t(2) show ?thesis by (intro bexI [of _ "f s"]) auto
  next
    case False
    then have "tOperationID u \<noteq> sop" "tStartOperationID u \<noteq> op"
      using ok u t unfolding stopsOk_def distinct_map inj_on_def by auto
    then have gu: "g u = u" by (simp add: g_def matchStop_def)
    from ok u obtain x where x: "x \<in> set (starts d)" "sOperationID x = tStartOperationID u"
        "sPhase x = (if tPhase u = ''stopped'' then ''stopped'' else ''stopping'')"
      unfolding stopsOk_def by blast
    moreover from this(2) \<open>tStartOperationID u \<noteq> op\<close> have "f x = x" by (simp add: f_def matchPhase_def)
    ultimately show ?thesis unfolding gu by (intro bexI [of _ x]) (auto intro: rev_image_eqI)
  qed
  have upd: "updateWhere (matchPhase op srv ''stopping'') (\<lambda>s. s\<lparr>sPhase := ''stopped'', sRevision := sRevision s + 1\<rparr>) (starts d) = map f (starts d)"
    "updateWhere (matchStop sop trv old) (\<lambda>t. t\<lparr>tPhase := ''stopped'', tProof := pc, tRevision := tRevision t + 1\<rparr>) (stops d) = map g (stops d)"
    by (simp_all add: updateWhere_def f_def g_def)
  show ?thesis
    unfolding upd stopsOk_def using ok each was unfolding stopsOk_def by (simp add: comp_def) blast
qed

lemma okStep_stopped:
  assumes inv: "Inv d" and s: "s \<in> set (starts d)" "sOperationID s = op" "sRevision s = srv" "sPhase s = ''stopping''"
    and t: "t \<in> set (stops d)" "tStartOperationID t = op" "tOperationID t = sop" "tRevision t = trv" "tPhase t = old"
  shows "okStep (sInstanceID s) d (execAll [UpdateStop ''stopped'' proof sop trv old, MarkStopped op srv] d)"
proof -
  let ?m = "matchPhase op srv ''stopping''" and ?f = "\<lambda>s. s\<lparr>sPhase := ''stopped'', sRevision := sRevision s + 1\<rparr>"
  let ?ts = "updateWhere (matchStop sop trv old) (\<lambda>t. t\<lparr>tPhase := ''stopped'', tProof := ProofCol (Json proof),
    tRevision := tRevision t + 1\<rparr>) (stops d)"
  have keep: "keepsRow ?f x \<and> sPhase x \<noteq> ''stopped''" if "x \<in> set (starts d)" "?m x" for x
    using that inv by (auto simp: keepsRow_def Inv_def rowOk_def phaseOrder_def matchPhase_def)
  have "Inv (d\<lparr>starts := updateWhere ?m ?f (starts d), stops := ?ts\<rparr>)"
    by (rule Inv_updateStarts [OF inv keep stopsOk_stopped [OF assms]])
  moreover have "x = s" if "x \<in> set (starts d)" "?m x" for x
    using Inv_start_unique [OF inv that(1) s(1)] that(2) s(2) by (simp add: matchPhase_def)
  moreover have "rowLE s (?f s)" using s(4) by (simp add: rowLE_def)
  moreover have "tStartOperationID t = sOperationID s" using s(2) t(2) by simp
  ultimately have "okStep (sInstanceID s) d (d\<lparr>starts := updateWhere ?m ?f (starts d), stops := ?ts\<rparr>)"
    using okStep_row [OF inv s(1), of ?m ?f ?ts] stopsOf_update [OF inv s(1) t(1) _ t(3)] by blast
  then show ?thesis by (simp add: execAll_def db_commute)
qed

text \<open>Accepting a start: the workspace table gains a fresh volume or keeps its volumes, the
  start table gains the next generation.\<close>

lemma okStep_accept:
  assumes "Inv d" and new: "rowOk n" "sInstanceID n = inst" "sPhase n = ''accepted''"
    "sOperationID n \<notin> sOperationID ` set (starts d)"
    and gen: "\<And>s. s \<in> set (starts d) \<Longrightarrow> sInstanceID s = inst \<Longrightarrow> sGeneration s < sGeneration n"
    "sGeneration n \<noteq> 1 \<Longrightarrow> \<exists>s \<in> set (starts d). sInstanceID s = inst \<and> sGeneration s = sGeneration n - 1 \<and> sPhase s = ''stopped''"
    and ws: "distinct (map wPVUID ws @ map lPVUID (legacy d))" "distinct (map wInstanceID ws)"
    "\<And>i. i \<noteq> inst \<Longrightarrow> filter (\<lambda>w. wInstanceID w = i) ws = workspacesOf i d"
  shows "okStep inst d (d\<lparr>workspaces := ws, starts := starts d @ [n]\<rparr>)"
proof -
  let ?d = "d\<lparr>workspaces := ws, starts := starts d @ [n]\<rparr>"
  from assms(1) have ok: "generationsOk (starts d)" "stopsOk (starts d) (stops d)" by (simp_all add: Inv_def)
  have "\<exists>s' \<in> set (starts d @ [n]). sInstanceID s' = sInstanceID s \<and> sGeneration s' = sGeneration s - 1 \<and> sPhase s' = ''stopped''"
    if "s \<in> set (starts d @ [n])" "sGeneration s \<noteq> 1" for s
    using that ok(1) gen(2) new(2) unfolding generationsOk_def by (cases "s = n") auto
  moreover have "distinct (map (\<lambda>s. (sInstanceID s, sGeneration s)) (starts d @ [n]))"
    using ok(1) gen(1) new(2) by (fastforce simp: generationsOk_def)
  ultimately have "generationsOk (starts d @ [n])" unfolding generationsOk_def by blast
  moreover have "stopsOk (starts d @ [n]) (stops d)"
    using ok(2) new(3) unfolding stopsOk_def by auto
  ultimately have "Inv ?d" using assms(1) new ws by (auto simp: Inv_def pvUIDs_def)
  moreover have "sameInstance i d ?d" if "i \<noteq> inst" for i
    using that new(2) ws(3) [OF that] by (simp add: sameInstance_def startsOf_def stopsOf_def workspacesOf_def)
  moreover have "advances d ?d" by (auto simp: advances_def intro: rowLE_refl)
  ultimately show ?thesis by (simp add: okStep_def)
qed

end
