(* ===== verification/AppSafety.thy ===== *)
theory AppSafety
  imports AppWorld
begin

text \<open>
  The journal's handlers in the world: under interference by other sessions and with every
  failure and lost reply, each commit is an \<open>okStep\<close> and each change of the cluster is
  behind the record it needs. The checkpoints interpret the ledgers of theory \<open>AppLedger\<close>.
\<close>

section \<open>What a held lock keeps\<close>

lemma sameInstance_start:
  assumes "sameInstance inst d d'" and "s \<in> set (starts d)" and "sInstanceID s = inst"
  shows "s \<in> set (starts d')"
proof -
  have "s \<in> set (startsOf inst d)" using assms by (simp add: startsOf_def)
  then have "s \<in> set (startsOf inst d')" using assms(1) by (simp add: sameInstance_def)
  then show ?thesis by (simp add: startsOf_def)
qed

lemma sameInstance_stop:
  assumes "sameInstance inst d d'" and "t \<in> set (stops d)" and "s \<in> set (starts d)" and "sInstanceID s = inst"
    and "tStartOperationID t = sOperationID s"
  shows "t \<in> set (stops d')"
proof -
  have "t \<in> set (stopsOf inst d)" using assms by (auto simp: stopsOf_def startsOf_def)
  then have "t \<in> set (stopsOf inst d')" using assms(1) by (simp add: sameInstance_def)
  then show ?thesis by (simp add: stopsOf_def)
qed

definition session :: "Run \<Rightarrow> world \<Rightarrow> bool" where
  "session r w \<longleftrightarrow> pending w = None \<and> Inv (committed w) \<and>
     instKey (StationID (runIdentity r)) (InstanceID (runIdentity r)) \<in> held w"

lemma instanceKey_eq: "instanceKey r = instKey (StationID (runIdentity r)) (InstanceID (runIdentity r))"
  by (simp add: instanceKey_def instKey_def)

lemma session_rely:
  assumes "session r w" and "rely (StationID (runIdentity r)) w w'"
  shows "session r w'" and "sameInstance (InstanceID (runIdentity r)) (committed w) (committed w')"
  using assms by (auto simp: session_def rely_def locks_def)

section \<open>The start record of a session\<close>

definition startRowFor :: "StartRecord \<Rightarrow> startRow \<Rightarrow> bool" where
  "startRowFor rec s \<longleftrightarrow> sOperationID s = OperationID (rRun rec) \<and> sInstanceID s = InstanceID (runIdentity (rRun rec)) \<and>
     sGeneration s = Generation (rRun rec) \<and> sProfileHash s = rProfileHash rec \<and>
     sInstallationRevision s = rInstallationRevision rec \<and> sPhase s = rPhase rec \<and> sRevision s = rRevision rec \<and>
     sObservation s = Json (persisted (rObservation rec))"

definition mirrors :: "Run \<Rightarrow> world \<Rightarrow> StartRecord \<Rightarrow> bool" where
  "mirrors r w rec \<longleftrightarrow> session r w \<and> rRun rec = r \<and> (\<exists>s \<in> set (starts (committed w)). startRowFor rec s)"

definition recordedObs :: "Run \<Rightarrow> world \<Rightarrow> Observation \<Rightarrow> bool" where
  "recordedObs r w ob \<longleftrightarrow> (\<exists>s \<in> set (starts (committed w)). sOperationID s = OperationID r \<and>
     sInstanceID s = InstanceID (runIdentity r) \<and> sObservation s = Json (persisted ob))"

abbreviation tablesOk :: "world \<Rightarrow> bool" where
  "tablesOk w \<equiv> Inv (committed w)"

lemma mirrors_rely:
  assumes "mirrors r w rec" and "rely (StationID (runIdentity r)) w w'"
  shows "mirrors r w' rec"
proof -
  from assms(1) obtain s where s: "s \<in> set (starts (committed w))" "startRowFor rec s" and ses: "session r w"
    and run: "rRun rec = r" by (auto simp: mirrors_def)
  from s(2) run have "sInstanceID s = InstanceID (runIdentity r)" by (simp add: startRowFor_def)
  with sameInstance_start [OF session_rely(2) [OF ses assms(2)] s(1)] s(2) session_rely(1) [OF ses assms(2)] run
  show ?thesis by (auto simp: mirrors_def)
qed

lemma recordedObs_rely:
  assumes "session r w" and "rely (StationID (runIdentity r)) w w'" and "recordedObs r w ob"
  shows "recordedObs r w' ob"
  using sameInstance_start [OF session_rely(2) [OF assms(1,2)]] assms(3) by (auto simp: recordedObs_def)

lemma persisted_idem [simp]: "persisted (persisted ob) = persisted ob"
  by (simp add: persisted_def)

lemma obsLE_persisted [simp]: "obsLE (persisted a) b = obsLE a b" "obsLE a (persisted b) = obsLE a b"
  by (simp_all add: obsLE_def persisted_def)

lemma monotonic_obsLE: "monotonicObservation L a b \<Longrightarrow> obsLE a b"
  by (auto simp: monotonicObservation_def obsLE_def keepsUID_def split: if_splits)

text \<open>The guard of a start: the ledger's, or the update that claims the instance's volume.\<close>

definition startGuard :: "lib \<Rightarrow> Run \<Rightarrow> world \<Rightarrow> kreq \<Rightarrow> bool" where
  "startGuard L r w q \<longleftrightarrow> ensureGuard L (recordedObs r w) q \<or> (\<exists>ns c. q = UpdatePVC ns c)"

abbreviation "startCalls L r \<equiv> permitted (StationID (runIdentity r)) (InstanceID (runIdentity r)) (startGuard L r)"
abbreviation "others A r \<equiv> env A (StationID (runIdentity r))"

text \<open>The effect of the checkpoint's update on the row the session mirrors.\<close>

lemma checkpoint_update:
  assumes "mirrors r w rec" and "monotonicObservation L (rObservation rec) ob" and "phase \<in> {''launching'', ''running''}"
    and "rPhase rec \<in> {''accepted'', ''launching''}"
  defines "d' \<equiv> fst (execSql (UpdateStart ob phase (recordKey rec)) (committed w))"
  shows "okStep (InstanceID (runIdentity r)) (committed w) d'"
    and "\<exists>s \<in> set (starts d'). startRowFor (rec\<lparr>rObservation := ob, rPhase := phase, rRevision := rRevision rec + 1\<rparr>) s"
proof -
  let ?k = "recordKey rec" and ?d = "committed w"
  let ?f = "\<lambda>s. s\<lparr>sObservation := Json (persisted ob), sPhase := phase, sRevision := sRevision s + 1\<rparr>"
  from assms(1) obtain s where s: "s \<in> set (starts ?d)" "startRowFor rec s" and inv: "Inv ?d" and run: "rRun rec = r"
    by (auto simp: mirrors_def session_def)
  have "okStep (kInstanceID ?k) ?d d'"
    unfolding d'_def
    using okStep_UpdateStart [of ?d s ?k "persisted (rObservation rec)" ob phase] inv s
      monotonic_obsLE [OF assms(2)] assms(3)
    by (simp add: recordKey_def startRowFor_def del: execSql.simps)
  with run show "okStep (InstanceID (runIdentity r)) ?d d'" by (simp add: recordKey_def)
  have "matchStart ?k s" using s(2) assms(4) by (auto simp: matchStart_def recordKey_def startRowFor_def)
  then have "?f s \<in> set (starts d')"
    unfolding d'_def using s(1) by (auto simp: set_updateWhere intro: rev_image_eqI)
  moreover have "startRowFor (rec\<lparr>rObservation := ob, rPhase := phase, rRevision := rRevision rec + 1\<rparr>) (?f s)"
    using s(2) by (simp add: startRowFor_def)
  ultimately show "\<exists>s \<in> set (starts d'). startRowFor (rec\<lparr>rObservation := ob, rPhase := phase, rRevision := rRevision rec + 1\<rparr>) s"
    by blast
qed

lemma checkpoint_law:
  assumes "mirrors r w rec"
  shows "holds (permitted (StationID (runIdentity r)) (InstanceID (runIdentity r)) G) (others A r)
    (\<lambda>w' (e, rec'). if e = None then mirrors r w' rec' \<and> recordedObs r w' ob else tablesOk w') w (checkpoint L rec ob)"
proof (cases "monotonicObservation L (rObservation rec) ob \<and> rPhase rec \<in> {''accepted'', ''launching''} \<and>
    (BootID ob = [] \<or> PodReady ob)")
  case True
  define phase where "phase = (if BootID ob \<noteq> [] then ''running'' else ''launching'')"
  have ph: "phase \<in> {''launching'', ''running''}" by (simp add: phase_def)
  let ?rec = "rec\<lparr>rObservation := ob, rPhase := phase, rRevision := rRevision rec + 1\<rparr>"
  define w1 where "w1 = w\<lparr>committed := fst (execSql (UpdateStart ob phase (recordKey rec)) (committed w))\<rparr>"
  note step = checkpoint_update [OF assms, of L ob phase]
  from assms have free: "pending w = None" and ses: "session r w" and run: "rRun rec = r" by (auto simp: mirrors_def session_def)
  have exec: "okStep (InstanceID (runIdentity r)) (committed w)
      (fst (execSql (UpdateStart ob phase (recordKey rec)) (committed w)))"
    using step(1) True ph by (simp del: execSql.simps)
  then have ok: "okStep (InstanceID (runIdentity r)) (committed w) (committed w1)" by (simp add: w1_def)
  have m1: "mirrors r w1 ?rec"
    using step(2) True ph ses run ok by (auto simp: mirrors_def session_def w1_def okStep_def)
  have "recordedObs r w1 ob" using m1 run by (auto simp: mirrors_def recordedObs_def startRowFor_def)
  then have after: "mirrors r w' ?rec \<and> recordedObs r w' ob" if "rely (StationID (runIdentity r)) w1 w'" for w'
    using mirrors_rely [OF m1 that] recordedObs_rely [OF _ that] m1 by (auto simp: mirrors_def)
  have keep: "tablesOk w'" if "rely (StationID (runIdentity r)) w2 w'" "w2 = w \<or> w2 = w1" for w2 w'
    using that ok ses by (auto simp: rely_def okStep_def session_def)
  have "guarantee (StationID (runIdentity r)) (InstanceID (runIdentity r)) w
      (fst (execSql (UpdateStart ob phase (recordKey rec)) (committed w)))"
    using exec ses by (auto simp: guarantee_def session_def locks_def pvUIDs_def)
  note exec = this
  have perf: "perform (UpdateStart ob phase (recordKey rec)) w = w1" by (simp add: perform_def free w1_def)
  show ?thesis
    unfolding checkpoint_def Let_def phase_def [symmetric]
    using True exec after keep free by (auto simp: env_def perf view_def simp del: execSql.simps split: sum.splits)
next
  case False
  with assms show ?thesis by (auto simp: checkpoint_def mirrors_def session_def)
qed

interpretation start_ledger: ensure_ledger "startCalls L r" "others A r" "mirrors r" tablesOk "recordedObs r" L "checkpoint L"
proof unfold_locales
  show "startCalls L r m (K q)" if "ensureGuard L (recordedObs r m) q" for m q
    using that by (simp add: startGuard_def)
  show "ensureGuard L R q" if "\<not> mutates q" for q R
    using that by (cases q) (simp_all add: ensureGuard_def)
  show "mirrors r m' c" if "mirrors r m c" "others A r m (K q) a m'" for m c q a m'
    using that mirrors_rely by (auto simp: env_def)
  show "recordedObs r m' x" if "mirrors r m c" "others A r m (K q) a m'" "recordedObs r m x" for m c q a m' x
    using that recordedObs_rely by (auto simp: env_def mirrors_def)
qed (simp_all add: checkpoint_law mirrors_def session_def)

section \<open>Locked visits\<close>

lemma holds_typed [simp]:
  "holds C E Q w (typed to k a) \<longleftrightarrow> (\<forall>b. to a = Some b \<longrightarrow> holds C E Q w (k b))"
  by (auto simp: typed_def split: option.splits)

lemma onlyCalls_typed [simp]: "onlyCalls P (typed to k a) \<longleftrightarrow> (\<forall>b. to a = Some b \<longrightarrow> onlyCalls P (k b))"
  by (auto simp: typed_def split: option.splits)

lemma firstRow_mem: "firstRow xs = Some x \<Longrightarrow> x \<in> set xs"
  by (cases xs) (auto simp: firstRow_def)

text \<open>A record read from the tables and equal to the run mirrors the row it came from.\<close>

lemma scan_row:
  assumes "Inv d" and "scanRecord L (firstRow (joined (OperationID r) d)) = Inr rec" and "rRun rec = r"
  shows "\<exists>s \<in> set (starts d). startRowFor rec s"
proof -
  from assms(2) obtain s b where sb: "firstRow (joined (OperationID r) d) = Some (s, b)"
    by (auto simp: scanRecord_def split: option.splits)
  then have s: "s \<in> set (starts d)" by (auto simp: joined_def dest!: firstRow_mem)
  with assms(1) have ok: "rowOk s" by (simp add: Inv_def)
  from assms(2) sb obtain ob where "sInput s = Json (rRun rec)" "sObservation s = Json ob" "rObservation rec = ob"
      "rPhase rec = sPhase s" "rRevision rec = sRevision s" "rProfileHash rec = sProfileHash s"
      "rInstallationRevision rec = sInstallationRevision s"
    by (auto simp: scanRecord_def split: col.splits if_splits)
  with ok s show ?thesis by (intro bexI [of _ s]) (auto simp: startRowFor_def rowOk_def persisted_def)
qed

text \<open>Rules for the requests of a session: what is known before the request is known after it,
  and a query answers from the committed tables.\<close>

lemma query_rule:
  assumes "session r w"
    and "\<And>w'. session r w' \<Longrightarrow> rely (StationID (runIdentity r)) w w' \<Longrightarrow>
      holds (permitted st i G) (others A r) Q w' (k (answerTo q (committed w)))"
    and "\<And>w' e. session r w' \<Longrightarrow> Q w' (Inl (ErrDb e))"
  shows "holds (permitted st i G) (others A r) Q w (jQuery q k)"
proof -
  have "view w = committed w" using assms(1) by (simp add: session_def view_def)
  then show ?thesis
    using session_rely(1) [OF assms(1)] assms(2,3) by (auto simp: env_def)
qed

lemma authorize_rule:
  assumes "session r w"
    and "\<And>w' rv. session r w' \<Longrightarrow> holds (permitted st i G) (others A r) Q w' (k rv)"
    and "\<And>w' e. session r w' \<Longrightarrow> Q w' (Inl e)"
  shows "holds (permitted st i G) (others A r) Q w (jAuthorize r p k)"
  using session_rely(1) [OF assms(1)] assms(2,3) by (auto simp: env_def split: sum.splits)

lemma installation_rule:
  assumes "session r w" and "\<And>w'. session r w' \<Longrightarrow> holds (permitted st i G) (others A r) Q w' (k ())"
    and "\<And>w' e. session r w' \<Longrightarrow> Q w' (Inl e)"
  shows "holds (permitted st i G) (others A r) Q w (thenP (installationMatches r p rv) k)"
  unfolding holds_thenP installationMatches_def
  by (rule query_rule [OF assms(1)]) (use assms(2,3) in auto)

lemma unlock_rule:
  assumes "tablesOk w"
  shows "holds (permitted st' i G) (env A st) (\<lambda>w' _. tablesOk w') w (ask (X (Unlock k sh)) asLock (\<lambda>_. Ret res))"
  using assms by (auto simp: env_def rely_def)

lemma session_tables: "session r w \<Longrightarrow> tablesOk w"
  by (simp add: session_def)

lemma visitRecord_rule:
  assumes "session r w"
    and visit: "\<And>w rec. mirrors r w rec \<Longrightarrow> validVolume L (runIdentity r) p (rVolume rec) \<Longrightarrow>
      holds (permitted st i G) (others A r) (\<lambda>w' _. tablesOk w') w (visit rec)"
  shows "holds (permitted st i G) (others A r) (\<lambda>w' _. tablesOk w') w (visitRecord L r p visit)"
  unfolding visitRecord_def
proof (rule authorize_rule [OF assms(1)], rule installation_rule, assumption, rule query_rule, assumption)
  fix w w' rv assume ses: "session r w" and ses': "session r w'" and rel: "rely (StationID (runIdentity r)) w w'"
  have "mirrors r w' rec" if "rRun rec = r" "scanRecord L (firstRow (joined (OperationID r) (committed w))) = Inr rec" for rec
    using mirrors_rely [OF _ rel] scan_row [OF session_tables [OF ses] that(2,1)] ses that(1) by (auto simp: mirrors_def)
  then show "holds (permitted st i G) (others A r) (\<lambda>w' _. tablesOk w') w' (typed toRecord (\<lambda>row. tryP (scanRecord L row)
      (\<lambda>rec. failIf (\<not> sameRecord L rec r p rv) ErrConflict (visit rec)))
      (answerTo (QRecord (OperationID r)) (committed w)))"
    using visit session_tables [OF ses']
    by (cases "scanRecord L (firstRow (joined (OperationID r) (committed w)))") (simp_all add: sameRecord_def)
qed (simp_all add: session_tables)

lemma withLockedRecord_rule:
  assumes "tablesOk w" and "pending w = None"
    and visit: "\<And>w rec. mirrors r w rec \<Longrightarrow> validVolume L (runIdentity r) p (rVolume rec) \<Longrightarrow>
      holds (permitted st i G) (others A r) (\<lambda>w' _. tablesOk w') w (visit rec)"
  shows "holds (permitted st i G) (others A r) (\<lambda>w' _. tablesOk w') w (withLockedRecord L J r p sh visit)"
proof -
  have locked: "session r w'" if "others A r w (X (TryLock (instanceKey r) sh)) (XR (RLock (Inr True))) w'" for w'
    using that assms(1,2) by (auto simp: env_def rely_def session_def instanceKey_eq)
  have kept: "tablesOk w'" if "others A r w (X (TryLock (instanceKey r) sh)) a w'" for a w'
    using that assms(1) by (auto simp: env_def rely_def)
  have rest: "holds (permitted st i G) (others A r) (\<lambda>w' _. tablesOk w') w' (bindP (visitRecord L r p visit)
       (\<lambda>res. ask (X (Unlock (instanceKey r) sh)) asLock (\<lambda>_. Ret res)))" if "session r w'" for w'
    unfolding holds_bindP by (rule holds_mono [OF visitRecord_rule [OF that visit]]) (assumption | rule unlock_rule)+
  have "holds (permitted st i G) (others A r) (\<lambda>w' _. tablesOk w') w'
      (case l of Inl e \<Rightarrow> Ret (Inl (ErrDb e)) | Inr locked \<Rightarrow> failIf (\<not> locked) ErrBusy (bindP (visitRecord L r p visit)
       (\<lambda>res. ask (X (Unlock (instanceKey r) sh)) asLock (\<lambda>_. Ret res))))"
    if e: "others A r w (X (TryLock (instanceKey r) sh)) a w'" and l: "asLock a = Some l" for a w' l
  proof (cases "l = Inr True")
    case True
    with e l have "session r w'" by (intro locked) simp
    from rest [OF this] show ?thesis unfolding True by (simp only: sum.case holds_failIf simp_thms if_False)
  next
    case False
    with kept [OF e] show ?thesis by (cases l) simp_all
  qed
  then have "holds (permitted st i G) (others A r) (\<lambda>w' _. tablesOk w') w (ask (X (TryLock (instanceKey r) sh)) asLock (\<lambda>l.
      case l of Inl e \<Rightarrow> Ret (Inl (ErrDb e)) | Inr locked \<Rightarrow> failIf (\<not> locked) ErrBusy (bindP (visitRecord L r p visit)
       (\<lambda>res. ask (X (Unlock (instanceKey r) sh)) asLock (\<lambda>_. Ret res)))))"
    unfolding holds_ask [of _ _ _ w "X (TryLock (instanceKey r) sh)"] by (intro conjI allI impI permitted_simps(4)) assumption
  with assms(1) show ?thesis unfolding withLockedRecord_def holds_failIf by simp
qed

section \<open>Advancing a start\<close>

text \<open>An observer or stopper that only reads the cluster (its own exchange is an HTTP request).\<close>

definition readOnlyPeers :: "journal \<Rightarrow> bool" where
  "readOnlyPeers J \<longleftrightarrow>
     (\<forall>f r p ob tok. jObserver J = Some f \<longrightarrow> onlyCalls readsKube (f r p ob tok)) \<and>
     (\<forall>f r p ob tok op. jStopper J = Some f \<longrightarrow> onlyCalls readsKube (f r p ob tok op))"

lemma verifyWorker_reads:
  assumes "readOnlyPeers J"
  shows "onlyCalls readsKube (verifyWorker L J r p rec)"
  using assms
  by (auto simp: verifyWorker_def Let_def readOnlyPeers_def split: option.splits sum.splits
      intro!: onlyCalls_thenP ObserveWorker_reads)

definition claimCalls :: "jreq req \<Rightarrow> bool" where
  "claimCalls q \<longleftrightarrow> readsKube q \<or> (\<exists>ns c. q = K (UpdatePVC ns c))"

lemma claim_calls: "onlyCalls claimCalls (ClaimVolume L i p b)"
  by (auto simp: ClaimVolume_def writeClaim_def Let_def claimCalls_def split: prod.splits
      intro!: onlyCalls_thenP onlyCalls_mono [OF inspectVolume_reads])

text \<open>Parts of a start that only read, or claim the volume, keep the mirrored record.\<close>

lemma start_keeps:
  assumes "onlyCalls claimCalls t" and "mirrors r w rec"
  shows "holds (startCalls L r) (others A r) (\<lambda>w' _. mirrors r w' rec) w t"
proof -
  have "holds (startCalls L r) (others A r) (\<lambda>w' a. mirrors r w' rec \<and> True) w t"
  proof (rule holds_reads [where P = claimCalls and I = "\<lambda>w. mirrors r w rec" and Q = "\<lambda>_. True", OF assms(1) _ assms(2)])
    show "startCalls L r m q" if "claimCalls q" for m q
      using that by (cases q) (auto simp: claimCalls_def startGuard_def)
    show "mirrors r m' rec" if "claimCalls q" "mirrors r m rec" "others A r m q a m'" for m q a m'
      using that mirrors_rely by (cases q) (auto simp: claimCalls_def env_def)
  qed (simp add: returns_iff)
  then show ?thesis by (simp cong: if_cong)
qed

lemma reads_claimCalls: "onlyCalls readsKube t \<Longrightarrow> onlyCalls claimCalls t"
  by (erule onlyCalls_mono) (simp add: claimCalls_def)

lemma mirrors_tables: "mirrors r w rec \<Longrightarrow> tablesOk w"
  by (simp add: mirrors_def session_def)

lemma checkpoint_rule:
  assumes "mirrors r w rec"
  shows "holds (startCalls L r) (others A r) (\<lambda>w' _. tablesOk w') w
    (bindP (checkpoint L rec ob) (\<lambda>(e, rec'). case e of Some x \<Rightarrow> Ret (Inl x) | None \<Rightarrow> Ret (Inr rec')))"
  unfolding holds_bindP
  by (rule holds_mono [OF checkpoint_law [OF assms]]) (auto simp: mirrors_tables split: option.splits if_splits)

lemma verify_rule:
  assumes "readOnlyPeers J" and "mirrors r w rec" and "\<And>w' ob. mirrors r w' rec \<Longrightarrow> holds (startCalls L r) (others A r) (\<lambda>w' _. tablesOk w') w' (k ob)"
  shows "holds (startCalls L r) (others A r) (\<lambda>w' _. tablesOk w') w (thenP (verifyWorker L J r p rec) k)"
  unfolding holds_thenP
  by (rule holds_mono [OF start_keeps [OF reads_claimCalls [OF verifyWorker_reads [OF assms(1)]] assms(2)]])
    (auto simp: mirrors_tables assms(3) split: sum.splits)

lemma verifyStep_rule:
  assumes "readOnlyPeers J" and "mirrors r w rec"
  shows "holds (startCalls L r) (others A r) (\<lambda>w' _. tablesOk w') w (verifyStep L J r p rec)"
proof (cases "PodReady (rObservation rec) \<and> jObserver J \<noteq> None")
  case True
  show ?thesis
    unfolding verifyStep_def if_P [OF True] by (rule verify_rule [OF assms]) (rule checkpoint_rule)
next
  case False
  then show ?thesis unfolding verifyStep_def if_not_P [OF False] using mirrors_tables [OF assms(2)] by simp
qed

lemma ensure_rule:
  assumes "readOnlyPeers J" and "mirrors r w rec"
  shows "holds (startCalls L r) (others A r) (\<lambda>w' _. tablesOk w') w
    (bindP (EnsureWorker L r p (rVolume rec) (rObservation rec) (checkpoint L) rec) (\<lambda>((_, e), rec').
      case e of Some x \<Rightarrow> Ret (Inl x) | None \<Rightarrow> verifyStep L J r p rec'))"
  unfolding holds_bindP
  by (rule holds_mono [OF start_ledger.EnsureWorker_guarded [OF assms(2)]])
    (auto simp: finished_def intro!: verifyStep_rule [OF assms(1)] split: option.splits)

lemma claimStep_calls: "onlyCalls claimCalls (claimStep L r p rec)"
  unfolding claimStep_def by (rule onlyCalls_bindP [OF reads_claimCalls [OF volumeClaimed_reads]]) (simp add: claim_calls)

lemma advanceVisit_rule:
  assumes "readOnlyPeers J" and "mirrors r w rec"
  shows "holds (startCalls L r) (others A r) (\<lambda>w' _. tablesOk w') w (advanceVisit L J r p rec)"
proof -
  have running: "holds (startCalls L r) (others A r) (\<lambda>w' _. tablesOk w') w
      (thenP (verifyWorker L J r p rec) (\<lambda>_. Ret (Inr rec)))"
    by (rule verify_rule [OF assms]) (simp add: mirrors_tables)
  have "holds (startCalls L r) (others A r) (\<lambda>w' _. tablesOk w') w (thenP (claimStep L r p rec) (\<lambda>_.
      bindP (EnsureWorker L r p (rVolume rec) (rObservation rec) (checkpoint L) rec) (\<lambda>((_, e), rec').
        case e of Some x \<Rightarrow> Ret (Inl x) | None \<Rightarrow> verifyStep L J r p rec')))"
    unfolding holds_thenP
    by (rule holds_mono [OF start_keeps [OF claimStep_calls assms(2)]])
      (auto simp: mirrors_tables intro!: ensure_rule [OF assms(1)] split: sum.splits)
  with running mirrors_tables [OF assms(2)] show ?thesis
    unfolding advanceVisit_def holds_failIf by (simp del: holds_thenP)
qed

lemma AdvanceResources_rule:
  assumes "readOnlyPeers J" and "tablesOk w" and "pending w = None"
  shows "holds (startCalls L r) (others A r) (\<lambda>w' _. tablesOk w') w (AdvanceResources L J r p)"
  unfolding AdvanceResources_def
  by (rule withLockedRecord_rule [OF assms(2,3)]) (rule advanceVisit_rule [OF assms(1)])

end
