(* ===== verification/AppTx.thy ===== *)
theory AppTx
  imports AppSafety
begin

text \<open>
  Rules for the statements of a transaction. \<open>tx P ss w\<close>: the open transaction has performed
  \<open>ss\<close>, the committed tables satisfy the invariant and \<open>P\<close> holds; \<open>P\<close> is an
  assertion about the locks and the committed tables that other sessions keep.
\<close>

definition stableAt :: "string \<Rightarrow> (world \<Rightarrow> bool) \<Rightarrow> bool" where
  "stableAt st P \<longleftrightarrow> (\<forall>w w'. rely st w w' \<longrightarrow> P w \<longrightarrow> P w') \<and> (\<forall>w ss. P (w\<lparr>pending := ss\<rparr>) = P w)"

definition tx :: "(world \<Rightarrow> bool) \<Rightarrow> sql list \<Rightarrow> world \<Rightarrow> bool" where
  "tx P ss w \<longleftrightarrow> pending w = Some ss \<and> tablesOk w \<and> occupied (Some ss) (committed w) \<and> P w"

lemma rely_keeps:
  "rely st w w' \<Longrightarrow> pending w' = pending w"
  "rely st w w' \<Longrightarrow> tablesOk w \<Longrightarrow> tablesOk w'"
  "rely st w w' \<Longrightarrow> occupied (pending w) (committed w) \<Longrightarrow> occupied (pending w') (committed w')"
  by (auto simp: rely_def)

lemma tx_rely: "stableAt st P \<Longrightarrow> tx P ss w \<Longrightarrow> rely st w w' \<Longrightarrow> tx P ss w'"
  using rely_keeps [of st w w'] unfolding tx_def stableAt_def by metis

lemma tx_tables: "tx P ss w \<Longrightarrow> tablesOk w"
  by (simp add: tx_def)

lemma tx_view: "tx P ss w \<Longrightarrow> view w = execAll ss (committed w)"
  by (simp add: tx_def view_def)

lemma stableAt_pending: "stableAt st P \<Longrightarrow> P (w\<lparr>pending := ss\<rparr>) = P w"
  by (simp add: stableAt_def)

text \<open>Every request except a commit and a statement outside a transaction keeps the tables.\<close>

lemma begin_rule:
  assumes "stableAt st P" and "P w" and "tablesOk w"
    and "\<And>w'. tx P [] w' \<Longrightarrow> holds (permitted st i G) (env A st) Q w' k"
    and "\<And>w' e. tablesOk w' \<Longrightarrow> Q w' (Inl (ErrDb e))"
  shows "holds (permitted st i G) (env A st) Q w (jBegin k)"
proof -
  have "tx P [] (w\<lparr>pending := Some []\<rparr>)"
    using assms(2,3) stableAt_pending [OF assms(1)] by (simp add: tx_def occupied_def)
  then have "holds (permitted st i G) (env A st) Q w' k" if "rely st (w\<lparr>pending := Some []\<rparr>) w'" for w'
    using assms(4) tx_rely [OF assms(1) _ that] by blast
  then show ?thesis
    using assms(3,5) rely_keeps(2) by (auto simp: env_def split: option.splits)
qed

lemma exec_rule:
  assumes "stableAt st P" and "tx P ss w"
    and "A (execAll ss (committed w)) s \<Longrightarrow> occupied (Some (ss @ [s])) (committed w)"
    and "\<And>w' n. tx P (ss @ [s]) w' \<Longrightarrow> holds (permitted st i G) (env A st) Q w' (k (Inr n))"
    and "\<And>w' e. tablesOk w' \<Longrightarrow> holds (permitted st i G) (env A st) Q w' (k (Inl e))"
  shows "holds (permitted st i G) (env A st) Q w (ask (X (Exec s)) asExec k)"
proof -
  have "tx P (ss @ [s]) (perform s w)" if "A (view w) s"
    using assms(2) assms(3) that stableAt_pending [OF assms(1)] tx_view [OF assms(2)]
    by (simp add: tx_def perform_def)
  then have ok: "tx P (ss @ [s]) w'" if "A (view w) s" "rely st (perform s w) w'" for w'
    using tx_rely [OF assms(1) _ that(2)] that(1) by blast
  have out: "permitted st i G w (X (Exec s))" using assms(2) by (simp add: tx_def)
  have "holds (permitted st i G) (env A st) Q w' (k x)" if e: "env A st w (X (Exec s)) (XR (RExec x)) w'" for w' x
  proof (cases x)
    case (Inl e)
    moreover have "tablesOk w'"
      using e tx_tables [OF ok] rely_keeps(2) tx_tables [OF assms(2)] by (auto simp: env_def)
    ultimately show ?thesis using assms(5) by simp
  next
    case (Inr n)
    with e have "A (view w) s" "rely st (perform s w) w'" by (auto simp: env_def)
    from assms(4) [OF ok [OF this]] Inr show ?thesis by simp
  qed
  with out show ?thesis by (auto simp del: permitted_simps)
qed

text \<open>A statement whose error ends the handler; one that inserts no start or stop occupies no key.\<close>

fun insertsKey :: "sql \<Rightarrow> bool" where
  "insertsKey (InsertStart s) = True" | "insertsKey (InsertStop op st b) = True" | "insertsKey _ = False"

lemma occupied_append: "\<not> insertsKey s \<Longrightarrow> occupied (Some ss) d \<Longrightarrow> occupied (Some (ss @ [s])) d"
  by (cases s) (simp_all add: occupied_def)

lemma jExec_rule:
  assumes "stableAt st P" and "tx P ss w" and "\<not> insertsKey s"
    and "\<And>w' n. tx P (ss @ [s]) w' \<Longrightarrow> holds (permitted st i G) (env A st) Q w' (k n)"
    and "\<And>w' e. tablesOk w' \<Longrightarrow> Q w' (Inl e)"
  shows "holds (permitted st i G) (env A st) Q w (jExec s k)"
  by (rule exec_rule [OF assms(1,2)])
    (use assms(2-5) in \<open>simp_all add: tx_def occupied_append\<close>)

text \<open>Only the insertion of a workspace adds a volume.\<close>

fun addsVolume :: "sql \<Rightarrow> bool" where
  "addsVolume (InsertWorkspace w) = True" | "addsVolume _ = False"

lemma pvUIDs_exec: "\<not> addsVolume s \<Longrightarrow> pvUIDs (fst (execSql s d)) = pvUIDs d"
  by (cases s) (simp_all add: pvUIDs_def map_updateWhere)

lemma pvUIDs_execAll: "list_all (\<lambda>s. \<not> addsVolume s) ss \<Longrightarrow> pvUIDs (execAll ss d) = pvUIDs d"
  unfolding execAll_def by (induction ss arbitrary: d) (simp_all add: pvUIDs_exec)

lemma commit_rule:
  assumes "tx P ss w" and "guarantee st i w (execAll ss (committed w))"
    and "\<And>w'. rely st (w\<lparr>committed := execAll ss (committed w), pending := None, xheld := {}\<rparr>) w' \<Longrightarrow>
      holds (permitted st i G) (env A st) Q w' k"
    and "\<And>w' e. tablesOk w' \<Longrightarrow> Q w' (Inl (ErrDb e))"
  shows "holds (permitted st i G) (env A st) Q w (jCommit k)"
proof -
  have com: "commitAll w = w\<lparr>committed := execAll ss (committed w), pending := None, xheld := {}\<rparr>"
    by (simp add: commitAll_def tx_view [OF assms(1)])
  have "tablesOk (commitAll w)" using assms(2) by (simp add: com okStep_def guarantee_def)
  then show ?thesis
    using assms(2,3) assms(4) tx_tables [OF assms(1)] rely_keeps(2) tx_view [OF assms(1)]
    by (auto simp: env_def com split: option.splits)
qed

text \<open>Requests that do not concern the tables keep a transaction.\<close>

lemma tx_query_rule:
  assumes "stableAt st P" and "tx P ss w"
    and "\<And>w'. tx P ss w' \<Longrightarrow> rely st w w' \<Longrightarrow>
      holds (permitted st i G) (env A st) Q w' (k (answerTo q (execAll ss (committed w))))"
    and "\<And>w' e. tablesOk w' \<Longrightarrow> Q w' (Inl (ErrDb e))"
  shows "holds (permitted st i G) (env A st) Q w (jQuery q k)"
  using assms(3,4) tx_rely [OF assms(1,2)] tx_view [OF assms(2)] tx_tables [OF tx_rely [OF assms(1,2)]]
  by (auto simp: env_def split: sum.splits)

lemma tx_reads:
  assumes "stableAt st P" and "tx P ss w" and "onlyCalls C t" and "returns R t" and "\<And>q. C q \<Longrightarrow> \<exists>k. q = K k"
    and "\<And>w k. tx P ss w \<Longrightarrow> C (K k) \<Longrightarrow> mutates k \<Longrightarrow> G w k"
  shows "holds (permitted st i G) (env A st) (\<lambda>w' a. tx P ss w' \<and> R a) w t"
proof (rule holds_reads [where P = C and I = "tx P ss" and Q = R, OF assms(3,4,2)])
  show "permitted st i G w q" if "C q" "tx P ss w" for w q
    using assms(5) [OF that(1)] assms(6) that by auto
  show "tx P ss w'" if "C q" "tx P ss w" "env A st w q a w'" for w q a w'
    using assms(5) [OF that(1)] that tx_rely [OF assms(1)] by (auto simp: env_def)
qed

end
