(* ===== verification/AppStopSafety.thy ===== *)
theory AppStopSafety
  imports AppTx
begin

text \<open>
  Stopping a worker in the world: the stop is accepted in one transaction with the phase of
  its start, every step of it is one transaction, and a pod or service is deleted only
  behind the committed step that announces it. \<open>checkpointStop\<close> interprets the ledger of
  theory \<open>AppLedger\<close>.
\<close>

section \<open>The rows of a stop\<close>

definition stopRowFor :: "Run \<Rightarrow> StopRecord \<Rightarrow> stopRow \<Rightarrow> bool" where
  "stopRowFor r s t \<longleftrightarrow> tOperationID t = stOperationID s \<and> tStartOperationID t = OperationID r \<and>
     tPhase t = Phase (stProgress s) \<and> tRevision t = stRevision s \<and>
     (Phase (stProgress s) \<noteq> ''accepted'' \<longrightarrow> tProof t = ProofCol (Json (Proof (stProgress s))))"

definition stopRows :: "Run \<Rightarrow> stopState \<Rightarrow> db \<Rightarrow> bool" where
  "stopRows r c d \<longleftrightarrow> rRun (fst c) = r \<and> (\<exists>s \<in> set (starts d). startRowFor (fst c) s) \<and>
     (\<exists>t \<in> set (stops d). stopRowFor r (snd c) t)"

definition mirrorsStop :: "Run \<Rightarrow> world \<Rightarrow> stopState \<Rightarrow> bool" where
  "mirrorsStop r w c \<longleftrightarrow> session r w \<and> stopRows r c (committed w)"

text \<open>What a step of the stop has recorded.\<close>

definition recordedStop :: "Run \<Rightarrow> world \<Rightarrow> StopProgress \<Rightarrow> bool" where
  "recordedStop r w pr \<longleftrightarrow>
     (\<exists>s \<in> set (starts (committed w)). sOperationID s = OperationID r \<and> sInstanceID s = InstanceID (runIdentity r)) \<and>
     (\<exists>t \<in> set (stops (committed w)). tStartOperationID t = OperationID r \<and> tPhase t = Phase pr \<and>
       tProof t = ProofCol (Json (Proof pr)))"

lemma startRowFor_ids:
  "startRowFor rec s \<Longrightarrow> sOperationID s = OperationID (rRun rec) \<and> sInstanceID s = InstanceID (runIdentity (rRun rec))"
  by (simp add: startRowFor_def)

lemma stopRows_same:
  assumes "sameInstance (InstanceID (runIdentity r)) d d'" and "stopRows r c d"
  shows "stopRows r c d'"
proof -
  from assms(2) obtain s t where s: "s \<in> set (starts d)" "startRowFor (fst c) s" and run: "rRun (fst c) = r"
    and t: "t \<in> set (stops d)" "stopRowFor r (snd c) t" by (auto simp: stopRows_def)
  from startRowFor_ids [OF s(2)] run t(2) have ids: "sInstanceID s = InstanceID (runIdentity r)"
    "tStartOperationID t = sOperationID s" by (simp_all add: stopRowFor_def)
  from sameInstance_start [OF assms(1) s(1) ids(1)] sameInstance_stop [OF assms(1) t(1) s(1) ids] s(2) t(2) run
  show ?thesis by (auto simp: stopRows_def)
qed

lemma recordedStop_rely:
  assumes "session r w" and "rely (StationID (runIdentity r)) w w'" and "recordedStop r w pr"
  shows "recordedStop r w' pr"
proof -
  from assms(3) obtain s t where s: "s \<in> set (starts (committed w))" "sOperationID s = OperationID r"
      "sInstanceID s = InstanceID (runIdentity r)"
    and t: "t \<in> set (stops (committed w))" "tStartOperationID t = OperationID r" "tPhase t = Phase pr"
      "tProof t = ProofCol (Json (Proof pr))" by (auto simp: recordedStop_def)
  note same = session_rely(2) [OF assms(1,2)]
  from sameInstance_start [OF same s(1,3)] sameInstance_stop [OF same t(1) s(1,3)] s t
  show ?thesis by (auto simp: recordedStop_def)
qed

lemma mirrorsStop_rely:
  assumes "mirrorsStop r w c" and "rely (StationID (runIdentity r)) w w'"
  shows "mirrorsStop r w' c"
  using assms session_rely [OF _ assms(2)] stopRows_same by (auto simp: mirrorsStop_def)

lemma mirrorsStop_recorded:
  assumes "mirrorsStop r w c" and "Phase (stProgress (snd c)) \<noteq> ''accepted''"
  shows "recordedStop r w (stProgress (snd c))"
  using assms startRowFor_ids by (fastforce simp: mirrorsStop_def stopRows_def recordedStop_def stopRowFor_def)

section \<open>A step of the stop\<close>

text \<open>The assertion of a session that keeps a fact about its own instance.\<close>

definition lockedAt :: "Run \<Rightarrow> (db \<Rightarrow> bool) \<Rightarrow> world \<Rightarrow> bool" where
  "lockedAt r R w \<longleftrightarrow> instKey (StationID (runIdentity r)) (InstanceID (runIdentity r)) \<in> held w \<and> R (committed w)"

lemma lockedAt_stable:
  assumes "\<And>d d'. sameInstance (InstanceID (runIdentity r)) d d' \<Longrightarrow> R d \<Longrightarrow> R d'"
  shows "stableAt (StationID (runIdentity r)) (lockedAt r R)"
  using assms by (auto simp: stableAt_def lockedAt_def rely_def locks_def)

text \<open>A committed transaction of the session: its tables stay as far as they concern the
  instance.\<close>

lemma lockedAt_committed:
  assumes "tx (lockedAt r R) ss w" and "tablesOk (w\<lparr>committed := d\<rparr>)"
    and "rely (StationID (runIdentity r)) (w\<lparr>committed := d, pending := None, xheld := {}\<rparr>) w'"
  shows "session r w'" and "sameInstance (InstanceID (runIdentity r)) d (committed w')"
  using assms by (auto simp: tx_def lockedAt_def session_def rely_def locks_def)

lemma stopPhases_step:
  assumes "map_of stopPhases a = Some i" and "map_of stopPhases b = Some (i + 1)"
  shows "a \<noteq> ''stopped''" and "b \<noteq> ''accepted''"
  using assms by (auto simp: stopPhases_def split: if_splits)

text \<open>The tables after the two shapes of the transaction.\<close>

lemma step_rows:
  assumes "stopRows r (rec, s) d" and "Phase next \<noteq> ''stopped''" and "Phase next \<noteq> ''accepted''"
  shows "stopRows r (rec, s\<lparr>stProgress := next, stRevision := stRevision s + 1\<rparr>)
    (execAll [UpdateStop (Phase next) (Proof next) (stOperationID s) (stRevision s) (Phase (stProgress s))] d)"
proof -
  from assms(1) obtain t where t: "t \<in> set (stops d)" "stopRowFor r s t" by (auto simp: stopRows_def)
  let ?f = "\<lambda>t. t\<lparr>tPhase := Phase next, tProof := ProofCol (Json (Proof next)), tRevision := tRevision t + 1\<rparr>"
  have "matchStop (stOperationID s) (stRevision s) (Phase (stProgress s)) t" using t(2) by (simp add: matchStop_def stopRowFor_def)
  with t(1) have "?f t \<in> set (updateWhere (matchStop (stOperationID s) (stRevision s) (Phase (stProgress s))) ?f (stops d))"
    by (auto simp: set_updateWhere intro: rev_image_eqI)
  moreover have "stopRowFor r (s\<lparr>stProgress := next, stRevision := stRevision s + 1\<rparr>) (?f t)"
    using t(2) by (simp add: stopRowFor_def)
  ultimately show ?thesis using assms(1) by (auto simp: stopRows_def execAll_def)
qed

lemma stopped_rows:
  assumes "stopRows r (rec, s) d" and "rPhase rec = ''stopping''" and "Phase next = ''stopped''"
  shows "stopRows r (rec\<lparr>rPhase := ''stopped'', rRevision := rRevision rec + 1\<rparr>,
      s\<lparr>stProgress := next, stRevision := stRevision s + 1\<rparr>)
    (execAll [UpdateStop (Phase next) (Proof next) (stOperationID s) (stRevision s) (Phase (stProgress s)),
      MarkStopped (OperationID (rRun rec)) (rRevision rec)] d)"
proof -
  from assms(1) obtain x t where t: "t \<in> set (stops d)" "stopRowFor r s t" and x: "x \<in> set (starts d)" "startRowFor rec x"
    and run: "rRun rec = r" by (auto simp: stopRows_def)
  let ?f = "\<lambda>t. t\<lparr>tPhase := Phase next, tProof := ProofCol (Json (Proof next)), tRevision := tRevision t + 1\<rparr>"
  let ?g = "\<lambda>s. s\<lparr>sPhase := ''stopped'', sRevision := sRevision s + 1\<rparr>"
  have "matchStop (stOperationID s) (stRevision s) (Phase (stProgress s)) t" using t(2) by (simp add: matchStop_def stopRowFor_def)
  with t(1) have "?f t \<in> set (updateWhere (matchStop (stOperationID s) (stRevision s) (Phase (stProgress s))) ?f (stops d))"
    by (auto simp: set_updateWhere intro: rev_image_eqI)
  moreover have "stopRowFor r (s\<lparr>stProgress := next, stRevision := stRevision s + 1\<rparr>) (?f t)"
    using t(2) by (simp add: stopRowFor_def)
  moreover have "matchPhase (OperationID (rRun rec)) (rRevision rec) ''stopping'' x"
    using x(2) assms(2) by (simp add: matchPhase_def startRowFor_def)
  with x(1) have "?g x \<in> set (updateWhere (matchPhase (OperationID (rRun rec)) (rRevision rec) ''stopping'') ?g (starts d))"
    by (auto simp: set_updateWhere intro: rev_image_eqI)
  moreover have "startRowFor (rec\<lparr>rPhase := ''stopped'', rRevision := rRevision rec + 1\<rparr>) (?g x)"
    using x(2) by (simp add: startRowFor_def)
  ultimately show ?thesis using run by (auto simp: stopRows_def execAll_def)
qed


lemma step_ok:
  assumes "tablesOk w" and "stopRows r c (committed w)" and "Phase (stProgress (snd c)) \<noteq> ''stopped''" and "Phase next \<noteq> ''stopped''"
  shows "okStep (InstanceID (runIdentity r)) (committed w)
    (execAll [UpdateStop (Phase next) (Proof next) (stOperationID (snd c)) (stRevision (snd c)) (Phase (stProgress (snd c)))] (committed w))"
proof -
  from assms(2) obtain x t where x: "x \<in> set (starts (committed w))" "startRowFor (fst c) x" and run: "rRun (fst c) = r"
    and t: "t \<in> set (stops (committed w))" "stopRowFor r (snd c) t" by (auto simp: stopRows_def)
  from startRowFor_ids [OF x(2)] run t(2) have "tStartOperationID t = sOperationID x" "tOperationID t = stOperationID (snd c)"
    and inst: "sInstanceID x = InstanceID (runIdentity r)" by (simp_all add: stopRowFor_def)
  from okStep_UpdateStop [OF assms(1) x(1) t(1) this(1,2) assms(3,4)] inst show ?thesis
    by (simp add: execAll_def del: execSql.simps)
qed

lemma stopped_ok:
  assumes "tablesOk w" and "stopRows r c (committed w)" and "rPhase (fst c) = ''stopping''"
  shows "okStep (InstanceID (runIdentity r)) (committed w)
    (execAll [UpdateStop ''stopped'' pr (stOperationID (snd c)) (stRevision (snd c)) (Phase (stProgress (snd c))),
      MarkStopped (OperationID (rRun (fst c))) (rRevision (fst c))] (committed w))"
proof -
  from assms(2) obtain x t where x: "x \<in> set (starts (committed w))" "startRowFor (fst c) x" and run: "rRun (fst c) = r"
    and t: "t \<in> set (stops (committed w))" "stopRowFor r (snd c) t" by (auto simp: stopRows_def)
  have "sOperationID x = OperationID (rRun (fst c))" "sRevision x = rRevision (fst c)" "sPhase x = ''stopping''"
      "tStartOperationID t = OperationID (rRun (fst c))" "tOperationID t = stOperationID (snd c)"
      "tRevision t = stRevision (snd c)" "tPhase t = Phase (stProgress (snd c))"
      "sInstanceID x = InstanceID (runIdentity r)"
    using x(2) t(2) run assms(3) by (simp_all add: startRowFor_def stopRowFor_def)
  with okStep_stopped [OF assms(1) x(1) _ _ _ t(1)] show ?thesis by metis
qed

text \<open>After the commit the session mirrors the new rows.\<close>

lemma commit_mirrors:
  assumes "tx (lockedAt r R) ss w" and "okStep (InstanceID (runIdentity r)) (committed w) (execAll ss (committed w))"
    and "stopRows r c (execAll ss (committed w))"
    and "\<And>w'. mirrorsStop r w' c \<Longrightarrow> Q w' (Inr c)" and "\<And>w' e. tablesOk w' \<Longrightarrow> Q w' (Inl (ErrDb e))"
    and "list_all (\<lambda>s. \<not> addsVolume s) ss"
  shows "holds (permitted (StationID (runIdentity r)) (InstanceID (runIdentity r)) G) (others A r) Q w (jCommit (Ret (Inr c)))"
proof (rule commit_rule [OF assms(1)])
  have "set (pvUIDs (execAll ss (committed w))) \<subseteq> set (pvUIDs (committed w))" using assms(6) by (simp add: pvUIDs_execAll)
  with assms(1,2) show "guarantee (StationID (runIdentity r)) (InstanceID (runIdentity r)) w (execAll ss (committed w))"
    by (simp add: guarantee_def tx_def lockedAt_def locks_def)
next
  fix w' assume rel: "rely (StationID (runIdentity r))
    (w\<lparr>committed := execAll ss (committed w), pending := None, xheld := {}\<rparr>) w'"
  have "tablesOk (w\<lparr>committed := execAll ss (committed w)\<rparr>)" using assms(2) by (simp add: okStep_def)
  from lockedAt_committed [OF assms(1) this rel] stopRows_same assms(3)
  have "mirrorsStop r w' c" by (auto simp: mirrorsStop_def)
  then show "holds (permitted (StationID (runIdentity r)) (InstanceID (runIdentity r)) G) (others A r) Q w' (Ret (Inr c))" using assms(4) by simp
qed (rule assms(5))

lemma stopTx_law:
  assumes m: "mirrorsStop r w (rec, s)" and ph: "rPhase rec = ''stopping''" and step: "stopStepOk s next"
  shows "holds (permitted (StationID (runIdentity r)) (InstanceID (runIdentity r)) G) (others A r) (\<lambda>w' res. case res of
      Inl e \<Rightarrow> tablesOk w' | Inr c \<Rightarrow> mirrorsStop r w' c \<and> stProgress (snd c) = next \<and> rObservation (fst c) = rObservation rec) w (stopTx (rec, s) next)"
proof -
  have old: "Phase (stProgress s) \<noteq> ''stopped''" and new: "Phase next \<noteq> ''accepted''"
    using step stopPhases_step by (auto simp: stopStepOk_def split: if_splits option.splits)
  let ?P = "lockedAt r (stopRows r (rec, s))"
  let ?s = "s\<lparr>stProgress := next, stRevision := stRevision s + 1\<rparr>"
  have st: "stableAt (StationID (runIdentity r)) ?P" by (rule lockedAt_stable) (rule stopRows_same)
  have P: "?P w" "tablesOk w" using m by (auto simp: mirrorsStop_def session_def lockedAt_def)
  have rows: "stopRows r (rec, s) (committed w')" if "tx ?P ss w'" for ss w' using that by (simp add: tx_def lockedAt_def)
  let ?Q = "\<lambda>w' res. case res of Inl e \<Rightarrow> tablesOk w' | Inr c \<Rightarrow> mirrorsStop r w' c \<and> stProgress (snd c) = next \<and> rObservation (fst c) = rObservation rec"
  have last: "holds (permitted (StationID (runIdentity r)) (InstanceID (runIdentity r)) G) (others A r) ?Q w'
      (jExec (MarkStopped (OperationID (rRun rec)) (rRevision rec)) (\<lambda>n. failIf (n \<noteq> 1) ErrConflict
        (jCommit (Ret (Inr (rec\<lparr>rPhase := ''stopped'', rRevision := rRevision rec + 1\<rparr>, ?s))))))"
    if "tx ?P [UpdateStop (Phase next) (Proof next) (stOperationID s) (stRevision s) (Phase (stProgress s))] w'"
      and stopped: "Phase next = ''stopped''" for w'
  proof (rule jExec_rule [OF st that(1)])
    fix w2 and n :: nat
    assume t: "tx ?P ([UpdateStop (Phase next) (Proof next) (stOperationID s) (stRevision s) (Phase (stProgress s))] @
      [MarkStopped (OperationID (rRun rec)) (rRevision rec)]) w2"
    show "holds (permitted (StationID (runIdentity r)) (InstanceID (runIdentity r)) G) (others A r) ?Q w2 (failIf (n \<noteq> 1) ErrConflict
        (jCommit (Ret (Inr (rec\<lparr>rPhase := ''stopped'', rRevision := rRevision rec + 1\<rparr>, ?s)))))"
      unfolding holds_failIf
      using stopped_ok [OF tx_tables [OF t] rows [OF t]] stopped_rows [OF rows [OF t] ph stopped] ph stopped tx_tables [OF t]
      by (simp del: holds_ask, intro impI commit_mirrors [OF t]) simp_all
  qed simp_all
  have inner: "holds (permitted (StationID (runIdentity r)) (InstanceID (runIdentity r)) G) (others A r) ?Q w' (jCommit (Ret (Inr (rec, ?s))))"
    if t: "tx ?P [UpdateStop (Phase next) (Proof next) (stOperationID s) (stRevision s) (Phase (stProgress s))] w'"
      and on: "Phase next \<noteq> ''stopped''" for w'
    by (rule commit_mirrors [OF t]) (use step_ok [OF tx_tables [OF t] rows [OF t]] step_rows [OF rows [OF t] on new] old on in simp_all)
  show ?thesis
    unfolding stopTx_def Let_def fst_conv snd_conv
  proof (rule begin_rule [OF st P], rule jExec_rule [OF st], assumption)
    fix w2 w' and n :: nat
    assume t: "tx ?P ([] @ [UpdateStop (Phase next) (Proof next) (stOperationID s) (stRevision s) (Phase (stProgress s))]) w'"
    show "holds (permitted (StationID (runIdentity r)) (InstanceID (runIdentity r)) G) (others A r) ?Q w' (failIf (n \<noteq> 1) ErrConflict
       (if Phase next = ''stopped'' then
          jExec (MarkStopped (OperationID (rRun rec)) (rRevision rec)) (\<lambda>n. failIf (n \<noteq> 1) ErrConflict
          (jCommit (Ret (Inr (rec\<lparr>rPhase := ''stopped'', rRevision := rRevision rec + 1\<rparr>, ?s)))))
        else jCommit (Ret (Inr (rec, ?s)))))"
      unfolding holds_failIf
      using last [OF t [unfolded append_Nil]] inner [OF t [unfolded append_Nil]] tx_tables [OF t]
      by (cases "Phase next = ''stopped''") (simp_all only: simp_thms sum.case split: if_split)
  qed simp_all
qed

text \<open>What a session knows while it stops a worker whose observation was \<open>observed\<close>.\<close>

definition stopState :: "Run \<Rightarrow> Observation \<Rightarrow> world \<Rightarrow> stopState \<Rightarrow> bool" where
  "stopState r observed w c \<longleftrightarrow> mirrorsStop r w c \<and> rObservation (fst c) = observed"

lemma stopState_tables: "stopState r observed w c \<Longrightarrow> tablesOk w"
  by (simp add: stopState_def mirrorsStop_def session_def)

lemma stopState_rely:
  "stopState r observed w c \<Longrightarrow> rely (StationID (runIdentity r)) w w' \<Longrightarrow> stopState r observed w' c"
  using mirrorsStop_rely [of r w c w'] by (simp add: stopState_def)

lemma stopState_recorded:
  assumes "stopState r observed w c"
  shows "recordedObs r w observed"
  using assms by (fastforce simp: stopState_def mirrorsStop_def stopRows_def recordedObs_def startRowFor_def)

lemma checkpointStop_step:
  assumes "stopState r observed w c"
  shows "holds (permitted (StationID (runIdentity r)) (InstanceID (runIdentity r)) G) (others A r)
    (\<lambda>w' (e, c'). if e = None then stopState r observed w' c' \<and> stProgress (snd c') = next \<and> Phase next \<noteq> ''accepted''
      else tablesOk w') w (checkpointStop c next)"
proof (cases "stopStepOk (snd c) next \<and> rPhase (fst c) = ''stopping''")
  case True
  have new: "Phase next \<noteq> ''accepted''"
    using True stopPhases_step by (auto simp: stopStepOk_def split: if_splits option.splits)
  obtain rec s where c: "c = (rec, s)" by (cases c)
  from True assms have law: "holds (permitted (StationID (runIdentity r)) (InstanceID (runIdentity r)) G) (others A r) (\<lambda>w' res. case res of
      Inl e \<Rightarrow> tablesOk w' | Inr c' \<Rightarrow> mirrorsStop r w' c' \<and> stProgress (snd c') = next \<and>
        rObservation (fst c') = rObservation rec) w (stopTx c next)"
    unfolding c by (intro stopTx_law) (simp_all add: stopState_def)
  have "holds (permitted (StationID (runIdentity r)) (InstanceID (runIdentity r)) G) (others A r)
    (\<lambda>w' (e, c'). if e = None then stopState r observed w' c' \<and> stProgress (snd c') = next \<and> Phase next \<noteq> ''accepted''
      else tablesOk w') w
    (bindP (stopTx c next) (\<lambda>res. case res of Inl e \<Rightarrow> Ret (Some e, c) | Inr c' \<Rightarrow> Ret (None, c')))"
    unfolding holds_bindP
    by (rule holds_mono [OF law]) (use new assms c in \<open>force simp: stopState_def split: sum.splits\<close>)
  then show ?thesis
    unfolding checkpointStop_def using stopState_tables [OF assms] by auto
next
  case False
  then show ?thesis unfolding checkpointStop_def using stopState_tables [OF assms] by auto
qed

lemma stopState_progress:
  "stopState r observed w c \<Longrightarrow> Phase (stProgress (snd c)) \<noteq> ''accepted'' \<Longrightarrow> recordedStop r w (stProgress (snd c))"
  by (simp add: stopState_def mirrorsStop_recorded)

lemma checkpointStop_law:
  assumes "stopState r observed w c"
  shows "holds (permitted (StationID (runIdentity r)) (InstanceID (runIdentity r)) G) (others A r)
    (\<lambda>w' (e, c'). if e = None then stopState r observed w' c' \<and> recordedStop r w' next else tablesOk w') w (checkpointStop c next)"
  by (rule holds_mono [OF checkpointStop_step [OF assms]]) (use stopState_progress in \<open>fastforce split: if_splits\<close>)

text \<open>The guard of a stop: only the deletions of the ledger change the cluster.\<close>

definition stopGuardAt :: "Run \<Rightarrow> world \<Rightarrow> kreq \<Rightarrow> bool" where
  "stopGuardAt r w q \<longleftrightarrow> (\<exists>observed. recordedObs r w observed \<and> stopGuard observed (recordedStop r w) q)"

abbreviation "stopCalls r \<equiv> permitted (StationID (runIdentity r)) (InstanceID (runIdentity r)) (stopGuardAt r)"

interpretation stopping: stop_ledger "stopCalls r" "others A r" "stopState r observed" tablesOk "recordedStop r"
  observed checkpointStop
proof unfold_locales
  show "stopCalls r m (K q)" if "stopState r observed m c" "stopGuard observed (recordedStop r m) q" for m c q
    using that(2) stopState_recorded [OF that(1)] by (auto simp: stopGuardAt_def)
  show "stopGuard observed R q" if "\<not> mutates q" for q R
    using that by (cases q) (simp_all add: stopGuard_def)
  show "stopState r observed m' c" if "stopState r observed m c" "others A r m (K q) a m'" for m c q a m'
    using that(2) stopState_rely [OF that(1)] by (auto simp: env_def)
  show "recordedStop r m' x" if "stopState r observed m c" "others A r m (K q) a m'" "recordedStop r m x" for m c q a m' x
    using that recordedStop_rely by (auto simp: env_def stopState_def mirrorsStop_def)
qed (simp_all add: checkpointStop_law stopState_tables)

section \<open>Accepting a stop\<close>

lemma scanStop_row:
  assumes "scanStop r p rec operation boot (firstRow (filter (\<lambda>t. tOperationID t = operation) (stops d))) = Inr s"
  shows "\<exists>t \<in> set (stops d). stopRowFor r s t"
proof -
  from assms obtain t where t: "firstRow (filter (\<lambda>t. tOperationID t = operation) (stops d)) = Some t"
    by (auto simp: scanStop_def split: option.splits)
  then have "t \<in> set (stops d)" by (auto dest!: firstRow_mem)
  moreover from assms t have "stopRowFor r s t"
    by (auto simp: scanStop_def stopRowFor_def split: if_splits proofCol.splits col.splits)
  ultimately show ?thesis by blast
qed

lemma accepted_rows:
  assumes "rRun rec = r" and "x \<in> set (starts d)" and "startRowFor rec x" and "rPhase rec = ''running''"
  shows "stopRows r (rec\<lparr>rPhase := ''stopping'', rRevision := rRevision rec + 1\<rparr>,
      \<lparr>stOperationID = operation, stStartID = OperationID r, stBootID = boot,
       stProgress = \<lparr>Proof = zeroProof, Phase = ''accepted''\<rparr>, stRevision = 1\<rparr>)
    (execAll [InsertStop operation (OperationID r) boot, MarkStopping (OperationID r) (rRevision rec)] d)"
proof -
  let ?g = "\<lambda>s. s\<lparr>sPhase := ''stopping'', sRevision := sRevision s + 1\<rparr>"
  have "matchPhase (OperationID r) (rRevision rec) ''running'' x"
    using assms by (simp add: matchPhase_def startRowFor_def)
  with assms(2) have "?g x \<in> set (updateWhere (matchPhase (OperationID r) (rRevision rec) ''running'') ?g (starts d))"
    by (auto simp: set_updateWhere intro: rev_image_eqI)
  moreover have "startRowFor (rec\<lparr>rPhase := ''stopping'', rRevision := rRevision rec + 1\<rparr>) (?g x)"
    using assms(3) by (simp add: startRowFor_def)
  ultimately show ?thesis using assms(1) by (auto simp: stopRows_def execAll_def stopRowFor_def)
qed

lemma acceptTx_rule:
  assumes keys: "primaryKeys A" and m: "mirrors r w rec" and run: "rPhase rec = ''running''"
  shows "holds (permitted (StationID (runIdentity r)) (InstanceID (runIdentity r)) G) (others A r)
    (\<lambda>w' res. case res of Inl e \<Rightarrow> tablesOk w' | Inr c \<Rightarrow> stopState r (rObservation rec) w' c) w
    (acceptTx r rec operation boot)"
proof -
  let ?R = "\<lambda>d. \<exists>s \<in> set (starts d). startRowFor rec s"
  let ?P = "lockedAt r ?R"
  let ?Q = "\<lambda>w' res. case res of Inl e \<Rightarrow> tablesOk w' | Inr c \<Rightarrow> stopState r (rObservation rec) w' c"
  let ?ins = "InsertStop operation (OperationID r) boot" and ?mark = "MarkStopping (OperationID r) (rRevision rec)"
  from m have rr: "rRun rec = r" by (simp add: mirrors_def)
  have st: "stableAt (StationID (runIdentity r)) ?P"
    by (rule lockedAt_stable) (use sameInstance_start startRowFor_ids rr in blast)
  have P: "?P w" "tablesOk w" using m by (auto simp: mirrors_def session_def lockedAt_def)
  have fin: "holds (permitted (StationID (runIdentity r)) (InstanceID (runIdentity r)) G) (others A r) ?Q w'
      (jCommit (Ret (Inr (rec\<lparr>rPhase := ''stopping'', rRevision := rRevision rec + 1\<rparr>,
               \<lparr>stOperationID = operation, stStartID = OperationID r, stBootID = boot,
                stProgress = \<lparr>Proof = zeroProof, Phase = ''accepted''\<rparr>, stRevision = 1\<rparr>))))"
    if t: "tx ?P ([?ins] @ [?mark]) w'" for w'
  proof -
    from t obtain x where x: "x \<in> set (starts (committed w'))" "startRowFor rec x" by (auto simp: tx_def lockedAt_def)
    from t have "operation \<notin> tOperationID ` set (stops (committed w'))" by (auto simp: tx_def occupied_def)
    from okStep_acceptStop [OF tx_tables [OF t] x(1) _ _ _ this] x(2) run rr
    have ok: "okStep (InstanceID (runIdentity r)) (committed w') (execAll ([?ins] @ [?mark]) (committed w'))"
      by (simp add: startRowFor_def)
    show ?thesis
      by (rule commit_mirrors [OF t ok]) (use accepted_rows [OF rr x run] in \<open>simp_all add: stopState_def\<close>)
  qed
  show ?thesis
    unfolding acceptTx_def
  proof (rule begin_rule [OF st P], rule exec_rule [OF st], assumption)
    fix w2 assume "tx ?P [] w2" and "A (execAll [] (committed w2)) ?ins"
    with keys have "operation \<notin> tOperationID ` set (stops (committed w2))"
      unfolding primaryKeys_def execAll_def fold.simps id_apply by blast
    then show "occupied (Some ([] @ [?ins])) (committed w2)" by (simp add: occupied_def)
  next
    fix w2 w' and n :: nat
    assume t: "tx ?P ([] @ [?ins]) w'"
    have "holds (permitted (StationID (runIdentity r)) (InstanceID (runIdentity r)) G) (others A r) ?Q w' (jExec ?mark (\<lambda>n.
             failIf (n \<noteq> 1) ErrConflict
             (jCommit (Ret (Inr (rec\<lparr>rPhase := ''stopping'', rRevision := rRevision rec + 1\<rparr>,
               \<lparr>stOperationID = operation, stStartID = OperationID r, stBootID = boot,
                stProgress = \<lparr>Proof = zeroProof, Phase = ''accepted''\<rparr>, stRevision = 1\<rparr>))))))"
      by (rule jExec_rule [OF st t [unfolded append_Nil]])
        (use fin tx_tables in \<open>simp_all only: holds_failIf insertsKey.simps simp_thms sum.case split: if_split\<close>)
    then show "holds (permitted (StationID (runIdentity r)) (InstanceID (runIdentity r)) G) (others A r) ?Q w' (case Inr n of
         Inl e \<Rightarrow> Ret (Inl (if e = UniqueViolation then ErrConflict else sqlError e)) | Inr _ \<Rightarrow> jExec ?mark (\<lambda>n.
             failIf (n \<noteq> 1) ErrConflict
             (jCommit (Ret (Inr (rec\<lparr>rPhase := ''stopping'', rRevision := rRevision rec + 1\<rparr>,
               \<lparr>stOperationID = operation, stStartID = OperationID r, stBootID = boot,
                stProgress = \<lparr>Proof = zeroProof, Phase = ''accepted''\<rparr>, stRevision = 1\<rparr>))))))"
      by (simp only: sum.case)
  qed simp_all
qed

lemma acceptStop_rule:
  assumes keys: "primaryKeys A" and m: "mirrors r w rec"
  shows "holds (permitted (StationID (runIdentity r)) (InstanceID (runIdentity r)) G) (others A r)
    (\<lambda>w' res. case res of Inl e \<Rightarrow> tablesOk w' | Inr c \<Rightarrow> stopState r (rObservation rec) w' c) w
    (acceptStop r p rec operation boot)"
  unfolding acceptStop_def
proof (rule query_rule)
  show ses: "session r w" using m by (simp add: mirrors_def)
  fix w' assume ses': "session r w'" and rel: "rely (StationID (runIdentity r)) w w'"
  let ?scan = "scanStop r p rec operation boot (firstRow (filter (\<lambda>t. tOperationID t = operation) (stops (committed w))))"
  have old: "stopState r (rObservation rec) w' (rec, s)" if "?scan = Inr s" for s
  proof -
    have "stopState r (rObservation rec) w (rec, s)"
      using scanStop_row [OF that] m by (auto simp: stopState_def mirrorsStop_def stopRows_def mirrors_def)
    from stopState_rely [OF this rel] show ?thesis .
  qed
  have new: "holds (permitted (StationID (runIdentity r)) (InstanceID (runIdentity r)) G) (others A r)
     (\<lambda>w' res. case res of Inl e \<Rightarrow> tablesOk w' | Inr c \<Rightarrow> stopState r (rObservation rec) w' c) w'
     (acceptTx r rec operation boot)" if "rPhase rec = ''running''"
    by (rule acceptTx_rule [OF keys mirrors_rely [OF m rel] that])
  show "holds (permitted (StationID (runIdentity r)) (InstanceID (runIdentity r)) G) (others A r)
     (\<lambda>w' res. case res of Inl e \<Rightarrow> tablesOk w' | Inr c \<Rightarrow> stopState r (rObservation rec) w' c) w'
     (typed toStop (\<lambda>row. case scanStop r p rec operation boot row of
         Inr s \<Rightarrow> Ret (Inr (rec, s))
       | Inl e \<Rightarrow>
           if e \<noteq> ErrNoRows then Ret (Inl e)
           else failIf (rPhase rec \<noteq> ''running'' \<or> BootID (rObservation rec) \<noteq> boot) ErrConflict
             (acceptTx r rec operation boot)) (answerTo (QStop operation) (committed w)))"
    using old new session_tables [OF ses'] by (cases ?scan) simp_all
qed (simp add: session_tables)

section \<open>Sealing and removing\<close>

text \<open>The parts of a stop that only read keep what the session knows.\<close>

lemma stop_keeps:
  assumes "onlyCalls readsKube t" and "stopState r observed w c"
  shows "holds (stopCalls r) (others A r) (\<lambda>w' _. stopState r observed w' c) w t"
proof -
  have "holds (stopCalls r) (others A r) (\<lambda>w' a. stopState r observed w' c \<and> True) w t"
  proof (rule holds_reads [where P = readsKube and I = "\<lambda>w. stopState r observed w c" and Q = "\<lambda>_. True", OF assms(1) _ assms(2)])
    show "stopCalls r m q" if "readsKube q" for m q using that by (cases q) auto
    show "stopState r observed m' c" if "readsKube q" "stopState r observed m c" "others A r m q a m'" for m q a m'
      using that stopState_rely [OF that(2)] by (cases q) (auto simp: env_def)
  qed (simp add: returns_iff)
  then show ?thesis by simp
qed

lemma keeps_then:
  assumes "onlyCalls readsKube t" and "stopState r observed w c"
    and "\<And>w' x. stopState r observed w' c \<Longrightarrow> holds (stopCalls r) (others A r) Q w' (k x)"
    and "\<And>w' e. tablesOk w' \<Longrightarrow> Q w' (Inl e)"
  shows "holds (stopCalls r) (others A r) Q w (thenP t k)"
  unfolding holds_thenP
  by (rule holds_mono [OF stop_keeps [OF assms(1,2)]]) (use assms(3,4) stopState_tables in \<open>auto split: sum.splits\<close>)

lemma keeps_secret:
  assumes "stopState r observed w c"
    and "\<And>w' x. stopState r observed w' c \<Longrightarrow> holds (stopCalls r) (others A r) Q w' (k x)"
  shows "holds (stopCalls r) (others A r) Q w (kGetSecret ns n k)"
  using assms(2) stopState_rely [OF assms(1)] by (auto simp: env_def)

text \<open>The end of a seal: the proof is recorded, unless another one was returned.\<close>

lemma seal_rule:
  assumes "stopState r observed w c"
  shows "holds (stopCalls r) (others A r) (\<lambda>w' res. case res of
      Inl e \<Rightarrow> tablesOk w' | Inr c' \<Rightarrow> stopState r observed w' c' \<and> Phase (stProgress (snd c')) \<noteq> ''accepted'') w
    (bindP (checkpointStop c next) (\<lambda>(e, c'). case e of Some x \<Rightarrow> Ret (Inl x) | None \<Rightarrow> Ret (Inr c')))"
  unfolding holds_bindP
  by (rule holds_mono [OF checkpointStop_step [OF assms]]) (auto split: option.splits if_splits)

lemma sealVisit_rule:
  assumes peer: "\<And>ob tok op. onlyCalls readsKube (stopper r p ob tok op)" and s: "stopState r observed w c"
  shows "holds (stopCalls r) (others A r) (\<lambda>w' res. case res of
      Inl e \<Rightarrow> tablesOk w' | Inr c' \<Rightarrow> stopState r observed w' c' \<and> Phase (stProgress (snd c')) \<noteq> ''accepted'') w
    (sealVisit L stopper r p operation c)"
proof -
  let ?H = "\<lambda>w t. holds (stopCalls r) (others A r) (\<lambda>w' res. case res of
      Inl e \<Rightarrow> tablesOk w' | Inr c' \<Rightarrow> stopState r observed w' c' \<and> Phase (stProgress (snd c')) \<noteq> ''accepted'') w t"
  have proved: "?H w (failIf (pf \<noteq> stopProof r p (rObservation (fst c)) operation) ErrBinding
      (thenP (ObserveWorker L r p (rVolume (fst c)) (rObservation (fst c))) (\<lambda>_.
      bindP (checkpointStop c \<lparr>Proof = pf, Phase = ''sealed''\<rparr>) (\<lambda>(e, c').
      case e of Some x \<Rightarrow> Ret (Inl x) | None \<Rightarrow> Ret (Inr c')))))" if w: "stopState r observed w c" for w pf
    unfolding holds_failIf using stopState_tables [OF w]
    by (auto intro!: keeps_then [OF ObserveWorker_reads w] seal_rule)
  have sealed: "?H w (case got of
          Inl e \<Rightarrow> Ret (Inl ErrBinding)
        | Inr sec \<Rightarrow>
      failIf (\<not> secretMatches L sec (runIdentity r) p (SecretUID (rObservation (fst c)))) ErrBinding
      (thenP (stopper r p (rObservation (fst c)) (get (Data sec) ''worker-token'') operation) (\<lambda>proof.
      failIf (proof \<noteq> stopProof r p (rObservation (fst c)) operation) ErrBinding
      (thenP (ObserveWorker L r p (rVolume (fst c)) (rObservation (fst c))) (\<lambda>_.
      bindP (checkpointStop c \<lparr>Proof = proof, Phase = ''sealed''\<rparr>) (\<lambda>(e, c').
      case e of Some x \<Rightarrow> Ret (Inl x) | None \<Rightarrow> Ret (Inr c')))))))" if w: "stopState r observed w c" for w got
    using stopState_tables [OF w]
    by (cases got) (auto simp del: holds_failIf simp: failIf_def [of "\<not> secretMatches _ _ _ _ _"]
      intro!: keeps_then [OF peer w] proved)
  show ?thesis
    unfolding sealVisit_def Let_def
    by (rule keeps_then [OF ObserveWorker_reads s], rule keeps_secret, assumption, rule sealed, assumption) simp
qed

lemma remove_rule:
  assumes "stopState r observed w c" and "Phase (stProgress (snd c)) \<noteq> ''accepted''"
  shows "holds (stopCalls r) (others A r) (\<lambda>w' _. tablesOk w') w
    (bindP (RemoveWorker L r p b (rObservation (fst c)) checkpointStop (stProgress (snd c)) c)
      (\<lambda>((_, e), c'). case e of Some x \<Rightarrow> Ret (Inl x) | None \<Rightarrow> Ret (Inr (snd c'))))"
proof -
  from assms(1) have "stopState r (rObservation (fst c)) w c" by (simp add: stopState_def)
  from stopping.RemoveWorker_guarded [OF this stopState_progress [OF assms]] show ?thesis
    unfolding holds_bindP by (rule holds_mono) (auto simp: finished_def stopState_tables split: option.splits)
qed

lemma sum_case_mono:
  assumes "case a of Inl e \<Rightarrow> P e | Inr c \<Rightarrow> Q c" and "\<And>e. P e \<Longrightarrow> P' e" and "\<And>c. Q c \<Longrightarrow> Q' c"
  shows "case a of Inl e \<Rightarrow> P' e | Inr c \<Rightarrow> Q' c"
  using assms by (cases a) simp_all

lemma stopVisit_rule:
  assumes keys: "primaryKeys A" and peer: "\<And>ob tok op. onlyCalls readsKube (stopper r p ob tok op)" and m: "mirrors r w rec"
  shows "holds (stopCalls r) (others A r) (\<lambda>w' _. tablesOk w') w (stopVisit L stopper r p operation boot rec)"
proof -
  let ?H = "\<lambda>w t. holds (stopCalls r) (others A r) (\<lambda>w' _. tablesOk w') w t"
  have seal: "?H w (thenP (if Phase (stProgress (snd c)) = ''accepted'' then sealVisit L stopper r p operation c else Ret (Inr c)) (\<lambda>c.
       bindP (RemoveWorker L r p (rVolume (fst c)) (rObservation (fst c)) checkpointStop (stProgress (snd c)) c)
         (\<lambda>((_, e), c'). case e of Some x \<Rightarrow> Ret (Inl x) | None \<Rightarrow> Ret (Inr (snd c')))))"
    if w: "stopState r (rObservation rec) w c" for w c
  proof -
    have "holds (stopCalls r) (others A r) (\<lambda>w' res. case res of
        Inl e \<Rightarrow> tablesOk w' | Inr c' \<Rightarrow> stopState r (rObservation rec) w' c' \<and> Phase (stProgress (snd c')) \<noteq> ''accepted'') w
        (if Phase (stProgress (snd c)) = ''accepted'' then sealVisit L stopper r p operation c else Ret (Inr c))"
      using sealVisit_rule [where stopper = stopper, OF peer w] w by simp
    then show ?thesis
      unfolding holds_thenP
      by (rule holds_mono) (erule sum_case_mono, assumption, erule conjE, rule remove_rule)
  qed
  show ?thesis
    unfolding stopVisit_def holds_thenP [of _ _ _ _ "acceptStop _ _ _ _ _"]
    by (rule holds_mono [OF acceptStop_rule [OF keys m]], erule sum_case_mono, assumption)
      (simp only: holds.simps stopState_tables seal if_True simp_thms split: if_split)
qed

lemma Stop_rule:
  assumes "primaryKeys A" and "readOnlyPeers J" and "tablesOk w" and "pending w = None"
  shows "holds (stopCalls r) (others A r) (\<lambda>w' _. tablesOk w') w (Stop L J r p operation boot)"
proof (cases "jStopper J")
  case (Some stopper)
  have "onlyCalls readsKube (stopper r p ob tok op)" for ob tok op
    using assms(2) Some by (simp add: readOnlyPeers_def)
  from stopVisit_rule [where stopper = stopper, OF assms(1) this]
  have "holds (stopCalls r) (others A r) (\<lambda>w' _. tablesOk w') w
      (withLockedRecord L J r p False (stopVisit L stopper r p operation boot))"
    by (intro withLockedRecord_rule [OF assms(3,4)])
  with Some assms(3) show ?thesis by (simp add: Stop_def)
qed (use assms(3) in \<open>simp add: Stop_def\<close>)

end
