(* ===== verification/AppAcceptSafety.thy ===== *)
theory AppAcceptSafety
  imports AppStopSafety
begin

text \<open>
  Accepting a start in the world: one transaction under the instance's lock inserts the start
  and reserves its volume under the station's pool lock. The commit is an \<open>okStep\<close>, and the
  only changes of the cluster are those of \<open>EnsurePoolClaim\<close>, made under the pool lock.
\<close>

section \<open>Assertions of the transaction\<close>

text \<open>Under the transaction's instance lock the rows of the instance stay what they were.\<close>

definition underLock :: "Run \<Rightarrow> startRow list \<Rightarrow> world \<Rightarrow> bool" where
  "underLock r S w \<longleftrightarrow> instKey (StationID (runIdentity r)) (InstanceID (runIdentity r)) \<in> locks w \<and>
     startsOf (InstanceID (runIdentity r)) (committed w) = S"

definition underPool :: "Run \<Rightarrow> world \<Rightarrow> bool" where
  "underPool r w \<longleftrightarrow> poolLock (StationID (runIdentity r)) \<in> locks w"

text \<open>The statements of a reservation: none, the rebinding of the instance's row, or a row for
  a volume that no row uses.\<close>

definition reservation :: "Run \<Rightarrow> sql list \<Rightarrow> world \<Rightarrow> bool" where
  "reservation r ss w \<longleftrightarrow> ss = [] \<or>
     (\<exists>hash ns claim uid b. ss = [UpdateWorkspace (InstanceID (runIdentity r)) hash ns claim uid b]) \<or>
     (\<exists>x. ss = [InsertWorkspace x] \<and> wInstanceID x = InstanceID (runIdentity r) \<and> underPool r w \<and>
       workspacesOf (InstanceID (runIdentity r)) (committed w) = [] \<and> wPVUID x \<notin> set (pvUIDs (committed w)))"

definition reserving :: "Run \<Rightarrow> startRow list \<Rightarrow> sql list \<Rightarrow> world \<Rightarrow> bool" where
  "reserving r S ss w \<longleftrightarrow> underLock r S w \<and> reservation r ss w"

lemma rely_locks: "rely st w w' \<Longrightarrow> locks w' = locks w"
  by (simp add: rely_def locks_def)

lemma rely_instance: "rely st w w' \<Longrightarrow> instKey st inst \<in> locks w \<Longrightarrow> sameInstance inst (committed w) (committed w')"
  by (simp add: rely_def)

lemma rely_pool: "rely st w w' \<Longrightarrow> poolLock st \<in> locks w \<Longrightarrow> set (pvUIDs (committed w')) \<subseteq> set (pvUIDs (committed w))"
  by (simp add: rely_def)

lemma underLock_stable: "stableAt (StationID (runIdentity r)) (underLock r S)"
  using rely_instance rely_locks by (fastforce simp: stableAt_def underLock_def locks_def sameInstance_def)

lemma reserving_stable: "stableAt (StationID (runIdentity r)) (reserving r S ss)"
  unfolding stableAt_def
proof (intro conjI allI impI)
  fix w w' assume rel: "rely (StationID (runIdentity r)) w w'" and res: "reserving r S ss w"
  then have lock: "instKey (StationID (runIdentity r)) (InstanceID (runIdentity r)) \<in> locks w"
    by (simp add: reserving_def underLock_def)
  have "underLock r S w'" using underLock_stable res rel by (auto simp: stableAt_def reserving_def)
  moreover have "reservation r ss w'"
    using res rely_instance [OF rel lock] rely_pool [OF rel] rely_locks [OF rel]
    by (auto simp: reserving_def reservation_def underPool_def sameInstance_def)
  ultimately show "reserving r S ss w'" by (simp add: reserving_def)
qed (simp add: reserving_def underLock_def reservation_def underPool_def locks_def)

text \<open>A fresh volume found under the pool lock stays fresh.\<close>

definition unused :: "Run \<Rightarrow> startRow list \<Rightarrow> string \<Rightarrow> world \<Rightarrow> bool" where
  "unused r S uid w \<longleftrightarrow> underLock r S w \<and> underPool r w \<and>
     workspacesOf (InstanceID (runIdentity r)) (committed w) = [] \<and> uid \<notin> set (pvUIDs (committed w))"

definition pooled :: "Run \<Rightarrow> startRow list \<Rightarrow> workspaceRow list \<Rightarrow> world \<Rightarrow> bool" where
  "pooled r S W w \<longleftrightarrow> underLock r S w \<and> underPool r w \<and>
     workspacesOf (InstanceID (runIdentity r)) (committed w) = W"

lemma pooled_stable: "stableAt (StationID (runIdentity r)) (pooled r S W)"
  unfolding stableAt_def
proof (intro conjI allI impI)
  fix w w' assume rel: "rely (StationID (runIdentity r)) w w'" and p: "pooled r S W w"
  then have lock: "instKey (StationID (runIdentity r)) (InstanceID (runIdentity r)) \<in> locks w"
    by (simp add: pooled_def underLock_def)
  with p rel underLock_stable rely_instance [OF rel lock] rely_locks [OF rel] show "pooled r S W w'"
    by (auto simp: pooled_def stableAt_def underPool_def sameInstance_def)
qed (simp add: pooled_def underLock_def underPool_def locks_def)

lemma unused_stable: "stableAt (StationID (runIdentity r)) (unused r S uid)"
proof -
  have "unused r S uid w \<longleftrightarrow> pooled r S [] w \<and> uid \<notin> set (pvUIDs (committed w))" for w
    by (auto simp: unused_def pooled_def)
  then show ?thesis
    using pooled_stable [of r S "[]"] rely_pool
    unfolding stableAt_def by (simp add: pooled_def underPool_def) blast
qed

section \<open>The commit\<close>

lemma latest_None: "latest ss = None \<longleftrightarrow> ss = []"
  by (cases ss) (auto split: option.splits)

lemma latest_max: "latest ss = Some s \<Longrightarrow> s \<in> set ss \<and> (\<forall>x \<in> set ss. sGeneration x \<le> sGeneration s)"
proof (induction ss arbitrary: s)
  case (Cons a ss)
  show ?case
  proof (cases "latest ss")
    case None
    with Cons.prems show ?thesis by (simp add: latest_None)
  next
    case (Some t)
    with Cons.IH [of t] Cons.prems show ?thesis by (fastforce split: if_splits)
  qed
qed simp

text \<open>The generation a start may have after the rows \<open>S\<close> of its instance.\<close>

definition nextGeneration :: "startRow list \<Rightarrow> int \<Rightarrow> bool" where
  "nextGeneration S g \<longleftrightarrow> (\<forall>s \<in> set S. sGeneration s < g) \<and>
     (g \<noteq> 1 \<longrightarrow> (\<exists>s \<in> set S. sGeneration s = g - 1 \<and> sPhase s = ''stopped''))"

lemma updateWhere_workspaces:
  assumes "\<And>x. f x = x\<lparr>wProfileHash := hash, wNamespace := ns, wPVCName := claim, wPVCUID := uid, wBinding := b\<rparr>"
  shows "map wPVUID (updateWhere (\<lambda>w. wInstanceID w = inst) f ws) = map wPVUID ws"
    and "map wInstanceID (updateWhere (\<lambda>w. wInstanceID w = inst) f ws) = map wInstanceID ws"
    and "i \<noteq> inst \<Longrightarrow> filter (\<lambda>w. wInstanceID w = i) (updateWhere (\<lambda>w. wInstanceID w = inst) f ws) = filter (\<lambda>w. wInstanceID w = i) ws"
  by (rule map_updateWhere, simp add: assms)+ (rule filter_updateWhere, simp add: assms)

lemma accept_ok:
  assumes t: "tx (reserving r S ss) (ss @ [InsertStart n]) w" and n: "rowOk n" "sInstanceID n = InstanceID (runIdentity r)"
    "sPhase n = ''accepted''" and gen: "nextGeneration S (sGeneration n)"
  shows "okStep (InstanceID (runIdentity r)) (committed w) (execAll (ss @ [InsertStart n]) (committed w))"
proof -
  let ?d = "committed w" and ?i = "InstanceID (runIdentity r)"
  from t have inv: "Inv ?d" and res: "reservation r ss w" and S: "startsOf ?i ?d = S"
    and key: "sOperationID n \<notin> sOperationID ` set (starts ?d)"
    by (auto simp: tx_def reserving_def underLock_def occupied_def)
  have g1: "sGeneration s < sGeneration n" if "s \<in> set (starts ?d)" "sInstanceID s = ?i" for s
    using gen S that by (auto simp: nextGeneration_def startsOf_def)
  have g2: "\<exists>s \<in> set (starts ?d). sInstanceID s = ?i \<and> sGeneration s = sGeneration n - 1 \<and> sPhase s = ''stopped''"
    if "sGeneration n \<noteq> 1" using gen S that by (auto simp: nextGeneration_def startsOf_def)
  have base: "distinct (map wPVUID (workspaces ?d) @ map lPVUID (legacy ?d))" "distinct (map wInstanceID (workspaces ?d))"
    using inv by (simp_all add: Inv_def pvUIDs_def)
  have step: "okStep ?i ?d (?d\<lparr>workspaces := ws, starts := starts ?d @ [n]\<rparr>)"
    if "distinct (map wPVUID ws @ map lPVUID (legacy ?d))" "distinct (map wInstanceID ws)"
      "\<And>i. i \<noteq> ?i \<Longrightarrow> filter (\<lambda>w. wInstanceID w = i) ws = workspacesOf i ?d" for ws
    by (rule okStep_accept [OF inv n key]) (use g1 g2 that in blast)+
  consider "ss = []" | hash ns claim uid b where "ss = [UpdateWorkspace ?i hash ns claim uid b]"
    | x where "ss = [InsertWorkspace x]" "wInstanceID x = ?i" "workspacesOf ?i ?d = []" "wPVUID x \<notin> set (pvUIDs ?d)"
    using res by (auto simp: reservation_def)
  then show ?thesis
  proof cases
    case 1
    with step [OF base] show ?thesis by (simp add: execAll_def workspacesOf_def)
  next
    case 2
    let ?f = "\<lambda>w. w\<lparr>wProfileHash := hash, wNamespace := ns, wPVCName := claim, wPVCUID := uid, wBinding := b\<rparr>"
    note upd = updateWhere_workspaces [where f = ?f and inst = ?i, OF refl]
    have "okStep ?i ?d (?d\<lparr>workspaces := updateWhere (\<lambda>w. wInstanceID w = ?i) ?f (workspaces ?d), starts := starts ?d @ [n]\<rparr>)"
      by (rule step, simp_all only: upd(1,2) base) (simp only: workspacesOf_def, erule upd(3))
    with 2 show ?thesis by (simp add: execAll_def)
  next
    case 3
    have fresh: "?i \<notin> wInstanceID ` set (workspaces ?d)" using 3(3) by (auto simp: workspacesOf_def filter_empty_conv)
    have "okStep ?i ?d (?d\<lparr>workspaces := workspaces ?d @ [x], starts := starts ?d @ [n]\<rparr>)"
      by (rule step) (use base fresh 3 in \<open>auto simp: pvUIDs_def workspacesOf_def\<close>)
    with 3(1) show ?thesis by (simp add: execAll_def)
  qed
qed


section \<open>Reading under the transaction\<close>

definition storageOnly :: "kreq \<Rightarrow> bool" where
  "storageOnly q = (case q of CreatePVC _ _ \<Rightarrow> True | UpdatePVC _ _ \<Rightarrow> True | UpdatePV _ \<Rightarrow> True
     | UpdatePVStatus _ \<Rightarrow> True | _ \<Rightarrow> False)"

text \<open>The guard of an acceptance: the cluster's storage changes only, under the pool lock.\<close>

definition acceptGuard :: "Run \<Rightarrow> world \<Rightarrow> kreq \<Rightarrow> bool" where
  "acceptGuard r w q \<longleftrightarrow> storageOnly q \<and> underPool r w"

abbreviation "acceptCalls r \<equiv> permitted (StationID (runIdentity r)) (InstanceID (runIdentity r)) (acceptGuard r)"

definition storageCalls :: "jreq req \<Rightarrow> bool" where
  "storageCalls q \<longleftrightarrow> (\<exists>k. q = K k \<and> (mutates k \<longrightarrow> storageOnly k))"

lemma storageCalls_K [simp]: "storageCalls (K k) \<longleftrightarrow> (mutates k \<longrightarrow> storageOnly k)"
  by (simp add: storageCalls_def)

lemma reads_storage: "onlyCalls readsKube t \<Longrightarrow> onlyCalls storageCalls t"
  by (erule onlyCalls_mono) (auto simp: storageCalls_def readsKube_def split: req.splits)

lemma findPoolPV_calls:
  assumes "\<And>x. onlyCalls storageCalls (k x)"
  shows "onlyCalls storageCalls (findPoolPV st ns pool claim names k)"
  by (induction names) (auto simp: assms split: sum.splits)

lemma awaitBound_calls: "onlyCalls storageCalls (awaitBound n ns claim pvName)"
  by (induction n) (auto split: option.splits)

lemma bindPool_calls: "onlyCalls storageCalls (bindPool ns claim v created)"
  by (auto simp: bindPool_def Let_def storageOnly_def awaitBound_calls split: sum.splits)

lemma EnsurePoolClaim_calls: "onlyCalls storageCalls (EnsurePoolClaim st ns pool claim)"
  by (auto simp: EnsurePoolClaim_def Let_def storageOnly_def split: sum.splits option.splits
      intro!: findPoolPV_calls bindPool_calls)


lemma tx_storage:
  assumes "stableAt (StationID (runIdentity r)) P" and "tx P ss w" and "\<And>w. P w \<Longrightarrow> underPool r w" and "onlyCalls storageCalls t"
    and "\<And>w' x. tx P ss w' \<Longrightarrow> holds (acceptCalls r) (others A r) Q w' (k x)"
  shows "holds (acceptCalls r) (others A r) Q w (bindP t k)"
proof -
  have "holds (acceptCalls r) (others A r) (\<lambda>w' a. tx P ss w' \<and> True) w t"
    by (rule tx_reads [OF assms(1,2,4)])
      (use assms(3) in \<open>auto simp: returns_iff storageCalls_def acceptGuard_def tx_def\<close>)
  then show ?thesis unfolding holds_bindP by (rule holds_mono) (use assms(5) in blast)
qed

section \<open>The reservation\<close>

lemma inspectOrCreate_rule:
  assumes "stableAt (StationID (runIdentity r)) P" and "tx P ss w" and "\<And>w. P w \<Longrightarrow> underPool r w"
    and "\<And>w' x. tx P ss w' \<Longrightarrow> holds (acceptCalls r) (others A r) Q w' (k x)" and "\<And>w' e. tablesOk w' \<Longrightarrow> Q w' (Inl e)"
  shows "holds (acceptCalls r) (others A r) Q w (inspectOrCreate L r p claim k)"
proof -
  note inspect = tx_storage [OF assms(1) _ assms(3) reads_storage [OF InspectVolume_reads]]
  have again: "holds (acceptCalls r) (others A r) Q w' (bindP (EnsurePoolClaim (StationID (runIdentity r)) (pNamespace p) (pPool p) claim)
      (\<lambda>e. case e of Some x \<Rightarrow> Ret (Inl x) | None \<Rightarrow> bindP (InspectVolume L (runIdentity r) p claim None (\<lambda>_. False)) k))"
    if "tx P ss w'" for w'
    by (rule tx_storage [OF assms(1) that assms(3) EnsurePoolClaim_calls])
      (auto simp: assms(5) tx_tables split: option.splits intro!: inspect assms(4))
  show ?thesis
    unfolding inspectOrCreate_def
    by (rule inspect [OF assms(2)]) (use again assms(4) in \<open>auto split: if_split\<close>)
qed

lemma unused_pooled:
  assumes "tx (pooled r S []) [] w" and "answerTo (QUidUsed c v) (execAll [] (committed w)) = ABool False"
  shows "tx (unused r S v) [] w"
  using assms by (auto simp: tx_def unused_def pooled_def pvUIDs_def execAll_def list_ex_iff)

definition reservedAs :: "Run \<Rightarrow> startRow list \<Rightarrow> world \<Rightarrow> err + 'a \<Rightarrow> bool" where
  "reservedAs r S w res \<longleftrightarrow> (case res of Inl e \<Rightarrow> tablesOk w | Inr b \<Rightarrow> (\<exists>ss. tx (reserving r S ss) ss w))"

lemma reservedAs_Inl [simp]: "reservedAs r S w (Inl e) = tablesOk w"
  by (simp add: reservedAs_def)

lemma tx_insert_rule:
  assumes "tx (unused r S (PVUID b)) [] w"
  shows "holds (acceptCalls r) (others A r) (reservedAs r S) w
    (jExec (InsertWorkspace (workspaceRowOf L r p b)) (\<lambda>_. Ret (Inr b)))"
proof (rule jExec_rule [OF unused_stable assms])
  fix w' and n :: nat
  assume "tx (unused r S (PVUID b)) ([] @ [InsertWorkspace (workspaceRowOf L r p b)]) w'"
  then have "tx (reserving r S [InsertWorkspace (workspaceRowOf L r p b)]) [InsertWorkspace (workspaceRowOf L r p b)] w'"
    by (auto simp: tx_def unused_def reserving_def reservation_def workspaceRowOf_def Let_def)
  then show "holds (acceptCalls r) (others A r) (reservedAs r S) w' (Ret (Inr b))" by (auto simp: reservedAs_def)
qed simp_all


lemma reserveLoop_rule:
  assumes "tx (pooled r S []) [] w"
  shows "holds (acceptCalls r) (others A r) (reservedAs r S) w (reserveLoop L r p claims)"
  using assms
proof (induction claims arbitrary: w)
  case Nil
  then show ?case by (simp add: tx_tables)
next
  case (Cons claim claims)
  let ?H = "holds (acceptCalls r) (others A r) (reservedAs r S)"
  let ?used = "\<lambda>b. jBool (QUidUsed (PVCUID b) (PVUID b)) (\<lambda>used.
      if used then reserveLoop L r p claims
      else jExec (InsertWorkspace (workspaceRowOf L r p b)) (\<lambda>_. Ret (Inr b)))"
  have used: "?H w (?used b)" if t: "tx (pooled r S []) [] w" for w b
  proof (rule tx_query_rule [OF pooled_stable t])
    fix w' assume t': "tx (pooled r S []) [] w'" and rel: "rely (StationID (runIdentity r)) w w'"
    let ?ans = "answerTo (QUidUsed (PVCUID b) (PVUID b)) (execAll [] (committed w))"
    have fresh: "tx (unused r S (PVUID b)) [] w'" if "?ans = ABool False"
      by (rule tx_rely [OF unused_stable unused_pooled [OF t that] rel])
    show "?H w' (typed toBool (\<lambda>used. if used then reserveLoop L r p claims
        else jExec (InsertWorkspace (workspaceRowOf L r p b)) (\<lambda>_. Ret (Inr b))) ?ans)"
    proof (cases "?ans = ABool False")
      case True
      show ?thesis unfolding True using tx_insert_rule [OF fresh [OF True]] by (simp add: typed_def del: holds_ask)
    next
      case False
      then have "?ans = ABool True" by (simp add: execAll_def)
      then show ?thesis using Cons.IH [OF t'] by (simp add: typed_def del: holds_ask answerTo.simps)
    qed
  qed simp
  have inspected: "?H w (inspectOrCreate L r p claim (\<lambda>res. case res of
         Inl e \<Rightarrow> if e = ErrBinding \<or> e = ErrBusy \<or> e = ErrCapacity then reserveLoop L r p claims else Ret (Inl e)
       | Inr b \<Rightarrow> ?used b))" if t: "tx (pooled r S []) [] w" for w
  proof (rule inspectOrCreate_rule [OF pooled_stable t])
    fix w' :: world and x :: "err + Volume" assume t': "tx (pooled r S []) [] w'"
    show "?H w' (case x of
         Inl e \<Rightarrow> if e = ErrBinding \<or> e = ErrBusy \<or> e = ErrCapacity then reserveLoop L r p claims else Ret (Inl e)
       | Inr b \<Rightarrow> ?used b)"
      using Cons.IH [OF t'] used [OF t'] tx_tables [OF t'] by (cases x) (simp_all del: holds_ask)
  qed (simp_all add: pooled_def)
  show ?case
    unfolding reserveLoop.simps
  proof (rule tx_query_rule [OF pooled_stable Cons.prems])
    fix w' assume t': "tx (pooled r S []) [] w'"
    show "?H w' (typed toBool (\<lambda>used. if used then reserveLoop L r p claims
       else inspectOrCreate L r p claim (\<lambda>res. case res of
         Inl e \<Rightarrow> if e = ErrBinding \<or> e = ErrBusy \<or> e = ErrCapacity then reserveLoop L r p claims else Ret (Inl e)
       | Inr b \<Rightarrow> ?used b)) (answerTo (QClaimUsed (StationID (runIdentity r)) (pNamespace p) claim) (execAll [] (committed w))))"
      unfolding holds_typed using inspected [OF t'] Cons.IH [OF t'] by (simp del: holds_ask)
  qed simp
qed


lemma pooled_reserving: "tx (pooled r S W) [] w \<Longrightarrow> tx (reserving r S []) [] w"
  by (simp add: tx_def pooled_def reserving_def reservation_def)

lemma kube_tx:
  assumes "stableAt st P" and "tx P ss w" and "\<not> mutates q"
    and "\<And>w' x. tx P ss w' \<Longrightarrow> holds (permitted st i G) (env A st) Q w' (k x)"
  shows "holds (permitted st i G) (env A st) Q w (ask (K q) as k)"
  using assms(3,4) tx_rely [OF assms(1,2)] by (auto simp: env_def)

lemma rebind_rule:
  assumes t: "tx (pooled r S W) [] w"
  shows "holds (acceptCalls r) (others A r) (reservedAs r S) w (rebind L r p b)"
proof -
  let ?H = "holds (acceptCalls r) (others A r) (reservedAs r S)"
  have update: "?H w (jExec (UpdateWorkspace (InstanceID (runIdentity r)) h n c u v) (\<lambda>_. Ret (Inr x)))"
    if t: "tx (pooled r S W) [] w" for w h n c u v and x :: Volume
  proof (rule jExec_rule [OF pooled_stable t])
    fix w' and m :: nat
    assume "tx (pooled r S W) ([] @ [UpdateWorkspace (InstanceID (runIdentity r)) h n c u v]) w'"
    then have "tx (reserving r S [UpdateWorkspace (InstanceID (runIdentity r)) h n c u v])
        [UpdateWorkspace (InstanceID (runIdentity r)) h n c u v] w'"
      by (simp add: tx_def pooled_def reserving_def reservation_def)
    then show "?H w' (Ret (Inr x))" by (auto simp: reservedAs_def)
  qed simp_all
  have inspect: "?H w (bindP (InspectVolume L (runIdentity r) p claim e alive) (\<lambda>res. case res of
      Inl _ \<Rightarrow> Ret (Inl ErrBinding)
    | Inr x \<Rightarrow> jExec (UpdateWorkspace (InstanceID (runIdentity r)) (Hash L p) (pNamespace p) (PVCName x)
        (PVCUID x) (Json x)) (\<lambda>_. Ret (Inr x))))"
    if t: "tx (pooled r S W) [] w" for w claim e alive
    by (rule tx_storage [OF pooled_stable t _ reads_storage [OF InspectVolume_reads]])
      (auto simp: pooled_def tx_tables simp del: holds_ask split: sum.splits intro!: update)
  have got: "?H w (case got of
         Inl _ \<Rightarrow> Ret (Inl ErrBinding)
       | Inr c \<Rightarrow>
           failIf (\<not> validUID L (UID (pvcMeta c))) ErrBinding
           (let candidate = \<lparr>volIdentity = runIdentity r, ProfileHash = Hash L p, PVCName = PVCName b,
                  PVCUID = UID (pvcMeta c), PVName = PVName b, PVUID = PVUID b\<rparr> in
            bindP (InspectVolume L (runIdentity r) p (PVCName b) (Some candidate) (\<lambda>_. False)) (\<lambda>res. case res of
                Inl _ \<Rightarrow> Ret (Inl ErrBinding)
              | Inr inspected \<Rightarrow>
                  jExec (UpdateWorkspace (InstanceID (runIdentity r)) (Hash L p) (pNamespace p) (PVCName inspected)
                    (PVCUID inspected) (Json inspected)) (\<lambda>_. Ret (Inr inspected)))))"
    if "tx (pooled r S W) [] w" for w and got :: "kerr + pvc"
    using inspect [OF that] tx_tables [OF that] by (cases got) (simp_all add: Let_def del: holds_ask)
  have "?H w (kGetPVC (pNamespace p) (PVCName b) (\<lambda>got. case got of
         Inl _ \<Rightarrow> Ret (Inl ErrBinding)
       | Inr c \<Rightarrow>
           failIf (\<not> validUID L (UID (pvcMeta c))) ErrBinding
           (let candidate = \<lparr>volIdentity = runIdentity r, ProfileHash = Hash L p, PVCName = PVCName b,
                  PVCUID = UID (pvcMeta c), PVName = PVName b, PVUID = PVUID b\<rparr> in
            bindP (InspectVolume L (runIdentity r) p (PVCName b) (Some candidate) (\<lambda>_. False)) (\<lambda>res. case res of
                Inl _ \<Rightarrow> Ret (Inl ErrBinding)
              | Inr inspected \<Rightarrow>
                  jExec (UpdateWorkspace (InstanceID (runIdentity r)) (Hash L p) (pNamespace p) (PVCName inspected)
                    (PVCUID inspected) (Json inspected)) (\<lambda>_. Ret (Inr inspected))))))"
    by (rule kube_tx [OF pooled_stable t], simp) (rule got)
  then show ?thesis
    unfolding rebind_def holds_failIf using tx_tables [OF t] by (simp only: reservedAs_Inl simp_thms split: if_split)
qed

lemma firstRow_None: "firstRow xs = None \<longleftrightarrow> xs = []"
  by (cases xs) (simp_all add: firstRow_def)

lemma concat_filter: "concat (map (\<lambda>x. if P x then [f x] else []) xs) = map f (filter P xs)"
  by (induction xs) simp_all

lemma answer_workspace:
  "answerTo (QWorkspace inst) (execAll [] d) = AWorkspace (firstRow (map wBinding (workspacesOf inst d)))"
  by (simp add: execAll_def workspacesOf_def concat_filter)

lemma lookup_rule:
  assumes t: "tx (pooled r S W) [] w"
  shows "holds (acceptCalls r) (others A r) (reservedAs r S) w
    (jQuery (QWorkspace (InstanceID (runIdentity r))) (typed toWorkspace (\<lambda>raw. case raw of
         Some col \<Rightarrow>
           (case col of
              Garbage \<Rightarrow> Ret (Inl ErrBinding)
            | Json b \<Rightarrow> if validVolume L (runIdentity r) p b then Ret (Inr b) else rebind L r p b)
       | None \<Rightarrow> reserveLoop L r p (pClaims p))))"
proof (rule tx_query_rule [OF pooled_stable t])
  fix w' assume t': "tx (pooled r S W) [] w'"
  have W: "workspacesOf (InstanceID (runIdentity r)) (committed w) = W" using t by (simp add: tx_def pooled_def)
  have known: "reservedAs r S w' (Inr b)" for b :: Volume
    using pooled_reserving [OF t'] by (auto simp: reservedAs_def)
  show "holds (acceptCalls r) (others A r) (reservedAs r S) w' (typed toWorkspace (\<lambda>raw. case raw of
         Some col \<Rightarrow>
           (case col of
              Garbage \<Rightarrow> Ret (Inl ErrBinding)
            | Json b \<Rightarrow> if validVolume L (runIdentity r) p b then Ret (Inr b) else rebind L r p b)
       | None \<Rightarrow> reserveLoop L r p (pClaims p)) (answerTo (QWorkspace (InstanceID (runIdentity r))) (execAll [] (committed w))))"
    unfolding answer_workspace W holds_typed
    using rebind_rule [OF t'] reserveLoop_rule t' tx_tables [OF t'] known
    by (auto simp: firstRow_None simp del: holds_ask split: option.splits col.splits)
qed simp

lemma reserve_rule:
  assumes t: "tx (underLock r S) [] w"
  shows "holds (acceptCalls r) (others A r) (reservedAs r S) w (reserve L r p)"
proof -
  have key: "workspacesKey r = poolLock (StationID (runIdentity r))" by (simp add: workspacesKey_def poolLock_def)
  have locked: "\<exists>W. tx (pooled r S W) [] w'"
    if "others A r w (X (XactLock (workspacesKey r))) (XR (RTx None)) w'" for w'
  proof -
    from that have "rely (StationID (runIdentity r)) (w\<lparr>xheld := insert (poolLock (StationID (runIdentity r))) (xheld w)\<rparr>) w'"
      by (simp add: env_def key)
    moreover have "tx (pooled r S (workspacesOf (InstanceID (runIdentity r)) (committed w))) []
        (w\<lparr>xheld := insert (poolLock (StationID (runIdentity r))) (xheld w)\<rparr>)"
      using t by (simp add: tx_def pooled_def underLock_def underPool_def locks_def)
    ultimately show ?thesis using tx_rely [OF pooled_stable] by blast
  qed
  have failed: "tablesOk w'" if "others A r w (X (XactLock (workspacesKey r))) (XR (RTx (Some e))) w'" for w' e
    using that tx_tables [OF t] rely_keeps(2) by (auto simp: env_def)
  show ?thesis
    unfolding reserve_def holds_ask [of _ _ _ w] as_journal
  proof (intro conjI allI impI)
    fix a w' e assume "others A r w (X (XactLock (workspacesKey r))) a w'" and "a = XR (RTx e)"
    then have E: "others A r w (X (XactLock (workspacesKey r))) (XR (RTx e)) w'" by simp
    show "holds (acceptCalls r) (others A r) (reservedAs r S) w' (case e of Some x \<Rightarrow> Ret (Inl (ErrDb x)) | None \<Rightarrow>
       jQuery (QWorkspace (InstanceID (runIdentity r))) (typed toWorkspace (\<lambda>raw. case raw of
         Some col \<Rightarrow>
           (case col of
              Garbage \<Rightarrow> Ret (Inl ErrBinding)
            | Json b \<Rightarrow> if validVolume L (runIdentity r) p b then Ret (Inr b) else rebind L r p b)
       | None \<Rightarrow> reserveLoop L r p (pClaims p))))"
    proof (cases e)
      case None
      with locked E obtain W where "tx (pooled r S W) [] w'" by blast
      from lookup_rule [OF this] None show ?thesis by (simp only: option.case)
    next
      case (Some x)
      with failed E show ?thesis by (auto simp only: option.case holds.simps reservedAs_Inl)
    qed
  qed simp
qed


section \<open>The acceptance\<close>

text \<open>What the checks on the latest start of the instance establish. The subtraction of the
  generations is exact, since both are 64-bit numbers and the stored one is positive.\<close>

lemma initialObservation_generation:
  assumes "runs (initialObservation L r p (latest S)) h (Inr ob)" and "Generation r < 2 ^ 63"
    and "\<forall>s \<in> set S. 1 \<le> sGeneration s"
  shows "nextGeneration S (Generation r)"
proof (cases "latest S")
  case None
  with assms(1) show ?thesis by (auto simp: initialObservation_def latest_None nextGeneration_def)
next
  case (Some s)
  from latest_max [OF Some] have s: "s \<in> set S" "\<And>x. x \<in> set S \<Longrightarrow> sGeneration x \<le> sGeneration s" by auto
  from assms(1) Some have st: "sPhase s = ''stopped''" "sGeneration s < Generation r" "i64 (Generation r - sGeneration s) = 1"
    by (auto simp: initialObservation_def)
  moreover from assms(3) s(1) have "1 \<le> sGeneration s" by blast
  ultimately have "Generation r - sGeneration s = 1" using assms(2) by (simp add: i64_def)
  with st s show ?thesis by (force simp: nextGeneration_def)
qed


text \<open>How an acceptance ends: the tables in order, and no transaction open after a success.\<close>

definition acceptedAs :: "world \<Rightarrow> err + 'a \<Rightarrow> bool" where
  "acceptedAs w res \<longleftrightarrow> tablesOk w \<and> (\<forall>x. res = Inr x \<longrightarrow> pending w = None)"

lemma acceptedAs_simps [simp]: "acceptedAs w (Inl e) = tablesOk w" "acceptedAs w (Inr x) = (tablesOk w \<and> pending w = None)"
  by (auto simp: acceptedAs_def)

lemma initialObservation_reads: "onlyCalls readsKube (initialObservation L r p previous)"
  by (auto simp: initialObservation_def split: option.splits col.splits sum.splits)

lemma execAll_starts: "reservation r ss w \<Longrightarrow> starts (execAll ss d) = starts d"
  by (auto simp: reservation_def execAll_def)

lemma reservation_guarantee:
  assumes t: "tx (reserving r S ss) (ss @ [InsertStart n]) w"
    and "okStep (InstanceID (runIdentity r)) (committed w) (execAll (ss @ [InsertStart n]) (committed w))"
  shows "guarantee (StationID (runIdentity r)) (InstanceID (runIdentity r)) w (execAll (ss @ [InsertStart n]) (committed w))"
proof -
  from t have "reservation r ss w" and lock: "underLock r S w" by (simp_all add: tx_def reserving_def)
  then have "poolLock (StationID (runIdentity r)) \<in> locks w \<or> list_all (\<lambda>s. \<not> addsVolume s) (ss @ [InsertStart n])"
    by (auto simp: reservation_def underPool_def)
  with lock assms(2) show ?thesis by (auto simp: guarantee_def underLock_def pvUIDs_execAll simp del: list_all_append)
qed

lemma insert_rule:
  assumes keys: "primaryKeys A" and t: "tx (reserving r S ss) ss w" and gen: "nextGeneration S (Generation r)"
    and "0 < Generation r"
  shows "holds (acceptCalls r) (others A r) acceptedAs w
    (jExec (InsertStart (acceptedRow L r p revision initial)) (\<lambda>_. jCommit (Ret (Inr rec))))"
proof (rule exec_rule [OF reserving_stable t])
  let ?n = "acceptedRow L r p revision initial"
  assume "A (execAll ss (committed w)) (InsertStart ?n)"
  with keys have "sOperationID ?n \<notin> sOperationID ` set (starts (execAll ss (committed w)))"
    unfolding primaryKeys_def by blast
  moreover have "starts (execAll ss (committed w)) = starts (committed w)"
    using t execAll_starts by (auto simp: tx_def reserving_def)
  moreover have "occupied (Some ss) (committed w)" using t by (simp add: tx_def)
  ultimately show "occupied (Some (ss @ [InsertStart ?n])) (committed w)" by (auto simp: occupied_def)
next
  let ?n = "acceptedRow L r p revision initial"
  fix w' and m :: nat assume t: "tx (reserving r S ss) (ss @ [InsertStart ?n]) w'"
  have n: "rowOk ?n" using assms(4) by (simp add: rowOk_def acceptedRow_def persisted_def phaseOrder_def)
  have ok: "okStep (InstanceID (runIdentity r)) (committed w') (execAll (ss @ [InsertStart ?n]) (committed w'))"
    by (rule accept_ok [OF t n]) (use gen in \<open>simp_all add: acceptedRow_def\<close>)
  have "holds (acceptCalls r) (others A r) acceptedAs w' (jCommit (Ret (Inr rec)))"
  proof (rule commit_rule [OF t reservation_guarantee [OF t ok]])
    fix w2 assume "rely (StationID (runIdentity r))
        (w'\<lparr>committed := execAll (ss @ [InsertStart ?n]) (committed w'), pending := None, xheld := {}\<rparr>) w2"
    with ok show "holds (acceptCalls r) (others A r) acceptedAs w2 (Ret (Inr rec))"
      by (simp add: rely_def okStep_def)
  qed simp
  then show "holds (acceptCalls r) (others A r) acceptedAs w'
      (case Inr m of Inl e \<Rightarrow> Ret (Inl (sqlError e)) | Inr _ \<Rightarrow> jCommit (Ret (Inr rec)))"
    by (simp only: sum.case)
qed simp

lemma rows_positive: "tablesOk w \<Longrightarrow> \<forall>s \<in> set (startsOf inst (committed w)). 1 \<le> sGeneration s"
  by (auto simp: Inv_def rowOk_def startsOf_def)

lemma acceptNew_rule:
  assumes keys: "primaryKeys A" and t: "tx (underLock r S) [] w" and g: "0 < Generation r" "Generation r < 2 ^ 63"
  shows "holds (acceptCalls r) (others A r) acceptedAs w (acceptNew L r p revision)"
  unfolding acceptNew_def
proof (rule tx_query_rule [OF underLock_stable t])
  let ?H = "holds (acceptCalls r) (others A r) acceptedAs"
  let ?rest = "\<lambda>initial. thenP (reserve L r p) (\<lambda>b.
     jExec (InsertStart (acceptedRow L r p revision initial)) (\<lambda>_.
     jCommit (Ret (Inr \<lparr>rRun = r, rVolume = b, rProfileHash = Hash L p, rInstallationRevision = revision,
       rPhase = ''accepted'', rObservation = initial, rRevision = 1\<rparr>))))"
  fix w' assume t': "tx (underLock r S) [] w'"
  have S: "filter (\<lambda>s. sInstanceID s = InstanceID (runIdentity r)) (starts (committed w)) = S"
    using t by (simp add: tx_def underLock_def startsOf_def)
  have pos: "\<forall>s \<in> set S. 1 \<le> sGeneration s"
    using rows_positive [OF tx_tables [OF t], of "InstanceID (runIdentity r)"] S by (simp add: startsOf_def)
  have rest: "?H w2 (?rest initial)" if t2: "tx (underLock r S) [] w2" and gen: "nextGeneration S (Generation r)" for w2 initial
    unfolding holds_thenP
  proof (rule holds_mono [OF reserve_rule [OF t2]])
    fix w3 and res :: "err + Volume" assume res: "reservedAs r S w3 res"
    show "case res of Inl e \<Rightarrow> acceptedAs w3 (Inl e) | Inr b \<Rightarrow> ?H w3 (jExec (InsertStart (acceptedRow L r p revision initial)) (\<lambda>_.
     jCommit (Ret (Inr \<lparr>rRun = r, rVolume = b, rProfileHash = Hash L p, rInstallationRevision = revision,
       rPhase = ''accepted'', rObservation = initial, rRevision = 1\<rparr>))))"
    proof (cases res)
      case (Inr b)
      with res obtain ss where "tx (reserving r S ss) ss w3" by (auto simp: reservedAs_def)
      from insert_rule [OF keys this gen g(1)] Inr show ?thesis by (simp only: sum.case)
    qed (use res in simp)
  qed
  have init: "holds (acceptCalls r) (others A r) (\<lambda>w2 x. tx (underLock r S) [] w2 \<and>
      (\<forall>ob. x = Inr ob \<longrightarrow> nextGeneration S (Generation r))) w' (initialObservation L r p (latest S))"
  proof (rule tx_reads [OF underLock_stable t' initialObservation_reads])
    show "returns (\<lambda>x. \<forall>ob. x = Inr ob \<longrightarrow> nextGeneration S (Generation r)) (initialObservation L r p (latest S))"
      using initialObservation_generation [OF _ g(2) pos] by (auto simp: returns_iff)
    show "\<exists>k. q = K k" if "readsKube q" for q :: "jreq req" using that by (cases q) auto
  qed simp
  have "?H w' (thenP (initialObservation L r p (latest S)) ?rest)"
    unfolding holds_thenP [of _ _ _ w']
    by (rule holds_mono [OF init]) (auto simp: tx_tables simp del: holds_ask intro!: rest split: sum.splits)
  then show "?H w' (typed toLatest (\<lambda>previous. thenP (initialObservation L r p previous) ?rest)
      (answerTo (QLatest (InstanceID (runIdentity r))) (execAll [] (committed w))))"
    by (simp add: execAll_def S typed_def del: holds_ask)
qed simp

text \<open>The lock of the transaction, and the record of an earlier acceptance.\<close>

lemma accept_body:
  assumes keys: "primaryKeys A" and t: "tx (underLock r S) [] w" and g: "0 < Generation r" "Generation r < 2 ^ 63"
  shows "holds (acceptCalls r) (others A r) acceptedAs w
    (jQuery (QRecord (OperationID r)) (typed toRecord (\<lambda>row. case scanRecord L row of
         Inr old \<Rightarrow> failIf (\<not> sameRecord L old r p revision) ErrConflict (jCommit (Ret (Inr old)))
       | Inl e \<Rightarrow> if e \<noteq> ErrNoRows then Ret (Inl e) else acceptNew L r p revision)))"
proof (rule tx_query_rule [OF underLock_stable t])
  let ?H = "holds (acceptCalls r) (others A r) acceptedAs"
  fix w' assume t': "tx (underLock r S) [] w'"
  have ok: "okStep (InstanceID (runIdentity r)) (committed w') (execAll [] (committed w'))"
    using tx_tables [OF t'] by (simp add: okStep_def execAll_def sameInstance_def)
  have commits: "guarantee (StationID (runIdentity r)) (InstanceID (runIdentity r)) w' (execAll [] (committed w'))"
    using ok t' by (simp add: guarantee_def tx_def underLock_def execAll_def)
  have again: "?H w' (jCommit (Ret (Inr old)))" for old
  proof (rule commit_rule [OF t' commits])
    fix w2 assume "rely (StationID (runIdentity r))
        (w'\<lparr>committed := execAll [] (committed w'), pending := None, xheld := {}\<rparr>) w2"
    with ok show "?H w2 (Ret (Inr old))" by (simp add: rely_def okStep_def)
  qed simp
  show "?H w' (typed toRecord (\<lambda>row. case scanRecord L row of
         Inr old \<Rightarrow> failIf (\<not> sameRecord L old r p revision) ErrConflict (jCommit (Ret (Inr old)))
       | Inl e \<Rightarrow> if e \<noteq> ErrNoRows then Ret (Inl e) else acceptNew L r p revision)
      (answerTo (QRecord (OperationID r)) (execAll [] (committed w))))"
    unfolding holds_typed
    using again acceptNew_rule [OF keys t' g] tx_tables [OF t']
    by (auto simp del: holds_ask split: sum.splits)
qed simp


lemma tx_authorize:
  assumes "stableAt st P" and "tx P ss w" and "\<And>w' rv. tx P ss w' \<Longrightarrow> holds (permitted st i G) (env A st) Q w' (k rv)"
    and "\<And>w' e. tablesOk w' \<Longrightarrow> Q w' (Inl e)"
  shows "holds (permitted st i G) (env A st) Q w (jAuthorize r p k)"
  using assms(3,4) tx_rely [OF assms(1,2)] tx_tables [OF tx_rely [OF assms(1,2)]] by (auto simp: env_def split: sum.splits)

lemma tx_installation:
  assumes "stableAt st P" and "tx P ss w" and "\<And>w'. tx P ss w' \<Longrightarrow> holds (permitted st i G) (env A st) Q w' (k ())"
    and "\<And>w' e. tablesOk w' \<Longrightarrow> Q w' (Inl e)"
  shows "holds (permitted st i G) (env A st) Q w (thenP (installationMatches r p rv) k)"
  unfolding holds_thenP installationMatches_def
  by (rule tx_query_rule [OF assms(1,2)]) (use assms(3,4) tx_tables in auto)

lemma tx_lock_rule:
  assumes t: "tx (\<lambda>_. True) [] w"
    and "\<And>S w'. tx (underLock r S) [] w' \<Longrightarrow> holds (permitted st i G) (others A r) Q w' k"
    and "\<And>w' e. tablesOk w' \<Longrightarrow> Q w' (Inl e)"
  shows "holds (permitted st i G) (others A r) Q w (ask (X (TryXactLock (instanceKey r))) asLock (\<lambda>l.
    case l of Inl e \<Rightarrow> Ret (Inl (ErrDb e)) | Inr locked \<Rightarrow> failIf (\<not> locked) ErrBusy k))"
proof -
  let ?w = "w\<lparr>xheld := insert (instanceKey r) (xheld w)\<rparr>"
  have "tx (underLock r (startsOf (InstanceID (runIdentity r)) (committed w))) [] ?w"
    using t by (simp add: tx_def underLock_def locks_def instanceKey_eq)
  then have "holds (permitted st i G) (others A r) Q w' k" if "rely (StationID (runIdentity r)) ?w w'" for w'
    using assms(2) tx_rely [OF underLock_stable _ that] by blast
  moreover have "tablesOk w'" if "rely (StationID (runIdentity r)) w w'" for w'
    using rely_keeps(2) [OF that tx_tables [OF t]] .
  ultimately show ?thesis using assms(3) by (auto simp: env_def split: sum.splits)
qed

lemma Accept_rule:
  assumes keys: "primaryKeys A" and w: "tablesOk w" "pending w = None" and g: "Generation r < 2 ^ 63"
  shows "holds (acceptCalls r) (others A r) acceptedAs w (Accept L J r p)"
proof (cases "journalValid L J r p")
  case True
  then have pos: "0 < Generation r" by (simp add: journalValid_def)
  have "stableAt (StationID (runIdentity r)) (\<lambda>_. True)" by (simp add: stableAt_def)
  note start = begin_rule [OF this TrueI w(1)]
  show ?thesis
    unfolding Accept_def holds_failIf using True
    by (simp only: not_True_eq_False if_False)
      (rule start, rule tx_lock_rule, assumption, rule tx_authorize [OF underLock_stable], assumption,
       rule tx_installation [OF underLock_stable], assumption, rule accept_body [OF keys _ pos g], assumption, simp_all)
qed (use w in \<open>simp add: Accept_def\<close>)


section \<open>Starting\<close>

lemma holds_calls: "holds C E Q m p \<Longrightarrow> (\<And>m q. C m q \<Longrightarrow> C' m q) \<Longrightarrow> holds C' E Q m p"
  by (induction p arbitrary: m) auto

text \<open>A start changes the storage of the pool while it is accepted, and the worker's objects
  behind its record.\<close>

definition launchGuard :: "lib \<Rightarrow> Run \<Rightarrow> world \<Rightarrow> kreq \<Rightarrow> bool" where
  "launchGuard L r w q \<longleftrightarrow> startGuard L r w q \<or> acceptGuard r w q"

lemma permitted_weaken:
  "permitted st i G w q \<Longrightarrow> (\<And>w k. G w k \<Longrightarrow> G' w k) \<Longrightarrow> permitted st i G' w q"
  by (auto simp: permitted_def split: req.splits jreq.splits)

lemma Start_rule:
  assumes "primaryKeys A" and "readOnlyPeers J" and "tablesOk w" and "pending w = None" and "Generation r < 2 ^ 63"
  shows "holds (permitted (StationID (runIdentity r)) (InstanceID (runIdentity r)) (launchGuard L r)) (others A r)
    (\<lambda>w' _. tablesOk w') w (Start L J r p)"
proof -
  let ?C = "permitted (StationID (runIdentity r)) (InstanceID (runIdentity r)) (launchGuard L r)"
  have "?C m q" if "startCalls L r m q \<or> acceptCalls r m q" for m q
    using that permitted_weaken by (auto simp: launchGuard_def)
  note weaker = this
  have advance: "holds ?C (others A r) (\<lambda>w' _. tablesOk w') w' (AdvanceResources L J r p)"
    if "tablesOk w'" "pending w' = None" for w'
    by (rule holds_calls [OF AdvanceResources_rule [OF assms(2) that]]) (simp only: weaker simp_thms)
  have accept: "holds ?C (others A r) acceptedAs w (Accept L J r p)"
    by (rule holds_calls [OF Accept_rule [OF assms(1,3-5)]]) (simp only: weaker simp_thms)
  have "holds ?C (others A r) (\<lambda>w' _. tablesOk w') w (thenP (Accept L J r p) (\<lambda>_. AdvanceResources L J r p))"
    unfolding holds_thenP
    by (rule holds_mono [OF accept]) (auto simp: acceptedAs_def intro!: advance split: sum.splits)
  with assms(3) show ?thesis by (simp add: Start_def)
qed

end
