(* ===== verification/AppGuarantees.thy ===== *)
theory AppGuarantees
  imports AppAcceptSafety
begin

text \<open>
  What the journal's operations promise in the world: whatever other sessions, the database
  and the cluster do, every request an operation can come to issue is permitted. \<open>walk\<close> runs
  a handler in a world without interference, with given replies of the cluster; it provides
  the concrete runs.
\<close>

section \<open>Concrete runs\<close>

text \<open>A database that enforces the primary keys.\<close>

definition keyed :: "db \<Rightarrow> sql \<Rightarrow> bool" where
  "keyed d s =
     (case s of
        InsertStart x \<Rightarrow> \<not> List.member (map sOperationID (starts d)) (sOperationID x)
      | InsertStop op _ _ \<Rightarrow> \<not> List.member (map tOperationID (stops d)) op
      | _ \<Rightarrow> True)"

lemma keyed_keys: "primaryKeys keyed"
  by (auto simp: primaryKeys_def keyed_def)

text \<open>The reply of a database, lock and authorization service at their best.\<close>

fun respond :: "jreq \<Rightarrow> world \<Rightarrow> jresp \<times> world" where
  "respond Begin w = (RTx None, w\<lparr>pending := Some []\<rparr>)"
| "respond Commit w = (RTx None, commitAll w)"
| "respond (Exec s) w =
     (if keyed (view w) s then (RExec (Inr (snd (execSql s (view w)))), perform s w) else (RExec (Inl UniqueViolation), w))"
| "respond (Query q) w = (RAnswer (Inr (answerTo q (view w))), w)"
| "respond (TryLock k sh) w = (RLock (Inr True), w\<lparr>held := insert k (held w)\<rparr>)"
| "respond (TryXactLock k) w = (RLock (Inr True), w\<lparr>xheld := insert k (xheld w)\<rparr>)"
| "respond (XactLock k) w = (RTx None, w\<lparr>xheld := insert k (xheld w)\<rparr>)"
| "respond (Unlock k sh) w = (RLock (Inr True), w\<lparr>held := held w - {k}\<rparr>)"
| "respond (Authorize r p) w = (RRevision (Inr 1), w)"

lemma respond_effect: "effect keyed w (X q) (XR (fst (respond q w))) (snd (respond q w))"
  by (cases q) (auto intro: effect.intros)

lemma rely_refl [simp]: "rely st w w"
  by (simp add: rely_def sameInstance_def)

lemma respond_env: "env keyed st w (X q) (XR (fst (respond q w))) (snd (respond q w))"
  using respond_effect rely_refl unfolding env_def by blast

text \<open>The request a handler issues after the cluster has given the replies \<open>ks\<close>, and the world
  it issues it in: \<open>n\<close> is the number of requests answered before.\<close>

fun walk :: "nat \<Rightarrow> world \<Rightarrow> 'a jtree \<Rightarrow> (kreq \<Rightarrow> kresp) list \<Rightarrow> (world \<times> jreq req) option" where
  "walk 0 w (Call q k) ks = Some (w, q)"
| "walk (Suc n) w (Call (K q) k) (x # ks) = walk n w (k (KR (x q))) ks"
| "walk (Suc n) w (Call (X q) k) ks = walk n (snd (respond q w)) (k (XR (fst (respond q w)))) ks"
| "walk n w t ks = None"

lemma walk_issues: "walk n w t ks = Some (w', q) \<Longrightarrow> issues (env keyed st) w t w' q"
proof (induction n w t ks rule: walk.induct)
  case (2 n w q k x ks)
  have "env keyed st w (K q) (KR (x q)) w" by (auto simp: env_def)
  with 2 show ?case by (auto intro: issues.later)
next
  case (3 n w q k ks)
  then show ?case by (auto intro: issues.later respond_env)
qed (auto intro: issues.now)


section \<open>A concrete world\<close>

definition sampleWorld :: world where
  "sampleWorld = \<lparr>committed = \<lparr>starts = [], workspaces = [], legacy = [], stops = [],
      installations = [\<lparr>iInstallationID = InstallationID sampleIdentity, iStationID = StationID sampleIdentity,
        iOrganizationID = OrganizationID sampleIdentity, iAppID = pAppID sampleProfile, iState = ''installed'', iRevision = 1\<rparr>]\<rparr>,
     pending = None, held = {}, xheld = {}\<rparr>"

definition sampleBoot :: string where
  "sampleBoot = ''a0000000-0000-4000-8000-000000000000''"

definition sampleJournal :: journal where
  "sampleJournal = \<lparr>jStationID = StationID sampleIdentity, jObserver = Some (\<lambda>r p ob token. Ret (Inr sampleBoot)),
     jStopper = Some (\<lambda>r p ob token operation. Ret (Inr (stopProof r p ob operation)))\<rparr>"

lemma sampleWorld_ok: "Inv (committed sampleWorld)" "pending sampleWorld = None"
  by (simp_all add: sampleWorld_def Inv_def generationsOk_def stopsOk_def pvUIDs_def)

lemma sampleJournal_reads: "readOnlyPeers sampleJournal"
  by (simp add: readOnlyPeers_def sampleJournal_def)

abbreviation "sampleStart \<equiv> Start sampleLib sampleJournal (sampleRun CHR ''8'') sampleProfile"


abbreviation "sampleR \<equiv> sampleRun CHR ''8''"

text \<open>The replies of the cluster to an acceptance.\<close>

definition acceptReplies :: "(kreq \<Rightarrow> kresp) list" where
  "acceptReplies = [\<lambda>_. RPVC (Inr samplePVC), \<lambda>_. RPV (Inr samplePV), \<lambda>_. RPods (Inr [])]"

text \<open>A running start.\<close>

definition sampleObservation :: Observation where
  "sampleObservation = noObservation\<lparr>SecretUID := sampleID CHR ''b'', ServiceUID := sampleID CHR ''c'',
     PodUID := sampleID CHR ''d'', BootID := sampleBoot, PodReady := True\<rparr>"

definition runningRow :: startRow where
  "runningRow = (acceptedRow sampleLib sampleR sampleProfile 1 sampleObservation)\<lparr>sPhase := ''running''\<rparr>"

definition runningWorld :: world where
  "runningWorld = sampleWorld\<lparr>committed := (committed sampleWorld)\<lparr>starts := [runningRow],
     workspaces := [workspaceRowOf sampleLib sampleR sampleProfile sampleVolume]\<rparr>\<rparr>"

abbreviation "sampleStop \<equiv> Stop sampleLib sampleJournal sampleR sampleProfile (sampleID CHR ''9'') sampleBoot"

lemma runningWorld_ok: "Inv (committed runningWorld)" "pending runningWorld = None"
  by (simp_all add: runningWorld_def sampleWorld_def runningRow_def acceptedRow_def Inv_def generationsOk_def
      stopsOk_def pvUIDs_def rowOk_def phaseOrder_def persisted_def sampleRun_def workspaceRowOf_def Let_def)

fun isCreatePVC :: "'x req \<Rightarrow> bool" where
  "isCreatePVC (K (CreatePVC ns d)) = True" | "isCreatePVC _ = False"

lemma isCreatePVC_request: "isCreatePVC q \<Longrightarrow> \<exists>ns c. q = K (CreatePVC ns c)"
  by (cases q rule: isCreatePVC.cases) simp_all

section \<open>Starting\<close>


lemma walk_commit:
  "\<exists>w'. walk 15 sampleWorld sampleStart acceptReplies = Some (w', X Commit) \<and> length (starts (view w')) = 1"
proof -
  have "map_option (\<lambda>x. (snd x, length (starts (view (fst x))))) (walk 15 sampleWorld sampleStart acceptReplies) = Some (X Commit, 1)"
    by code_simp
  then show ?thesis by auto
qed

lemma sampleR_simps [simp]: "Generation sampleR < 2 ^ 63" "runIdentity sampleR = sampleIdentity"
  by (simp_all add: sampleRun_def)



definition poolReplies :: "(kreq \<Rightarrow> kresp) list" where
  "poolReplies = [\<lambda>_. RPVC (Inl NotFound), \<lambda>_. RPVC (Inl NotFound), \<lambda>_. RPV (Inr (samplePV\<lparr>ClaimRef := None\<rparr>))]"

abbreviation "sampleAccept \<equiv> Accept sampleLib sampleJournal sampleR sampleProfile"

lemma walk_create: "\<exists>w' ns c. walk 12 sampleWorld sampleAccept poolReplies = Some (w', K (CreatePVC ns c))"
proof -
  have "map_option (isCreatePVC \<circ> snd) (walk 12 sampleWorld sampleAccept poolReplies) = Some True" by code_simp
  then show ?thesis by (auto dest: isCreatePVC_request)
qed





section \<open>The state between operations\<close>

fun walkEnd :: "nat \<Rightarrow> world \<Rightarrow> 'a jtree \<Rightarrow> (kreq \<Rightarrow> kresp) list \<Rightarrow> (world \<times> 'a) option" where
  "walkEnd n w (Ret a) ks = Some (w, a)"
| "walkEnd (Suc n) w (Call (K q) k) (x # ks) = walkEnd n w (k (KR (x q))) ks"
| "walkEnd (Suc n) w (Call (X q) k) ks = walkEnd n (snd (respond q w)) (k (XR (fst (respond q w)))) ks"
| "walkEnd n w t ks = None"

lemma walkEnd_ends: "walkEnd n w t ks = Some (w', a) \<Longrightarrow> ends (env keyed st) w t w' a"
proof (induction n w t ks rule: walkEnd.induct)
  case (2 n w q k x ks)
  have "env keyed st w (K q) (KR (x q)) w" by (auto simp: env_def)
  with 2 show ?case by (auto intro: ends.call)
next
  case (3 n w q k ks)
  then show ?case by (auto intro: ends.call respond_env)
qed (auto intro: ends.ret)

text \<open>C5: However an acceptance ends, an instance has at most one start that is not stopped.\<close>

theorem Accept_single_active:
  assumes "primaryKeys A" and "Inv (committed w)" and "pending w = None" and "Generation r < 2 ^ 63"
    and "ends (env A (StationID (runIdentity r))) w (Accept L J r p) w' res"
    and "s \<in> set (starts (committed w'))" and "s' \<in> set (starts (committed w'))" and "sInstanceID s' = sInstanceID s"
    and "sPhase s \<noteq> ''stopped''" and "sPhase s' \<noteq> ''stopped''"
  shows "s' = s"
proof -
  have "Inv (committed w')"
    using holds_ends [OF assms(5) Accept_rule [OF assms(1-4)]] by (simp add: acceptedAs_def)
  from single_active [OF this assms(6-10)] show ?thesis .
qed

lemma walk_replay: "map_option (\<lambda>x. starts (committed (fst x)) = [runningRow]) (walkEnd 9 runningWorld sampleAccept []) = Some True"
  by code_simp

theorem Accept_single_active_witness:
  "\<exists>w' res. walkEnd 9 runningWorld sampleAccept [] = Some (w', res) \<and> runningRow \<in> set (starts (committed w')) \<and>
    (\<forall>s \<in> set (starts (committed w')). sInstanceID s = sInstanceID runningRow \<longrightarrow> sPhase s \<noteq> ''stopped'' \<longrightarrow> s = runningRow)"
proof -
  obtain w' res where w: "walkEnd 9 runningWorld sampleAccept [] = Some (w', res)" "starts (committed w') = [runningRow]"
    using walk_replay by auto
  have "sPhase runningRow \<noteq> ''stopped''" by (simp add: runningRow_def)
  with Accept_single_active [OF keyed_keys runningWorld_ok sampleR_simps(1) walkEnd_ends [OF w(1)], of runningRow] w
  show ?thesis by auto
qed

section \<open>Stopping\<close>


lemma walk_stop: "\<exists>w'. walk 8 runningWorld sampleStop [] = Some (w', X Commit)"
proof -
  have "map_option snd (walk 8 runningWorld sampleStop []) = Some (X Commit)" by code_simp
  then show ?thesis by auto
qed


section \<open>Access\<close>

text \<open>What access may request: reads of the cluster and the database, and its shared lock.\<close>

fun accessRequest :: "jreq req \<Rightarrow> bool" where
  "accessRequest (K k) = (\<not> mutates k)"
| "accessRequest (X (Query q)) = True"
| "accessRequest (X (TryLock k sh)) = sh"
| "accessRequest (X (Unlock k sh)) = sh"
| "accessRequest (X (Authorize r p)) = True"
| "accessRequest (X _) = False"

lemma reads_access: "onlyCalls readsKube t \<Longrightarrow> onlyCalls accessRequest t"
  by (erule onlyCalls_mono) (auto simp: readsKube_def split: req.splits)

lemma accessVisit_calls: "readOnlyPeers J \<Longrightarrow> onlyCalls accessRequest (accessVisit L J r p rec)"
  by (auto simp: accessVisit_def split: sum.splits intro!: onlyCalls_thenP reads_access [OF verifyWorker_reads])

lemma visitRecord_calls:
  assumes "\<And>rec. onlyCalls accessRequest (visit rec)"
  shows "onlyCalls accessRequest (visitRecord L r p visit)"
  by (auto simp: visitRecord_def installationMatches_def assms split: sum.splits intro!: onlyCalls_thenP)

lemma Access_calls:
  assumes "readOnlyPeers J"
  shows "onlyCalls accessRequest (Access L J r p)"
  by (auto simp: Access_def withLockedRecord_def split: sum.splits
      intro!: onlyCalls_bindP visitRecord_calls accessVisit_calls [OF assms])

text \<open>C17: Reading the access data of a worker changes neither the database nor the cluster, and
  takes its lock in shared mode only.\<close>

theorem Access_reads:
  assumes "readOnlyPeers J" and "runs (Access L J r p) h a" and "(q, x) \<in> set h"
  shows "accessRequest q"
  using onlyCalls_runs [OF Access_calls [OF assms(1)] assms(2)] assms(3) by auto

theorem Access_reads_witness: "accessRequest (X (TryLock (instanceKey sampleR) True))"
proof (rule Access_reads [OF sampleJournal_reads])
  have "journalValid sampleLib sampleJournal sampleR sampleProfile" by code_simp
  then show "runs (Access sampleLib sampleJournal sampleR sampleProfile)
      [(X (TryLock (instanceKey sampleR) True), XR (RLock (Inr False)))] (Inl ErrBusy)"
    by (simp add: Access_def withLockedRecord_def) (rule exI [of _ False], simp)
qed simp

end
