(* ===== verification/Url.thy ===== *)
theory Url
  imports Prelude
begin

text \<open>
  \<^verbatim>\<open>net/url.Parse\<close> as far as the origin checks of the sources read it, and
  \<^verbatim>\<open>strconv.Atoi\<close>. The components are kept as written: a path, host or fragment is not
  percent-decoded, because the sources only ask whether it is empty, equal to \<^verbatim>\<open>/\<close>, or a
  name without percent signs, and decoding changes none of these answers. \<^verbatim>\<open>RawPath\<close>
  is non-empty only for a path that is neither empty nor \<^verbatim>\<open>/\<close>.
\<close>

section \<open>Cutting strings\<close>

text \<open>\<^verbatim>\<open>strings.Cut\<close> at a character: the parts, and whether it was found.\<close>

definition cutAt :: "char \<Rightarrow> string \<Rightarrow> string \<times> string \<times> bool" where
  "cutAt c s =
     (let a = takeWhile (\<lambda>x. x \<noteq> c) s; b = dropWhile (\<lambda>x. x \<noteq> c) s in
      case b of [] \<Rightarrow> (s, [], False) | _ # rest \<Rightarrow> (a, rest, True))"

definition countChar :: "char \<Rightarrow> string \<Rightarrow> nat" where
  "countChar c s = length (filter (\<lambda>x. x = c) s)"

text \<open>The split at the last occurrence, if there is one.\<close>

definition lastSplit :: "char \<Rightarrow> string \<Rightarrow> (string \<times> string) option" where
  "lastSplit c s =
     (let b = takeWhile (\<lambda>x. x \<noteq> c) (rev s) in
      if length b = length s then None else Some (take (length s - length b - 1) s, rev b))"

definition lowerChar :: "char \<Rightarrow> char" where
  "lowerChar c = (if isUpper c then char_of ((of_char c :: nat) + 32) else c)"

definition isAlpha :: "char \<Rightarrow> bool" where
  "isAlpha c \<longleftrightarrow> isLower c \<or> isUpper c"

definition isHexDigit :: "char \<Rightarrow> bool" where
  "isHexDigit c \<longleftrightarrow> isDigit c \<or> inRange CHR ''a'' CHR ''f'' c \<or> inRange CHR ''A'' CHR ''F'' c"

section \<open>Parsing\<close>

record url =
  Scheme :: string
  Opaque :: string
  User :: bool
  Host :: string
  Path :: string
  ForceQuery :: bool
  RawQuery :: string
  Fragment :: string

datatype schemeResult = BadScheme | NoScheme | HasScheme string string

text \<open>\<^verbatim>\<open>getScheme\<close>: letters, and after the first also digits and \<^verbatim>\<open>+-.\<close>, up to a colon.\<close>

fun schemeScan :: "string \<Rightarrow> string \<Rightarrow> schemeResult" where
  "schemeScan acc [] = NoScheme"
| "schemeScan acc (c # cs) =
     (if isAlpha c then schemeScan (acc @ [c]) cs
      else if isDigit c \<or> c \<in> set ''+-.'' then (if acc = [] then NoScheme else schemeScan (acc @ [c]) cs)
      else if c = CHR '':'' then (if acc = [] then BadScheme else HasScheme acc cs)
      else NoScheme)"

text \<open>\<^verbatim>\<open>validOptionalPort\<close>\<close>

definition validOptionalPort :: "string \<Rightarrow> bool" where
  "validOptionalPort port \<longleftrightarrow> (case port of [] \<Rightarrow> True | c # cs \<Rightarrow> c = CHR '':'' \<and> list_all isDigit cs)"

text \<open>The characters of a host: unreserved and delimiter characters, bytes outside ASCII, and
  the escapes that may stand in a host.\<close>

fun hostChars :: "string \<Rightarrow> bool" where
  "hostChars [] = True"
| "hostChars (c # cs) =
     (if c = CHR ''%'' then
        (case cs of
           a # b # rest \<Rightarrow> isHexDigit a \<and> isHexDigit b \<and> ([a, b] = ''25'' \<or> \<not> inRange CHR ''0'' CHR ''7'' a) \<and> hostChars rest
         | _ \<Rightarrow> False)
      else (isAlpha c \<or> isDigit c \<or> c \<in> set ''-_.~!$&()*+,;=:[]<>'' \<or> c = CHR 0x27 \<or> c = CHR 0x22 \<or> (of_char c :: nat) \<ge> 128) \<and>
        hostChars cs)"

definition parseHost :: "string \<Rightarrow> string option" where
  "parseHost host =
     (if hasPrefix host ''['' then
        (case lastSplit CHR '']'' host of
           None \<Rightarrow> None
         | Some (_, colonPort) \<Rightarrow> if validOptionalPort colonPort \<and> hostChars host then Some host else None)
      else
        (case lastSplit CHR '':'' host of
           Some (_, port) \<Rightarrow> if validOptionalPort (CHR '':'' # port) \<and> hostChars host then Some host else None
         | None \<Rightarrow> if hostChars host then Some host else None))"

text \<open>Characters allowed before an \<^verbatim>\<open>@\<close> (\<^verbatim>\<open>validUserinfo\<close>).\<close>

definition validUserinfo :: "string \<Rightarrow> bool" where
  "validUserinfo s \<longleftrightarrow> list_all (\<lambda>c. isAlpha c \<or> isDigit c \<or> c \<in> set ''-._:~!$&()*+,;=%@'' \<or> c = CHR 0x27) s"

definition isControl :: "char \<Rightarrow> bool" where
  "isControl c \<longleftrightarrow> (of_char c :: nat) < 32 \<or> (of_char c :: nat) = 127"

definition parseAuthority :: "url \<Rightarrow> string \<Rightarrow> string \<Rightarrow> url option" where
  "parseAuthority u authority path =
     (case lastSplit CHR ''@'' authority of
        None \<Rightarrow> map_option (\<lambda>h. u\<lparr>Host := h, Path := path\<rparr>) (parseHost authority)
      | Some (userinfo, host) \<Rightarrow>
          if \<not> validUserinfo userinfo then None
          else map_option (\<lambda>h. u\<lparr>Host := h, User := True, Path := path\<rparr>) (parseHost host))"

definition parseRest :: "url \<Rightarrow> string \<Rightarrow> url option" where
  "parseRest u rest =
     (if \<not> hasPrefix rest ''/'' then
        (if Scheme u \<noteq> [] then Some (u\<lparr>Opaque := rest\<rparr>)
         else if containsStr (fst (cutAt CHR ''/'' rest)) '':'' then None
         else Some (u\<lparr>Path := rest\<rparr>))
      else if (Scheme u \<noteq> [] \<or> \<not> hasPrefix rest ''///'') \<and> hasPrefix rest ''//'' then
        (let authority = takeWhile (\<lambda>c. c \<noteq> CHR ''/'') (drop 2 rest) in
         parseAuthority u authority (drop (length authority) (drop 2 rest)))
      else Some (u\<lparr>Path := rest\<rparr>))"

definition emptyURL :: url where
  "emptyURL = \<lparr>Scheme = [], Opaque = [], User = False, Host = [], Path = [], ForceQuery = False, RawQuery = [], Fragment = []\<rparr>"

definition parseQuery :: "url \<Rightarrow> string \<Rightarrow> url option" where
  "parseQuery u rest =
     (if hasSuffix rest ''?'' \<and> countChar CHR ''?'' rest = 1 then parseRest (u\<lparr>ForceQuery := True\<rparr>) (butlast rest)
      else (case cutAt CHR ''?'' rest of (a, q, _) \<Rightarrow> parseRest (u\<lparr>RawQuery := q\<rparr>) a))"

definition parseURL :: "string \<Rightarrow> url option" where
  "parseURL s =
     (case cutAt CHR ''#'' s of (raw, frag, _) \<Rightarrow>
        if list_ex isControl raw then None
        else (let u = emptyURL\<lparr>Fragment := frag\<rparr> in
          case schemeScan [] raw of
            BadScheme \<Rightarrow> None
          | NoScheme \<Rightarrow> parseQuery u raw
          | HasScheme sch rest \<Rightarrow> parseQuery (u\<lparr>Scheme := map lowerChar sch\<rparr>) rest))"

text \<open>\<^verbatim>\<open>Hostname\<close> and \<^verbatim>\<open>Port\<close> of a parsed host.\<close>

definition splitHostPort :: "string \<Rightarrow> string \<times> string" where
  "splitHostPort hp =
     (let (h, port) = (case lastSplit CHR '':'' hp of
          Some (a, b) \<Rightarrow> if validOptionalPort (CHR '':'' # b) then (a, b) else (hp, [])
        | None \<Rightarrow> (hp, [])) in
      (if hasPrefix h ''['' \<and> hasSuffix h '']'' then butlast (tl h) else h, port))"

definition Hostname :: "url \<Rightarrow> string" where
  "Hostname u = fst (splitHostPort (Host u))"

definition Port :: "url \<Rightarrow> string" where
  "Port u = snd (splitHostPort (Host u))"

section \<open>Numbers\<close>

fun digitsValue :: "int \<Rightarrow> string \<Rightarrow> int option" where
  "digitsValue acc [] = Some acc"
| "digitsValue acc (c # cs) =
     (if isDigit c then digitsValue (10 * acc + (int (of_char c) - 48)) cs else None)"

text \<open>\<^verbatim>\<open>strconv.Atoi\<close>: an optional sign, at least one digit, the range of \<^verbatim>\<open>int\<close>.\<close>

definition Atoi :: "string \<Rightarrow> int option" where
  "Atoi s =
     (let neg = hasPrefix s ''-''; ds = (if hasPrefix s ''-'' \<or> hasPrefix s ''+'' then tl s else s) in
      if ds = [] then None
      else (case digitsValue 0 ds of
          None \<Rightarrow> None
        | Some n \<Rightarrow> (let v = (if neg then - n else n) in if is_i64 v then Some v else None)))"

end
