(* ===== verification/AppServer.thy ===== *)
theory AppServer
  imports AppGuarantees Url
begin

text \<open>
  The HTTP service of App instances: \<^verbatim>\<open>internal/appinstances/http_client.go\<close> (the check of an
  internal origin), \<^verbatim>\<open>authorization.go\<close> (the registry of callers and the authorization call
  to Core) and \<^verbatim>\<open>http.go\<close> (the handler). The registry is keyed by a digest of the
  \<^verbatim>\<open>Authorization\<close> header; the digest is a parameter. The handler's operations \<^verbatim>\<open>Execute\<close>,
  \<^verbatim>\<open>Access\<close> and \<^verbatim>\<open>Stop\<close> are trees of the journal.
\<close>

section \<open>Internal origins\<close>

text \<open>\<^verbatim>\<open>[a-z0-9](?:[a-z0-9-]*[a-z0-9])?\<close>\<close>

definition nameElement :: "string \<Rightarrow> bool" where
  "nameElement s \<longleftrightarrow> s \<noteq> [] \<and> alnumLower (hd s) \<and> alnumLower (last s) \<and> list_all (\<lambda>c. alnumLower c \<or> c = CHR ''-'') s"

text \<open>\<^verbatim>\<open>serviceName\<close>: two such elements before \<^verbatim>\<open>.svc.cluster.local\<close>\<close>

definition serviceName :: "string \<Rightarrow> bool" where
  "serviceName s =
     (case splitOn CHR ''.'' s of
        [a, b, c, d, e] \<Rightarrow> nameElement a \<and> nameElement b \<and> c = ''svc'' \<and> d = ''cluster'' \<and> e = ''local''
      | _ \<Rightarrow> False)"

definition internalOrigin :: "lib \<Rightarrow> string \<Rightarrow> bool" where
  "internalOrigin L v =
     (case parseURL v of
        None \<Rightarrow> False
      | Some u \<Rightarrow>
          if Scheme u \<noteq> ''http'' \<or> User u \<or> \<not> serviceName (Hostname u) \<or> Path u \<noteq> [] \<or> RawQuery u \<noteq> [] \<or>
             ForceQuery u \<or> Fragment u \<noteq> [] \<or> Opaque u \<noteq> [] then False
          else (let parts = splitOn CHR ''.'' (Hostname u) in
            if \<not> label L (parts ! 0) \<or> \<not> label L (parts ! 1) \<or> (Port u = [] \<and> Host u \<noteq> Hostname u) then False
            else if Port u \<noteq> [] then
              (case Atoi (Port u) of
                 None \<Rightarrow> False
               | Some port \<Rightarrow> \<not> (port < 1 \<or> port > 65535 \<or> showInt port \<noteq> Port u))
            else True))"

section \<open>The registry of callers\<close>

record CoreAuthority =
  origin :: string
  token :: string
  appID :: string
  hasClient :: bool

record Caller =
  callerAppID :: string
  Authority :: "CoreAuthority option"

record accessEntry =
  eAppID :: string
  eTokenEnv :: string
  eCoreTokenEnv :: string

text \<open>\<^verbatim>\<open>^<prefix>[A-Z0-9_]+_TOKEN$\<close>: the greedy middle part may itself contain \<^verbatim>\<open>_TOKEN\<close>.\<close>

definition tokenEnvName :: "string \<Rightarrow> string \<Rightarrow> bool" where
  "tokenEnvName pre s \<longleftrightarrow> hasPrefix s pre \<and> hasSuffix (drop (length pre) s) ''_TOKEN'' \<and>
     (let mid = take (length s - length pre - 6) (drop (length pre) s) in
      mid \<noteq> [] \<and> list_all (\<lambda>c. isUpper c \<or> isDigit c \<or> c = CHR ''_'') mid)"

type_synonym 'd AccessRegistry = "('d \<times> Caller) list"

fun registryLoop :: "lib \<Rightarrow> (string \<Rightarrow> 'd) \<Rightarrow> (string \<Rightarrow> string) \<Rightarrow> string \<Rightarrow> string list \<Rightarrow> 'd list \<Rightarrow> 'd AccessRegistry
     \<Rightarrow> accessEntry list \<Rightarrow> err + 'd AccessRegistry" where
  "registryLoop L sha lookup coreOrigin apps digests out [] = Inr out"
| "registryLoop L sha lookup coreOrigin apps digests out (e # es) =
     reject (\<not> label L (eAppID e) \<or> eAppID e \<in> set apps \<or> \<not> tokenEnvName ''STATION_APP_INSTANCE_'' (eTokenEnv e) \<or>
       \<not> tokenEnvName ''STATION_APP_INSTALLATION_'' (eCoreTokenEnv e)) ErrInvalid
     (let incoming = lookup (eTokenEnv e); outgoing = lookup (eCoreTokenEnv e) in
      reject (\<not> credentialValid incoming \<or> \<not> credentialValid outgoing \<or> incoming = outgoing) ErrInvalid
      (let inHash = sha (''Bearer '' @ incoming); outHash = sha (''Bearer '' @ outgoing) in
       reject (inHash \<in> set digests \<or> outHash \<in> set digests) ErrInvalid
       (registryLoop L sha lookup coreOrigin (eAppID e # apps) (outHash # inHash # digests)
         ((inHash, \<lparr>callerAppID = eAppID e, Authority = Some \<lparr>origin = coreOrigin, token = outgoing, appID = eAppID e,
            hasClient = True\<rparr>\<rparr>) # out) es)))"

definition LoadAccessRegistry ::
  "lib \<Rightarrow> (string \<Rightarrow> 'd) \<Rightarrow> accessEntry list codec \<Rightarrow> string option \<Rightarrow> (string \<Rightarrow> string) option \<Rightarrow> string
     \<Rightarrow> err + 'd AccessRegistry" where
  "LoadAccessRegistry L sha C reader lookup coreOrigin =
     (case lookup of
        None \<Rightarrow> Inl ErrInvalid
      | Some getenv \<Rightarrow>
          if \<not> internalOrigin L coreOrigin then Inl ErrInvalid
          else (case Decode C reader (64 * 1024) of
              None \<Rightarrow> Inl ErrInvalid
            | Some es \<Rightarrow>
                if length es = 0 \<or> length es > 128 then Inl ErrInvalid
                else registryLoop L sha getenv coreOrigin [] [] [] es))"

section \<open>Authorization by Core\<close>

record authorization =
  aSchemaVersion :: int
  aInstallationID :: string
  aAppID :: string
  aAppVersion :: string
  aWorkerVersion :: string
  aStationID :: string
  aOrganizationID :: string
  aUserID :: string
  aInstallationRevision :: int
  aRequestID :: string

text \<open>The identifier \<^verbatim>\<open>uuid.NewV7\<close> makes of sixteen random bytes, the encoder of the request
  body and the decoder of the reply.\<close>

record coreLib =
  uuidV7 :: "string \<Rightarrow> string"
  authorizeBody :: "string \<Rightarrow> string \<Rightarrow> string"
  authorizationCodec :: "authorization codec"

definition authorizationHolds :: "CoreAuthority \<Rightarrow> Run \<Rightarrow> Profile \<Rightarrow> string \<Rightarrow> authorization \<Rightarrow> bool" where
  "authorizationHolds a r p rid res \<longleftrightarrow> \<not>
     (aSchemaVersion res \<noteq> 1 \<or> aInstallationRevision res < 1 \<or> aInstallationID res \<noteq> InstallationID (runIdentity r) \<or>
      aAppID res \<noteq> appID a \<or> aWorkerVersion res \<noteq> pAppVersion p \<or> \<not> semver (aAppVersion res) \<or>
      aStationID res \<noteq> StationID (runIdentity r) \<or> aOrganizationID res \<noteq> OrganizationID (runIdentity r) \<or>
      aUserID res \<noteq> UserID (runIdentity r) \<or> aRequestID res \<noteq> rid)"

definition authorizeRequest :: "coreLib \<Rightarrow> CoreAuthority \<Rightarrow> Run \<Rightarrow> Profile \<Rightarrow> string \<Rightarrow> httpRequest" where
  "authorizeRequest CL a r p rid =
     \<lparr>httpMethod = ''POST'', httpURL = origin a @ ''/internal/v1/app-installations/authorize-worker'',
      httpHeaders = [(''Content-Type'', ''application/json''), (''Authorization'', ''Bearer '' @ token a),
        (''X-User-Id'', UserID (runIdentity r)), (''X-Organization-Id'', OrganizationID (runIdentity r)),
        (''X-Station-Id'', StationID (runIdentity r)), (''X-Request-Id'', rid)],
      httpBody = authorizeBody CL (InstallationID (runIdentity r)) (pAppVersion p)\<rparr>"

text \<open>\<^verbatim>\<open>CoreAuthority.Check\<close>; without a client the controlled request fails.\<close>

definition Check ::
  "lib \<Rightarrow> httpLib \<Rightarrow> coreLib \<Rightarrow> CoreAuthority option \<Rightarrow> Run \<Rightarrow> Profile \<Rightarrow> ('x, 'y, err + int) tree" where
  "Check L H CL auth r p =
     (case auth of
        None \<Rightarrow> Ret (Inl ErrDenied)
      | Some a \<Rightarrow>
          failIf (\<not> internalOrigin L (origin a) \<or> \<not> credentialValid (token a) \<or> \<not> validIdentity L (runIdentity r) \<or>
            \<not> ProfileValid L p \<or> pAppID p \<noteq> appID a) ErrDenied
          (kRandomBytes 16 (\<lambda>random. case random of
            Inl _ \<Rightarrow> Ret (Inl ErrUnavailable)
          | Inr bytes \<Rightarrow> let rid = uuidV7 CL bytes in
           if \<not> hasClient a then Ret (Inl ErrUnavailable)
           else kHttpDo (authorizeRequest CL a r p rid) (\<lambda>reply. case reply of
               None \<Rightarrow> Ret (Inl ErrUnavailable)
             | Some resp \<Rightarrow>
                 failIf (StatusCode resp = 403 \<or> StatusCode resp = 401 \<or> StatusCode resp = 404) ErrDenied
                 (failIf (StatusCode resp \<noteq> 200 \<or> \<not> plainJSON H resp) ErrUnavailable
                 (case Decode (authorizationCodec CL) (Some (respBody resp)) (16 * 1024) of
                    None \<Rightarrow> Ret (Inl ErrDenied)
                  | Some res \<Rightarrow>
                      failIf (\<not> authorizationHolds a r p rid res) ErrDenied
                      (Ret (Inr (aInstallationRevision res)))))))))"

section \<open>The handler\<close>

record StartInput =
  iInstallation :: string
  iInstance :: string
  iOperation :: string
  iGeneration :: int
  iAppVersion :: string
  iProfileID :: string

record StopInput = StartInput +
  StopOperation :: string
  StopBoot :: string

text \<open>A request: the parsed URL and the header fields with their values, under canonical names.\<close>

record request =
  rqMethod :: string
  rqPath :: string
  rqRawPath :: string
  rqRawQuery :: string
  rqForceQuery :: bool
  rqHeader :: "(string \<times> string list) list"
  rqTransferEncoding :: "string list"
  rqContentLength :: int
  rqBody :: string

definition headerValues :: "request \<Rightarrow> string \<Rightarrow> string list" where
  "headerValues q n = (case map_of (rqHeader q) n of None \<Rightarrow> [] | Some vs \<Rightarrow> vs)"

definition headerGet :: "request \<Rightarrow> string \<Rightarrow> string" where
  "headerGet q n = (case headerValues q n of [] \<Rightarrow> [] | v # _ \<Rightarrow> v)"

text \<open>\<open>Started code operation instance generation status phase\<close> and \<open>Stopped code operation start
  instance generation status phase\<close> are the replies of the two operations with their fields.\<close>

datatype reply =
    Failure int string
  | Started int string string int string string
  | Stopped int string string string int string string
  | AccessReply WorkerAccess

record 'd Handler =
  hStationID :: string
  Profiles :: "(string \<times> Profile) list"
  Callers :: "'d AccessRegistry"
  hExecute :: "(Caller \<Rightarrow> Run \<Rightarrow> Profile \<Rightarrow> (err + StartRecord) jtree) option"
  hAccess :: "(Caller \<Rightarrow> Run \<Rightarrow> Profile \<Rightarrow> (err + WorkerAccess) jtree) option"
  hStop :: "(Caller \<Rightarrow> Run \<Rightarrow> Profile \<Rightarrow> string \<Rightarrow> string \<Rightarrow> (err + StopRecord) jtree) option"

record serverLib =
  srvMedia :: "string \<Rightarrow> string option"
  startCodec :: "StartInput codec"
  stopCodec :: "StopInput codec"

definition errorReply :: "err \<Rightarrow> reply" where
  "errorReply e =
     (case e of
        ErrDenied \<Rightarrow> Failure 403 ''PERMISSION_DENIED''
      | ErrInvalid \<Rightarrow> Failure 400 ''INVALID_ARGUMENT''
      | ErrBusy \<Rightarrow> Failure 409 ''INSTANCE_BUSY''
      | ErrCapacity \<Rightarrow> Failure 409 ''INSTANCE_CAPACITY_UNAVAILABLE''
      | ErrNotReady \<Rightarrow> Failure 409 ''INSTANCE_NOT_RUNNING''
      | ErrConflict \<Rightarrow> Failure 409 ''INSTANCE_BINDING_CONFLICT''
      | ErrBinding \<Rightarrow> Failure 409 ''INSTANCE_BINDING_CONFLICT''
      | ErrNoRows \<Rightarrow> Failure 404 ''NOT_FOUND''
      | _ \<Rightarrow> Failure 503 ''INSTANCE_SERVICE_UNAVAILABLE'')"

definition stopReply :: "lib \<Rightarrow> Run \<Rightarrow> Profile \<Rightarrow> string \<Rightarrow> string \<Rightarrow> StopRecord \<Rightarrow> reply" where
  "stopReply L r p operation boot s =
     (let phase = Phase (stProgress s); pr = Proof (stProgress s);
          proofOk = (phase = ''accepted'' \<or> validUID L (rbPodUID (spBinding pr)) \<and>
            pr = stopProof r p (noObservation\<lparr>PodUID := rbPodUID (spBinding pr), BootID := boot\<rparr>) operation) in
      if stOperationID s \<noteq> operation \<or> stStartID s \<noteq> OperationID r \<or> stBootID s \<noteq> boot \<or> stRevision s < 1 \<or>
         (map_of stopPhases phase = None \<and> phase \<noteq> ''accepted'') \<or> \<not> proofOk
      then Failure 503 ''INVALID_STOP_RESULT''
      else Stopped (if phase = ''stopped'' then 200 else 202) (stOperationID s) (OperationID r)
        (InstanceID (runIdentity r)) (Generation r) (if phase = ''stopped'' then ''succeeded'' else ''running'') phase)"

definition accessReply :: "lib \<Rightarrow> Run \<Rightarrow> Profile \<Rightarrow> WorkerAccess \<Rightarrow> reply" where
  "accessReply L r p a = (if \<not> accessValid L r p a then Failure 503 ''INVALID_INSTANCE_ACCESS'' else AccessReply a)"

definition startReply :: "lib \<Rightarrow> Run \<Rightarrow> Profile \<Rightarrow> StartRecord \<Rightarrow> reply" where
  "startReply L r p res =
     (if rRun res \<noteq> r \<or> rProfileHash res \<noteq> Hash L p \<or> rInstallationRevision res < 1 \<or>
         (rPhase res \<noteq> ''accepted'' \<and> rPhase res \<noteq> ''launching'' \<and> rPhase res \<noteq> ''running'') \<or>
         (rPhase res = ''running'' \<and> (\<not> validObservation L (rObservation res) \<or> \<not> PodReady (rObservation res) \<or>
           \<not> validBoot L (BootID (rObservation res))))
      then Failure 503 ''INVALID_START_RESULT''
      else Started (if rPhase res = ''running'' then 200 else 202) (OperationID r)
        (InstanceID (runIdentity r)) (Generation r)
        (if rPhase res = ''running'' then ''succeeded'' else ''running'') (rPhase res))"


definition accessPath :: string where
  "accessPath = ''/internal/v1/app-instances/access''"

definition stopPath :: string where
  "stopPath = ''/internal/v1/app-instances/stop''"

definition startPath :: string where
  "startPath = ''/internal/v1/app-instances/start''"

text \<open>The caller of a request: a known method and path, one \<^verbatim>\<open>Authorization\<close> header whose digest
  is registered, one well-formed identity header each, and this station.\<close>

definition authenticate :: "lib \<Rightarrow> (string \<Rightarrow> 'd) \<Rightarrow> 'd Handler \<Rightarrow> request \<Rightarrow> reply + Caller" where
  "authenticate L sha h q =
     reject (rqMethod q \<noteq> ''POST'' \<or> (rqPath q \<noteq> accessPath \<and> rqPath q \<noteq> stopPath \<and> rqPath q \<noteq> startPath))
       (Failure 404 ''NOT_FOUND'')
     (case map_of (Callers h) (sha (headerGet q ''Authorization'')) of
        None \<Rightarrow> Inl (Failure 401 ''UNAUTHENTICATED'')
      | Some caller \<Rightarrow>
          reject (length (headerValues q ''Authorization'') \<noteq> 1) (Failure 401 ''UNAUTHENTICATED'')
          (reject (list_ex (\<lambda>n. length (headerValues q n) \<noteq> 1 \<or> \<not> validID L (headerGet q n))
             [''X-Station-Id'', ''X-User-Id'', ''X-Organization-Id'']) (Failure 400 ''INVALID_ARGUMENT'')
          (reject (headerGet q ''X-Station-Id'' \<noteq> hStationID h) (Failure 403 ''PERMISSION_DENIED'')
          (Inr caller))))"

definition bodyAllowed :: "serverLib \<Rightarrow> request \<Rightarrow> bool" where
  "bodyAllowed S q \<longleftrightarrow> \<not> (srvMedia S (headerGet q ''Content-Type'') \<noteq> Some ''application/json'' \<or>
     length (headerValues q ''Content-Type'') \<noteq> 1 \<or> rqRawPath q \<noteq> [] \<or> rqRawQuery q \<noteq> [] \<or> rqForceQuery q \<or>
     headerGet q ''Content-Encoding'' \<noteq> [] \<or> length (rqTransferEncoding q) \<noteq> 0 \<or> rqContentLength q > 4096)"

definition inputValid :: "lib \<Rightarrow> StartInput \<Rightarrow> bool" where
  "inputValid L i \<longleftrightarrow> validID L (iInstallation i) \<and> validID L (iInstance i) \<and> validID L (iOperation i) \<and>
     \<not> iGeneration i < 1 \<and> semver (iAppVersion i) \<and> label L (iProfileID i)"

text \<open>The decoded input with the stop's operation and boot, empty for the other paths.\<close>

definition decodeInput :: "lib \<Rightarrow> serverLib \<Rightarrow> request \<Rightarrow> (StartInput \<times> string \<times> string) option" where
  "decodeInput L S q =
     (if rqPath q = stopPath then
        (case Decode (stopCodec S) (Some (rqBody q)) 4096 of
           None \<Rightarrow> None
         | Some i \<Rightarrow>
             if \<not> validID L (StopOperation i) \<or> StopOperation i = iOperation i \<or> \<not> validBoot L (StopBoot i) then None
             else Some (StartInput.truncate i, StopOperation i, StopBoot i))
      else map_option (\<lambda>i. (i, [], [])) (Decode (startCodec S) (Some (rqBody q)) 4096))"

definition runOf :: "'d Handler \<Rightarrow> request \<Rightarrow> StartInput \<Rightarrow> Run" where
  "runOf h q i =
     \<lparr>runIdentity = \<lparr>StationID = hStationID h, OrganizationID = headerGet q ''X-Organization-Id'', UserID = headerGet q ''X-User-Id'',
        InstallationID = iInstallation i, InstanceID = iInstance i\<rparr>,
      OperationID = iOperation i, Generation = iGeneration i\<rparr>"

definition dispatch ::
  "lib \<Rightarrow> 'd Handler \<Rightarrow> request \<Rightarrow> Caller \<Rightarrow> Run \<Rightarrow> Profile \<Rightarrow> string \<Rightarrow> string \<Rightarrow> reply jtree" where
  "dispatch L h q caller r p operation boot =
     (if Authority caller = None then Ret (Failure 503 ''SERVICE_UNAVAILABLE'')
      else if rqPath q = stopPath then
        (case hStop h of None \<Rightarrow> Ret (Failure 503 ''SERVICE_UNAVAILABLE'')
         | Some f \<Rightarrow> bindP (f caller r p operation boot) (\<lambda>res. case res of
               Inl e \<Rightarrow> Ret (errorReply e) | Inr s \<Rightarrow> Ret (stopReply L r p operation boot s)))
      else if rqPath q = accessPath then
        (case hAccess h of None \<Rightarrow> Ret (Failure 503 ''SERVICE_UNAVAILABLE'')
         | Some f \<Rightarrow> bindP (f caller r p) (\<lambda>res. case res of
               Inl e \<Rightarrow> Ret (errorReply e) | Inr a \<Rightarrow> Ret (accessReply L r p a)))
      else
        (case hExecute h of None \<Rightarrow> Ret (Failure 503 ''SERVICE_UNAVAILABLE'')
         | Some f \<Rightarrow> bindP (f caller r p) (\<lambda>res. case res of
               Inl e \<Rightarrow> Ret (errorReply e) | Inr s \<Rightarrow> Ret (startReply L r p s))))"

definition allowedProfile :: "lib \<Rightarrow> 'd Handler \<Rightarrow> Caller \<Rightarrow> StartInput \<Rightarrow> Profile option" where
  "allowedProfile L h caller i =
     (case map_of (Profiles h) (callerAppID caller @ ''@'' @ iAppVersion i @ ''/'' @ iProfileID i) of
        None \<Rightarrow> None
      | Some p \<Rightarrow> if pAppID p \<noteq> callerAppID caller \<or> \<not> ProfileValid L p then None else Some p)"

definition ServeHTTP :: "lib \<Rightarrow> serverLib \<Rightarrow> (string \<Rightarrow> 'd) \<Rightarrow> 'd Handler \<Rightarrow> request \<Rightarrow> reply jtree" where
  "ServeHTTP L S sha h q =
     (case authenticate L sha h q of
        Inl rep \<Rightarrow> Ret rep
      | Inr caller \<Rightarrow>
          if \<not> bodyAllowed S q then Ret (Failure 400 ''INVALID_ARGUMENT'')
          else (case decodeInput L S q of
              None \<Rightarrow> Ret (Failure 400 ''INVALID_ARGUMENT'')
            | Some (i, operation, boot) \<Rightarrow>
                if \<not> inputValid L i then Ret (Failure 400 ''INVALID_ARGUMENT'')
                else (case allowedProfile L h caller i of
                    None \<Rightarrow> Ret (Failure 403 ''PROFILE_NOT_ALLOWED'')
                  | Some p \<Rightarrow> dispatch L h q caller (runOf h q i) p operation boot)))"


section \<open>The wiring of the service\<close>

text \<open>The handler of \<^verbatim>\<open>cmd/station-runtime/main.go\<close>: a journal with the HTTP observer for start and
  access, one with the HTTP stopper for stop.\<close>

definition startJournal :: "lib \<Rightarrow> httpLib \<Rightarrow> string \<Rightarrow> journal" where
  "startJournal L H station = \<lparr>jStationID = station, jObserver = Some (Observe L H), jStopper = None\<rparr>"

definition stopJournal :: "lib \<Rightarrow> httpLib \<Rightarrow> string \<Rightarrow> journal" where
  "stopJournal L H station = \<lparr>jStationID = station, jObserver = None, jStopper = Some (Seal L H)\<rparr>"

definition appHandler :: "lib \<Rightarrow> httpLib \<Rightarrow> string \<Rightarrow> (string \<times> Profile) list \<Rightarrow> 'd AccessRegistry \<Rightarrow> 'd Handler" where
  "appHandler L H station profiles callers =
     \<lparr>hStationID = station, Profiles = profiles, Callers = callers,
      hExecute = Some (\<lambda>_ r p. Start L (startJournal L H station) r p),
      hAccess = Some (\<lambda>_ r p. Access L (startJournal L H station) r p),
      hStop = Some (\<lambda>_ r p operation boot. Stop L (stopJournal L H station) r p operation boot)\<rparr>"

section \<open>Who reaches the journal\<close>

definition admitted ::
  "lib \<Rightarrow> serverLib \<Rightarrow> (string \<Rightarrow> 'd) \<Rightarrow> 'd Handler \<Rightarrow> request \<Rightarrow> Caller \<Rightarrow> StartInput \<Rightarrow> string \<Rightarrow> string \<Rightarrow> Profile \<Rightarrow> bool" where
  "admitted L S sha h q caller i operation boot p \<longleftrightarrow>
     authenticate L sha h q = Inr caller \<and> bodyAllowed S q \<and> decodeInput L S q = Some (i, operation, boot) \<and>
     inputValid L i \<and> allowedProfile L h caller i = Some p"

lemma ServeHTTP_admitted:
  "admitted L S sha h q caller i operation boot p \<Longrightarrow>
     ServeHTTP L S sha h q = dispatch L h q caller (runOf h q i) p operation boot"
  by (simp add: admitted_def ServeHTTP_def)

lemma ServeHTTP_cases:
  "(\<exists>code msg. ServeHTTP L S sha h q = Ret (Failure code msg) \<and> 400 \<le> code) \<or>
   (\<exists>caller i operation boot p. admitted L S sha h q caller i operation boot p)"
  unfolding ServeHTTP_def admitted_def
  by (auto simp: authenticate_def reject_def split: sum.splits option.splits)

lemma admitted_identity:
  assumes "admitted L S sha h q caller i operation boot p"
  shows "validIdentity L (runIdentity (runOf h q i)) \<and> validID L (OperationID (runOf h q i)) \<and>
    1 \<le> Generation (runOf h q i) \<and> pAppID p = callerAppID caller \<and> ProfileValid L p"
  using assms
  by (auto simp: admitted_def authenticate_def inputValid_def allowedProfile_def runOf_def validIdentity_def
      split: option.splits if_splits)



section \<open>What the service does to the world\<close>

lemma journals_read: "readOnlyPeers (startJournal L H station)" "readOnlyPeers (stopJournal L H station)"
  by (simp_all add: readOnlyPeers_def startJournal_def stopJournal_def Observe_reads Seal_reads)

text \<open>What a request for run \<open>r\<close> may change in the cluster.\<close>

definition serviceGuard :: "lib \<Rightarrow> Run \<Rightarrow> world \<Rightarrow> kreq \<Rightarrow> bool" where
  "serviceGuard L r w q \<longleftrightarrow> launchGuard L r w q \<or> stopGuardAt r w q"

abbreviation "serviceCalls L r \<equiv> permitted (StationID (runIdentity r)) (InstanceID (runIdentity r)) (serviceGuard L r)"

lemma holds_onlyCalls:
  assumes "onlyCalls P t" and "\<And>m q. P q \<Longrightarrow> C m q"
  shows "holds C E (\<lambda>_ _. True) m t"
  using assms(1) by (induction t arbitrary: m) (auto simp: assms(2))

lemma access_permitted: "accessRequest q \<Longrightarrow> permitted st i G w q"
  by (cases q rule: accessRequest.cases) simp_all

lemma holds_forget: "holds C E Q m t \<Longrightarrow> holds C E (\<lambda>_ _. True) m t"
  by (rule holds_mono) simp_all

lemma bindP_Ret_holds:
  "holds C E (\<lambda>_ _. True) m t \<Longrightarrow> (\<And>x. \<exists>y. k x = Ret y) \<Longrightarrow> holds C E (\<lambda>_ _. True) m (bindP t k)"
  unfolding holds_bindP by (erule holds_mono) (metis holds.simps(1))

lemma dispatch_rule:
  assumes "primaryKeys A" and "tablesOk w" and "pending w = None" and "Generation r < 2 ^ 63"
  shows "holds (serviceCalls L r) (others A r) (\<lambda>_ _. True) w
    (dispatch L (appHandler L H station profiles callers) q caller r p operation boot)"
proof -
  have start: "holds (serviceCalls L r) (others A r) (\<lambda>_ _. True) w (Start L (startJournal L H station) r p)"
    by (rule holds_forget [OF holds_calls [OF Start_rule [OF assms(1) journals_read(1) assms(2-4)]]])
      (erule permitted_weaken, simp add: serviceGuard_def)
  have stop: "holds (serviceCalls L r) (others A r) (\<lambda>_ _. True) w (Stop L (stopJournal L H station) r p operation boot)"
    by (rule holds_forget [OF holds_calls [OF Stop_rule [OF assms(1) journals_read(2) assms(2,3)]]])
      (erule permitted_weaken, simp add: serviceGuard_def)
  have access: "holds (serviceCalls L r) (others A r) (\<lambda>_ _. True) w (Access L (startJournal L H station) r p)"
    by (rule holds_onlyCalls [OF Access_calls [OF journals_read(1)]]) (rule access_permitted)
  show ?thesis
    unfolding dispatch_def appHandler_def
    by (auto split: sum.splits intro!: bindP_Ret_holds start stop access)
qed

text \<open>A decoded generation is a 64-bit number.\<close>

definition int64Inputs :: "serverLib \<Rightarrow> bool" where
  "int64Inputs S \<longleftrightarrow> (\<forall>b i. decodeInto (startCodec S) b = Some i \<longrightarrow> iGeneration i < 2 ^ 63) \<and>
     (\<forall>b i. decodeInto (stopCodec S) b = Some i \<longrightarrow> iGeneration i < 2 ^ 63)"

lemma Decode_decodes: "Decode C r limit = Some x \<Longrightarrow> \<exists>b. decodeInto C b = Some x"
  by (auto simp: Decode_def split: if_splits option.splits)

lemma decodeInput_generation:
  assumes "int64Inputs S" and "decodeInput L S q = Some (i, operation, boot)"
  shows "iGeneration i < 2 ^ 63"
  using assms
  by (auto simp: decodeInput_def int64Inputs_def StartInput.truncate_def dest!: Decode_decodes split: if_splits option.splits)

text \<open>C1: Every request that serving one HTTP request can lead to belongs to one run of this
  station, and is permitted for it: nothing a caller sends makes the service commit rows of
  another instance, break the invariant of the tables, or change the cluster beyond the
  guards of start and stop.\<close>

theorem ServeHTTP_guarded:
  assumes "primaryKeys A" and "int64Inputs S" and "Inv (committed w)" and "pending w = None"
    and "issues (env A station) w (ServeHTTP L S sha (appHandler L H station profiles callers) q) w' req"
  shows "\<exists>r. StationID (runIdentity r) = station \<and> validIdentity L (runIdentity r) \<and>
    permitted station (InstanceID (runIdentity r)) (serviceGuard L r) w' req"
proof -
  let ?h = "appHandler L H station profiles callers"
  from ServeHTTP_cases [of L S sha ?h q] assms(5) obtain caller i operation boot p where
    adm: "admitted L S sha ?h q caller i operation boot p"
    by (auto elim: issues.cases)
  let ?r = "runOf ?h q i"
  have st: "StationID (runIdentity ?r) = station" by (simp add: runOf_def appHandler_def)
  have "Generation ?r < 2 ^ 63"
    using decodeInput_generation [OF assms(2)] adm by (auto simp: admitted_def runOf_def)
  from holds_issues [OF _ dispatch_rule [OF assms(1,3,4) this]] assms(5) [unfolded ServeHTTP_admitted [OF adm]] st
  have "permitted station (InstanceID (runIdentity ?r)) (serviceGuard L ?r) w' req" by metis
  with st admitted_identity [OF adm] show ?thesis by blast
qed


section \<open>Authorization\<close>


section \<open>The registry of callers\<close>

definition inboundDigest :: "(string \<Rightarrow> 'd) \<Rightarrow> (string \<Rightarrow> string) \<Rightarrow> accessEntry \<Rightarrow> 'd" where
  "inboundDigest sha getenv e = sha (''Bearer '' @ getenv (eTokenEnv e))"

definition outboundDigest :: "(string \<Rightarrow> 'd) \<Rightarrow> (string \<Rightarrow> string) \<Rightarrow> accessEntry \<Rightarrow> 'd" where
  "outboundDigest sha getenv e = sha (''Bearer '' @ getenv (eCoreTokenEnv e))"

definition callerOf :: "(string \<Rightarrow> string) \<Rightarrow> string \<Rightarrow> accessEntry \<Rightarrow> Caller" where
  "callerOf getenv coreOrigin e =
     \<lparr>callerAppID = eAppID e, Authority = Some \<lparr>origin = coreOrigin, token = getenv (eCoreTokenEnv e), appID = eAppID e,
       hasClient = True\<rparr>\<rparr>"

text \<open>The loop checks every digest against those of the entries before it.\<close>

lemma registryLoop_spec:
  assumes "registryLoop L sha getenv coreOrigin apps digests out es = Inr reg"
  shows "reg = rev (map (\<lambda>e. (inboundDigest sha getenv e, callerOf getenv coreOrigin e)) es) @ out \<and>
    distinct (map eAppID es) \<and> set (map eAppID es) \<inter> set apps = {} \<and>
    (\<forall>e \<in> set es. label L (eAppID e) \<and> credentialValid (getenv (eTokenEnv e)) \<and> credentialValid (getenv (eCoreTokenEnv e)) \<and>
      getenv (eTokenEnv e) \<noteq> getenv (eCoreTokenEnv e) \<and>
      inboundDigest sha getenv e \<notin> set digests \<and> outboundDigest sha getenv e \<notin> set digests) \<and>
    distinct (map (inboundDigest sha getenv) es) \<and> distinct (map (outboundDigest sha getenv) es) \<and>
    (\<forall>i < length es. \<forall>j < length es. i \<noteq> j \<longrightarrow> inboundDigest sha getenv (es ! i) \<noteq> outboundDigest sha getenv (es ! j))"
  using assms
proof (induction es arbitrary: apps digests out)
  case (Cons e es)
  let ?in = "inboundDigest sha getenv" and ?out = "outboundDigest sha getenv"
  from Cons.prems have here: "label L (eAppID e)" "eAppID e \<notin> set apps" "credentialValid (getenv (eTokenEnv e))"
      "credentialValid (getenv (eCoreTokenEnv e))" "getenv (eTokenEnv e) \<noteq> getenv (eCoreTokenEnv e)"
      "?in e \<notin> set digests" "?out e \<notin> set digests"
    and rest: "registryLoop L sha getenv coreOrigin (eAppID e # apps) (?out e # ?in e # digests)
      ((?in e, callerOf getenv coreOrigin e) # out) es = Inr reg"
    by (simp_all add: inboundDigest_def outboundDigest_def callerOf_def Let_def)
  note IH = Cons.IH [OF rest]
  have "?in ((e # es) ! i) \<noteq> ?out ((e # es) ! j)" if "i < length (e # es)" "j < length (e # es)" "i \<noteq> j" for i j
    using that IH by (cases i; cases j) (auto simp: list_all_iff dest: nth_mem)
  with IH here show ?case by (auto simp: image_iff)
qed simp

text \<open>C16: A loaded registry has an entry for each App exactly once, under the digest of its inbound
  token; no inbound token is the outbound token of any App, nor the inbound token of another. The
  digest is assumed to have no collision among the tokens of the environment.\<close>

theorem LoadAccessRegistry_separates:
  assumes "LoadAccessRegistry L sha C reader (Some getenv) coreOrigin = Inr reg" and "inj_on sha (range (\<lambda>v. ''Bearer '' @ getenv v))"
  shows "internalOrigin L coreOrigin \<and> reg \<noteq> [] \<and> distinct (map fst reg) \<and> distinct (map (callerAppID \<circ> snd) reg) \<and>
    (\<forall>(d, c) \<in> set reg. \<exists>a. Authority c = Some a \<and> appID a = callerAppID c \<and> origin a = coreOrigin \<and> credentialValid (token a) \<and>
      sha (''Bearer '' @ token a) \<notin> fst ` set reg)"
proof -
  from assms(1) obtain es where es: "es \<noteq> []" and org: "internalOrigin L coreOrigin"
    and loop: "registryLoop L sha getenv coreOrigin [] [] [] es = Inr reg"
    by (auto simp: LoadAccessRegistry_def split: option.splits if_splits)
  let ?in = "inboundDigest sha getenv" and ?out = "outboundDigest sha getenv"
  note spec = registryLoop_spec [OF loop]
  have reg: "reg = rev (map (\<lambda>e. (?in e, callerOf getenv coreOrigin e)) es)" using spec by simp
  have "?out e \<notin> ?in ` set es" if e: "e \<in> set es" for e
  proof
    assume "?out e \<in> ?in ` set es"
    then obtain i j where ij: "i < length es" "j < length es" "es ! j = e" "?in (es ! i) = ?out (es ! j)"
      using e by (auto simp: in_set_conv_nth)
    with spec have "i = j" by metis
    with ij have "getenv (eTokenEnv e) = getenv (eCoreTokenEnv e)"
      unfolding inboundDigest_def outboundDigest_def by (auto dest!: inj_onD [OF assms(2)])
    with spec e show False by blast
  qed
  moreover have "map fst reg = rev (map ?in es)" "map (callerAppID \<circ> snd) reg = rev (map eAppID es)"
    unfolding reg by (simp_all add: rev_map comp_def callerOf_def)
  moreover have "fst ` set reg = ?in ` set es" unfolding reg by (simp add: image_image)
  ultimately show ?thesis
    using org es spec unfolding reg by (auto simp: callerOf_def outboundDigest_def)
qed

section \<open>Origins\<close>

text \<open>An accepted origin is a plain service address of the cluster with an optional canonical
  port: no credentials, path or query.\<close>

lemma internalOrigin_parts:
  assumes "internalOrigin L v"
  shows "\<exists>u. parseURL v = Some u \<and> Scheme u = ''http'' \<and> \<not> User u \<and> serviceName (Hostname u) \<and> Path u = [] \<and> RawQuery u = [] \<and>
    (Port u = [] \<and> Host u = Hostname u \<or> (\<exists>n. Atoi (Port u) = Some n \<and> 1 \<le> n \<and> n \<le> 65535 \<and> showInt n = Port u))"
  using assms
  by (auto simp: internalOrigin_def Let_def split: option.splits if_splits)



section \<open>A concrete request\<close>

definition sampleInput :: StartInput where
  "sampleInput = \<lparr>iInstallation = InstallationID sampleIdentity, iInstance = InstanceID sampleIdentity,
     iOperation = sampleID CHR ''8'', iGeneration = 1, iAppVersion = ''1.2.3'', iProfileID = ''cpu''\<rparr>"

definition sampleServer :: serverLib where
  "sampleServer = \<lparr>srvMedia = (\<lambda>s. Some s), startCodec = fixedCodec sampleInput,
     stopCodec = fixedCodec (StartInput.extend sampleInput \<lparr>StopOperation = sampleID CHR ''9'', StopBoot = sampleBoot\<rparr>)\<rparr>"

definition sampleToken :: string where
  "sampleToken = replicate 40 CHR ''t''"

definition sampleAuthority :: CoreAuthority where
  "sampleAuthority = \<lparr>origin = ''http://core.apps.svc.cluster.local'', token = replicate 40 CHR ''u'', appID = ''app'', hasClient = True\<rparr>"

definition sampleCallers :: "string AccessRegistry" where
  "sampleCallers = [(''Bearer '' @ sampleToken, \<lparr>callerAppID = ''app'', Authority = Some sampleAuthority\<rparr>)]"

definition sampleRequest :: request where
  "sampleRequest = \<lparr>rqMethod = ''POST'', rqPath = startPath, rqRawPath = [], rqRawQuery = [], rqForceQuery = False,
     rqHeader = [(''Authorization'', [''Bearer '' @ sampleToken]), (''X-Station-Id'', [StationID sampleIdentity]),
       (''X-User-Id'', [UserID sampleIdentity]), (''X-Organization-Id'', [OrganizationID sampleIdentity]),
       (''Content-Type'', [''application/json''])],
     rqTransferEncoding = [], rqContentLength = 2, rqBody = ''{}''\<rparr>"

abbreviation "sampleHandler H \<equiv> appHandler sampleLib H (StationID sampleIdentity) [(Key sampleProfile, sampleProfile)] sampleCallers"

lemma sampleInputs: "int64Inputs sampleServer"
  by (simp add: int64Inputs_def sampleServer_def fixedCodec_def sampleInput_def StartInput.extend_def)

lemma sample_admitted:
  "admitted sampleLib sampleServer id (sampleHandler H) sampleRequest \<lparr>callerAppID = ''app'', Authority = Some sampleAuthority\<rparr>
     sampleInput [] [] sampleProfile"
proof -
  have "authenticate sampleLib id (sampleHandler H) sampleRequest = Inr \<lparr>callerAppID = ''app'', Authority = Some sampleAuthority\<rparr>"
    by code_simp
  moreover have "bodyAllowed sampleServer sampleRequest" by code_simp
  moreover have "inputValid sampleLib sampleInput" by code_simp
  moreover have "decodeInput sampleLib sampleServer sampleRequest = Some (sampleInput, [], [])"
    by (simp add: decodeInput_def sampleServer_def sampleRequest_def fixedCodec_run startPath_def stopPath_def)
  moreover have "allowedProfile sampleLib (sampleHandler H) \<lparr>callerAppID = ''app'', Authority = Some sampleAuthority\<rparr> sampleInput = Some sampleProfile"
    by code_simp
  ultimately show ?thesis unfolding admitted_def by blast
qed

lemma sample_dispatch:
  "ServeHTTP sampleLib sampleServer id (sampleHandler H) sampleRequest =
     bindP (Start sampleLib (startJournal sampleLib H (StationID sampleIdentity)) sampleR sampleProfile)
       (\<lambda>res. case res of Inl e \<Rightarrow> Ret (errorReply e) | Inr s \<Rightarrow> Ret (startReply sampleLib sampleR sampleProfile s))"
proof -
  have "runOf (sampleHandler H) sampleRequest sampleInput = sampleR" by code_simp
  moreover have "rqPath sampleRequest \<noteq> stopPath" "rqPath sampleRequest \<noteq> accessPath"
    by (simp_all add: sampleRequest_def startPath_def stopPath_def accessPath_def)
  moreover have "hExecute (sampleHandler H) = Some (\<lambda>_ r p. Start sampleLib (startJournal sampleLib H (StationID sampleIdentity)) r p)"
    by (simp add: appHandler_def)
  ultimately show ?thesis
    unfolding ServeHTTP_admitted [OF sample_admitted] dispatch_def by simp
qed

text \<open>The lock of a busy instance answers the request after three calls.\<close>

definition busyHistory :: "(jreq req \<times> jresp resp) list" where
  "busyHistory = [(X Begin, XR (RTx None)), (X (TryXactLock (instanceKey sampleR)), XR (RLock (Inr False)))]"

lemma sample_busy:
  "runs (ServeHTTP sampleLib sampleServer id (sampleHandler H) sampleRequest) busyHistory (Failure 409 ''INSTANCE_BUSY'')"
proof -
  have "journalValid sampleLib (startJournal sampleLib H (StationID sampleIdentity)) sampleR sampleProfile" by code_simp
  then have "runs (Accept sampleLib (startJournal sampleLib H (StationID sampleIdentity)) sampleR sampleProfile) busyHistory (Inl ErrBusy)"
    by (simp add: Accept_def busyHistory_def) (rule exI [of _ False], simp)
  then have "runs (Start sampleLib (startJournal sampleLib H (StationID sampleIdentity)) sampleR sampleProfile) busyHistory (Inl ErrBusy)"
    by (auto simp: Start_def runs_thenP startJournal_def)
  then show ?thesis
    unfolding sample_dispatch runs_bindP by (intro exI [of _ busyHistory] exI [of _ "[]"]) (auto simp: errorReply_def)
qed

definition refusingCodec :: "'a codec" where
  "refusingCodec = \<lparr>tokens = (\<lambda>_. []), floatSyntax = (\<lambda>_. False), decodeInto = (\<lambda>_. None), marshal = (\<lambda>_. None),
     unmarshalAny = (\<lambda>_. None)\<rparr>"

definition sampleHttp :: httpLib where
  "sampleHttp = \<lparr>mediaType = (\<lambda>s. Some s), statusCodec = refusingCodec, proofCodec = refusingCodec, failureCodec = refusingCodec,
     sealBody = (\<lambda>_. [])\<rparr>"


lemma issues_bindP: "issues E m t m' q \<Longrightarrow> issues E m (bindP t k) m' q"
  by (induction rule: issues.induct) (auto intro: issues.intros)

theorem ServeHTTP_guarded_witness:
  "\<exists>w' (r::Run). issues (env keyed (StationID sampleIdentity)) sampleWorld
      (ServeHTTP sampleLib sampleServer id (sampleHandler sampleHttp) sampleRequest) w' (X Commit) \<and>
    StationID (runIdentity r) = StationID sampleIdentity \<and>
    guarantee (StationID sampleIdentity) (InstanceID (runIdentity r)) w' (view w')"
proof -
  have "map_option snd (walk 15 sampleWorld (Start sampleLib (startJournal sampleLib sampleHttp (StationID sampleIdentity))
      sampleR sampleProfile) acceptReplies) = Some (X Commit)" by code_simp
  then obtain w' where w: "walk 15 sampleWorld (Start sampleLib (startJournal sampleLib sampleHttp (StationID sampleIdentity))
      sampleR sampleProfile) acceptReplies = Some (w', X Commit)" by auto
  have iss: "issues (env keyed (StationID sampleIdentity)) sampleWorld
      (ServeHTTP sampleLib sampleServer id (sampleHandler sampleHttp) sampleRequest) w' (X Commit)"
    unfolding sample_dispatch by (rule issues_bindP [OF walk_issues [OF w]])
  from ServeHTTP_guarded [OF keyed_keys sampleInputs sampleWorld_ok iss] obtain r where
    r: "StationID (runIdentity r) = StationID sampleIdentity"
    and p: "permitted (StationID sampleIdentity) (InstanceID (runIdentity r)) (serviceGuard sampleLib r) w' (X Commit)"
    by (elim exE conjE)
  show ?thesis by (intro exI [of _ w'] exI [of _ r] conjI iss r p [unfolded permitted_simps])
qed

section \<open>A concrete authorization\<close>

definition sampleRid :: string where
  "sampleRid = sampleID CHR ''e''"

definition sampleAnswer :: authorization where
  "sampleAnswer = \<lparr>aSchemaVersion = 1, aInstallationID = InstallationID sampleIdentity, aAppID = ''app'', aAppVersion = ''2.0.0'',
     aWorkerVersion = ''1.2.3'', aStationID = StationID sampleIdentity, aOrganizationID = OrganizationID sampleIdentity,
     aUserID = UserID sampleIdentity, aInstallationRevision = 7, aRequestID = sampleRid\<rparr>"

definition sampleCore :: coreLib where
  "sampleCore = \<lparr>uuidV7 = id, authorizeBody = (\<lambda>_ _. []), authorizationCodec = fixedCodec sampleAnswer\<rparr>"

definition sampleResponse :: httpResponse where
  "sampleResponse = \<lparr>StatusCode = 200, contentType = ''application/json'', contentEncoding = [], Uncompressed = False, respBody = ''{}''\<rparr>"

lemma sample_credentials: "credentialValid (replicate 40 CHR ''u'')" "credentialValid sampleToken"
  by (simp_all add: credentialValid_def sampleToken_def list_all_iff)

lemma sample_check:
  "runs (Check sampleLib sampleHttp sampleCore (Some sampleAuthority) sampleR sampleProfile :: (unit, unit, err + int) tree)
     [(K (RandomBytes 16), KR (RBytes (Inr sampleRid))),
      (K (HttpDo (authorizeRequest sampleCore sampleAuthority sampleR sampleProfile sampleRid)), KR (RHttp (Some sampleResponse)))] (Inr 7)"
proof -
  have "internalOrigin sampleLib (origin sampleAuthority)" by code_simp
  moreover have "validIdentity sampleLib sampleIdentity" by code_simp
  moreover have "credentialValid (token sampleAuthority)" "hasClient sampleAuthority" "pAppID sampleProfile = appID sampleAuthority"
    by (simp_all add: sampleAuthority_def sample_credentials sampleProfile_def)
  moreover have "authorizationHolds sampleAuthority sampleR sampleProfile sampleRid sampleAnswer" by code_simp
  moreover have "plainJSON sampleHttp sampleResponse" by (simp add: plainJSON_def sampleHttp_def sampleResponse_def)
  moreover have "Decode (authorizationCodec sampleCore) (Some (respBody sampleResponse)) (16 * 1024) = Some sampleAnswer"
    by (simp add: sampleCore_def sampleResponse_def fixedCodec_run)
  moreover have "StatusCode sampleResponse = 200" by (simp add: sampleResponse_def)
  moreover have "aInstallationRevision sampleAnswer = 7" by (simp add: sampleAnswer_def)
  ultimately show ?thesis by (simp add: Check_def Let_def sampleProfile_valid sampleCore_def)
qed


definition sampleEntries :: "accessEntry list" where
  "sampleEntries = [\<lparr>eAppID = ''app'', eTokenEnv = ''STATION_APP_INSTANCE_A_TOKEN'', eCoreTokenEnv = ''STATION_APP_INSTALLATION_A_TOKEN''\<rparr>]"

definition sampleEnv :: "string \<Rightarrow> string" where
  "sampleEnv v = (if v = ''STATION_APP_INSTANCE_A_TOKEN'' then sampleToken else replicate 40 CHR ''u'')"

lemma sample_registry:
  "LoadAccessRegistry sampleLib id (fixedCodec sampleEntries) (Some ''{}'') (Some sampleEnv) ''http://core.apps.svc.cluster.local'' =
     Inr sampleCallers"
proof -
  have names: "tokenEnvName ''STATION_APP_INSTANCE_'' ''STATION_APP_INSTANCE_A_TOKEN''"
    "tokenEnvName ''STATION_APP_INSTALLATION_'' ''STATION_APP_INSTALLATION_A_TOKEN''" by code_simp+
  have env: "sampleEnv ''STATION_APP_INSTANCE_A_TOKEN'' = sampleToken"
    "sampleEnv ''STATION_APP_INSTALLATION_A_TOKEN'' = replicate 40 CHR ''u''" by (simp_all add: sampleEnv_def)
  have "sampleToken \<noteq> replicate 40 CHR ''u''" by (simp add: sampleToken_def)
  then have "registryLoop sampleLib id sampleEnv ''http://core.apps.svc.cluster.local'' [] [] [] sampleEntries = Inr sampleCallers"
    by (simp add: sampleEntries_def env names sample_credentials sampleCallers_def sampleAuthority_def label_def reject_def)
      (simp add: sampleLib_def)
  moreover have "internalOrigin sampleLib ''http://core.apps.svc.cluster.local''" by code_simp
  ultimately show ?thesis
    by (simp add: LoadAccessRegistry_def fixedCodec_run) (simp add: sampleEntries_def)
qed

theorem LoadAccessRegistry_separates_witness:
  "internalOrigin sampleLib ''http://core.apps.svc.cluster.local'' \<and> sampleCallers \<noteq> [] \<and>
    distinct (map fst sampleCallers) \<and> distinct (map (callerAppID \<circ> snd) sampleCallers) \<and>
    list_all (\<lambda>(d, c). \<exists>a. Authority c = Some a \<and> appID a = callerAppID c \<and>
      origin a = ''http://core.apps.svc.cluster.local'' \<and> credentialValid (token a) \<and>
      id (''Bearer '' @ token a) \<notin> fst ` set sampleCallers) sampleCallers"
  unfolding list_all_iff by (rule LoadAccessRegistry_separates [OF sample_registry]) simp

end
