(* ===== verification/Startup.thy ===== *)
theory Startup
  imports AppServer
begin

text \<open>
  The checks of \<^verbatim>\<open>cmd/station-runtime/main.go\<close> before the servers start: the separation of control
  credentials from App callers, the match of callers and profiles, the choice of a cleaner
  image, and the merged list of observed namespaces. Go leaves the order of a map iteration
  open: a map that is iterated over is a list of its values, in an order the code does not
  control.
\<close>

section \<open>Credentials\<close>

text \<open>\<open>releases\<close> are the tokens of the maintenance registry, \<open>None\<close> without a registry.\<close>

definition controlCredentials :: "string \<Rightarrow> string list option \<Rightarrow> string list" where
  "controlCredentials control releases =
     (if control \<noteq> [] then [control] else []) @
     (case releases of None \<Rightarrow> [] | Some ts \<Rightarrow> filter (\<lambda>t. t \<noteq> []) ts)"

definition transitionCredentialsDistinct ::
  "(string \<Rightarrow> 'd) \<Rightarrow> string \<Rightarrow> string \<Rightarrow> string list option \<Rightarrow> 'd AccessRegistry \<Rightarrow> bool" where
  "transitionCredentialsDistinct sha control inst releases callers \<longleftrightarrow>
     list_all (\<lambda>c. map_of callers (sha (''Bearer '' @ c)) = None \<and> c \<noteq> inst) (controlCredentials control releases)"

text \<open>C36: A control credential does not open the App instance service: a request that presents one
  is answered before anything else happens, whatever it asks for.\<close>

theorem control_credentials_refused:
  assumes "transitionCredentialsDistinct sha control inst releases (Callers h)"
    and "c \<in> set (controlCredentials control releases)" and "headerGet q ''Authorization'' = ''Bearer '' @ c"
  shows "(ServeHTTP L S sha h q = Ret (Failure 401 ''UNAUTHENTICATED'') \<or> ServeHTTP L S sha h q = Ret (Failure 404 ''NOT_FOUND'')) \<and> c \<noteq> inst"
proof -
  have "map_of (Callers h) (sha (headerGet q ''Authorization'')) = None" and "c \<noteq> inst"
    using assms by (auto simp: transitionCredentialsDistinct_def list_all_iff)
  then show ?thesis by (auto simp: ServeHTTP_def authenticate_def reject_def)
qed

section \<open>Callers and profiles\<close>

text \<open>The loops of \<open>load\<close>: the map from the App of each caller to whether a profile was seen.\<close>

fun markApps :: "(string \<rightharpoonup> bool) \<Rightarrow> string list \<Rightarrow> (string \<rightharpoonup> bool) option" where
  "markApps m [] = Some m"
| "markApps m (a # as) = (if m a = None then None else markApps (m(a \<mapsto> True)) as)"

definition appsConsistent :: "'d AccessRegistry \<Rightarrow> (string \<times> Profile) list \<Rightarrow> bool" where
  "appsConsistent callers profiles =
     (let apps = map (\<lambda>(_, c). callerAppID c) callers in
      case markApps (foldl (\<lambda>m a. m(a \<mapsto> False)) Map.empty apps) (map (\<lambda>(_, p). pAppID p) profiles) of
        None \<Rightarrow> False
      | Some m \<Rightarrow> list_all (\<lambda>a. m a = Some True) apps)"

lemma foldl_False: "foldl (\<lambda>m a. m(a \<mapsto> False)) M as a = (if a \<in> set as then Some False else M a)"
  by (induction as arbitrary: M) auto

lemma markApps_Some:
  "markApps m as = Some m' \<longleftrightarrow> set as \<subseteq> dom m \<and> m' = (\<lambda>a. if a \<in> set as then Some True else m a)"
proof (induction as arbitrary: m)
  case (Cons a as)
  have d: "set as \<subseteq> dom (m(a \<mapsto> True)) \<longleftrightarrow> set (a # as) \<subseteq> dom m" if "m a \<noteq> None" using that by auto
  have f: "(\<lambda>x. if x \<in> set as then Some True else (m(a \<mapsto> True)) x) = (\<lambda>x. if x \<in> set (a # as) then Some True else m x)"
    by auto
  show ?case
  proof (cases "m a = None")
    case False
    then have "markApps m (a # as) = Some m' \<longleftrightarrow> markApps (m(a \<mapsto> True)) as = Some m'"
      by (simp only: markApps.simps if_False)
    then show ?thesis unfolding Cons f d [OF False] .
  qed auto
qed auto

text \<open>The configuration is accepted exactly when every profile belongs to a registered caller and
  every caller has a profile.\<close>

theorem appsConsistent_iff:
  "appsConsistent callers profiles \<longleftrightarrow>
     (\<lambda>(_, c). callerAppID c) ` set callers = (\<lambda>(_, p). pAppID p) ` set profiles"
proof -
  let ?apps = "map (\<lambda>(_, c). callerAppID c) callers" and ?ps = "map (\<lambda>(_, p). pAppID p) profiles"
  let ?M = "foldl (\<lambda>m a. m(a \<mapsto> False)) Map.empty ?apps"
  have dom: "dom ?M = set ?apps" by (auto simp: foldl_False dom_def)
  have "appsConsistent callers profiles \<longleftrightarrow> set ?ps \<subseteq> set ?apps \<and> set ?apps \<subseteq> set ?ps"
  proof (cases "markApps ?M ?ps")
    case None
    then have "\<not> set ?ps \<subseteq> dom ?M" using markApps_Some [of ?M ?ps] by force
    with None show ?thesis unfolding dom by (simp add: appsConsistent_def)
  next
    case (Some m)
    then have "set ?ps \<subseteq> set ?apps" "m = (\<lambda>a. if a \<in> set ?ps then Some True else ?M a)"
      using markApps_Some [of ?M ?ps m] unfolding dom by auto
    moreover have "appsConsistent callers profiles \<longleftrightarrow> list_all (\<lambda>a. m a = Some True) ?apps"
      using Some by (simp add: appsConsistent_def)
    ultimately show ?thesis by (auto simp: list_all_iff foldl_False split: if_splits)
  qed
  then show ?thesis unfolding set_map by (simp only: set_eq_subset conj_commute)
qed

section \<open>The cleaner\<close>

record helperProfile =
  hpNamespace :: string
  hpClaims :: "string list"
  hpImage :: string

definition lowerCase :: "string \<Rightarrow> string" where
  "lowerCase s = map lowerChar s"

text \<open>The name of a claim is ASCII, as Kubernetes requires. \<open>helpers\<close> and \<open>apps\<close> are the values of the two maps in the order a loop visits them, one
  order for each of its loops.\<close>

record iterationOrder =
  claimHelpers :: "helperProfile list"
  claimApps :: "Profile list"
  comfyApps :: "Profile list"
  blenderHelpers :: "helperProfile list"
  anyHelpers :: "helperProfile list"
  anyApps :: "Profile list"

definition firstHelper :: "(helperProfile \<Rightarrow> bool) \<Rightarrow> helperProfile list \<Rightarrow> (string \<times> int) option" where
  "firstHelper P ps = map_option (\<lambda>p. (hpImage p, 1000)) (List.find P ps)"

definition firstApp :: "(Profile \<Rightarrow> bool) \<Rightarrow> Profile list \<Rightarrow> (string \<times> int) option" where
  "firstApp P ps = map_option (\<lambda>p. (pImage p, pRunAsUser p)) (List.find P ps)"

definition orElse :: "'a option \<Rightarrow> 'a option \<Rightarrow> 'a option" where
  "orElse x y = (case x of None \<Rightarrow> y | Some _ \<Rightarrow> x)"

definition selectCleanerTarget :: "iterationOrder \<Rightarrow> string \<Rightarrow> string \<Rightarrow> (string \<times> int) option" where
  "selectCleanerTarget it ns pvc =
     orElse (firstHelper (\<lambda>p. hpNamespace p = ns \<and> pvc \<in> set (hpClaims p)) (claimHelpers it))
     (orElse (firstApp (\<lambda>p. pNamespace p = ns \<and> pvc \<in> set (pClaims p)) (claimApps it))
     (orElse (if hasPrefix (lowerCase pvc) ''comfyui'' then firstApp (\<lambda>p. pNamespace p = ns) (comfyApps it) else None)
     (orElse (if hasPrefix (lowerCase pvc) ''blender'' then firstHelper (\<lambda>p. hpNamespace p = ns) (blenderHelpers it) else None)
     (orElse (firstHelper (\<lambda>p. hpNamespace p = ns) (anyHelpers it))
     (firstApp (\<lambda>p. pNamespace p = ns) (anyApps it))))))"

text \<open>All loops visit the values of the same two maps.\<close>

definition visits :: "iterationOrder \<Rightarrow> helperProfile set \<Rightarrow> Profile set \<Rightarrow> bool" where
  "visits it hs ps \<longleftrightarrow> set (claimHelpers it) = hs \<and> set (blenderHelpers it) = hs \<and> set (anyHelpers it) = hs \<and>
     set (claimApps it) = ps \<and> set (comfyApps it) = ps \<and> set (anyApps it) = ps"

lemma find_Some_in: "List.find P xs = Some x \<Longrightarrow> x \<in> set xs \<and> P x"
  by (induction xs) (auto split: if_splits)

lemma firstHelper_Some: "firstHelper P hs = Some t \<Longrightarrow> \<exists>p \<in> set hs. P p \<and> t = (hpImage p, 1000)"
  by (auto simp: firstHelper_def dest: find_Some_in)

lemma firstApp_Some: "firstApp P ps = Some t \<Longrightarrow> \<exists>p \<in> set ps. P p \<and> t = (pImage p, pRunAsUser p)"
  by (auto simp: firstApp_def dest: find_Some_in)

lemma first_None:
  "firstHelper P hs = None \<longleftrightarrow> (\<forall>p \<in> set hs. \<not> P p)" "firstApp Q ps = None \<longleftrightarrow> (\<forall>p \<in> set ps. \<not> Q p)"
  by (auto simp: firstHelper_def firstApp_def find_None_iff)

lemma orElse_iff:
  "orElse x y = None \<longleftrightarrow> x = None \<and> y = None" "orElse x y = Some t \<Longrightarrow> x = Some t \<or> x = None \<and> y = Some t"
  by (auto simp: orElse_def split: option.splits)

definition claimedBy :: "helperProfile set \<Rightarrow> Profile set \<Rightarrow> string \<Rightarrow> string \<Rightarrow> bool" where
  "claimedBy hs ps ns pvc \<longleftrightarrow> (\<exists>p \<in> hs. hpNamespace p = ns \<and> pvc \<in> set (hpClaims p)) \<or> (\<exists>p \<in> ps. pNamespace p = ns \<and> pvc \<in> set (pClaims p))"

text \<open>Whatever the iteration orders: a cleaner is found exactly when some profile lives in the
  namespace, it runs the image and user of a profile of that namespace, and when a profile
  there claims the volume it is one that claims it.\<close>

theorem cleaner_of_namespace:
  assumes "visits it hs ps"
  shows "(case selectCleanerTarget it ns pvc of
      None \<Rightarrow> (\<forall>p \<in> hs. hpNamespace p \<noteq> ns) \<and> (\<forall>p \<in> ps. pNamespace p \<noteq> ns)
    | Some t \<Rightarrow>
        (\<exists>p \<in> hs. hpNamespace p = ns \<and> t = (hpImage p, 1000) \<and> (claimedBy hs ps ns pvc \<longrightarrow> pvc \<in> set (hpClaims p))) \<or>
        (\<exists>p \<in> ps. pNamespace p = ns \<and> t = (pImage p, pRunAsUser p) \<and> (claimedBy hs ps ns pvc \<longrightarrow> pvc \<in> set (pClaims p))))"
proof (cases "selectCleanerTarget it ns pvc")
  case None
  then have "(\<forall>p \<in> hs. hpNamespace p \<noteq> ns) \<and> (\<forall>p \<in> ps. pNamespace p \<noteq> ns)"
    using assms by (simp add: selectCleanerTarget_def orElse_iff(1) first_None visits_def)
  with None show ?thesis by simp
next
  case (Some t)
  note first = firstHelper_Some firstApp_Some
  from Some [unfolded selectCleanerTarget_def, THEN orElse_iff(2)] show ?thesis
  proof (elim disjE conjE)
    assume "firstHelper (\<lambda>p. hpNamespace p = ns \<and> pvc \<in> set (hpClaims p)) (claimHelpers it) = Some t"
    from first(1) [OF this] Some assms show ?thesis by (auto simp: visits_def)
  next
    assume none: "firstHelper (\<lambda>p. hpNamespace p = ns \<and> pvc \<in> set (hpClaims p)) (claimHelpers it) = None"
      and rest: "orElse (firstApp (\<lambda>p. pNamespace p = ns \<and> pvc \<in> set (pClaims p)) (claimApps it))
        (orElse (if hasPrefix (lowerCase pvc) ''comfyui'' then firstApp (\<lambda>p. pNamespace p = ns) (comfyApps it) else None)
        (orElse (if hasPrefix (lowerCase pvc) ''blender'' then firstHelper (\<lambda>p. hpNamespace p = ns) (blenderHelpers it) else None)
        (orElse (firstHelper (\<lambda>p. hpNamespace p = ns) (anyHelpers it))
        (firstApp (\<lambda>p. pNamespace p = ns) (anyApps it))))) = Some t"
    from orElse_iff(2) [OF rest] show ?thesis
    proof (elim disjE conjE)
      assume "firstApp (\<lambda>p. pNamespace p = ns \<and> pvc \<in> set (pClaims p)) (claimApps it) = Some t"
      from first(2) [OF this] Some assms show ?thesis by (auto simp: visits_def)
    next
      assume "firstApp (\<lambda>p. pNamespace p = ns \<and> pvc \<in> set (pClaims p)) (claimApps it) = None"
      with none assms have "\<not> claimedBy hs ps ns pvc" by (auto simp: first_None visits_def claimedBy_def)
      moreover assume "orElse (if hasPrefix (lowerCase pvc) ''comfyui'' then firstApp (\<lambda>p. pNamespace p = ns) (comfyApps it) else None)
        (orElse (if hasPrefix (lowerCase pvc) ''blender'' then firstHelper (\<lambda>p. hpNamespace p = ns) (blenderHelpers it) else None)
        (orElse (firstHelper (\<lambda>p. hpNamespace p = ns) (anyHelpers it))
        (firstApp (\<lambda>p. pNamespace p = ns) (anyApps it)))) = Some t"
      then have "(\<exists>p \<in> hs. hpNamespace p = ns \<and> t = (hpImage p, 1000)) \<or> (\<exists>p \<in> ps. pNamespace p = ns \<and> t = (pImage p, pRunAsUser p))"
        using assms by (auto simp: visits_def split: if_splits dest!: orElse_iff(2) first)
      ultimately show ?thesis using Some by simp
    qed
  qed
qed

section \<open>Observed namespaces\<close>

text \<open>\<^verbatim>\<open>strings.TrimSpace\<close>: the encodings of the characters it removes at both ends.\<close>

definition spaces :: "string list" where
  "spaces = map (\<lambda>n. [char_of (n::nat)]) [9, 10, 11, 12, 13, 32] @ map (map (\<lambda>n. char_of (n::nat)))
     ([[0xC2, 0x85], [0xC2, 0xA0], [0xE1, 0x9A, 0x80], [0xE2, 0x80, 0xA8], [0xE2, 0x80, 0xA9], [0xE2, 0x80, 0xAF],
       [0xE2, 0x81, 0x9F], [0xE3, 0x80, 0x80]] @ map (\<lambda>n. [0xE2, 0x80, n]) [0x80..<0x8B])"

lemma spaces_nonempty: "w \<in> set spaces \<Longrightarrow> w \<noteq> []"
  by (auto simp: spaces_def)

function trimFront :: "string list \<Rightarrow> string \<Rightarrow> string" where
  "trimFront ws s =
     (case List.find (\<lambda>w. w \<noteq> [] \<and> hasPrefix s w) ws of None \<Rightarrow> s | Some w \<Rightarrow> trimFront ws (drop (length w) s))"
  by pat_completeness auto

termination
proof (relation "measure (\<lambda>(ws, s). length s)", goal_cases)
  case (2 ws s w)
  then have "w \<noteq> []" and "hasPrefix s w" by (auto dest: find_Some_in)
  moreover from this have "s \<noteq> []" by (auto simp: hasPrefix_def)
  ultimately show ?case by simp
qed simp

declare trimFront.simps [simp del]

definition trimSpace :: "string \<Rightarrow> string" where
  "trimSpace s = rev (trimFront (map rev spaces) (rev (trimFront spaces s)))"

text \<open>The closure \<^verbatim>\<open>add\<close> over the names, with what it has seen.\<close>

fun addNames :: "string list \<Rightarrow> string list \<Rightarrow> string list" where
  "addNames out [] = out"
| "addNames out (ns # nss) =
     (let n = trimSpace ns in addNames (if n = [] \<or> n \<in> set out then out else out @ [n]) nss)"

definition mergeStateNamespaces :: "string list \<Rightarrow> string \<Rightarrow> string list" where
  "mergeStateNamespaces configured rawEnv = sort (addNames (addNames [] configured) (splitOn CHR '','' rawEnv))"

lemma addNames_spec:
  "distinct out \<Longrightarrow> [] \<notin> set out \<Longrightarrow>
     distinct (addNames out nss) \<and> set (addNames out nss) = set out \<union> (trimSpace ` set nss - {[]})"
  by (induction nss arbitrary: out) (auto simp: Let_def)

text \<open>The merged list is sorted, without duplicates and without empty names, and holds exactly the
  trimmed names of both sources.\<close>

theorem mergeStateNamespaces_spec:
  "sorted (mergeStateNamespaces configured rawEnv) \<and> distinct (mergeStateNamespaces configured rawEnv) \<and>
   set (mergeStateNamespaces configured rawEnv) =
     trimSpace ` (set configured \<union> set (splitOn CHR '','' rawEnv)) - {[]}"
proof -
  have one: "distinct (addNames [] configured) \<and> set (addNames [] configured) = trimSpace ` set configured - {[]}"
    using addNames_spec [of "[]" configured] by simp
  with addNames_spec [of "addNames [] configured" "splitOn CHR '','' rawEnv"] show ?thesis
    by (auto simp: mergeStateNamespaces_def)
qed

section \<open>Concrete checks\<close>

theorem control_credentials_refused_witness:
  "ServeHTTP sampleLib sampleServer id (sampleHandler sampleHttp)
     (sampleRequest\<lparr>rqHeader := [(''Authorization'', [''Bearer control''])]\<rparr>) = Ret (Failure 401 ''UNAUTHENTICATED'') \<or>
   ServeHTTP sampleLib sampleServer id (sampleHandler sampleHttp)
     (sampleRequest\<lparr>rqHeader := [(''Authorization'', [''Bearer control''])]\<rparr>) = Ret (Failure 404 ''NOT_FOUND'')"
proof -
  have "length ''control'' \<noteq> length sampleToken" by (simp add: sampleToken_def)
  then have "''control'' \<noteq> sampleToken" by metis
  then have "transitionCredentialsDistinct id ''control'' ''instance'' None (Callers (sampleHandler sampleHttp))"
    by (simp add: transitionCredentialsDistinct_def controlCredentials_def appHandler_def sampleCallers_def)
  from control_credentials_refused [OF this, of "''control''" "sampleRequest\<lparr>rqHeader := [(''Authorization'', [''Bearer control''])]\<rparr>"]
  show ?thesis by (simp add: controlCredentials_def headerGet_def headerValues_def)
qed

definition sampleHelper :: helperProfile where
  "sampleHelper = \<lparr>hpNamespace = ''apps'', hpClaims = [''blender-1''], hpImage = ''blender:4.0.0''\<rparr>"

definition sampleOrder :: iterationOrder where
  "sampleOrder = \<lparr>claimHelpers = [sampleHelper], claimApps = [], comfyApps = [], blenderHelpers = [sampleHelper],
     anyHelpers = [sampleHelper], anyApps = []\<rparr>"

lemma sampleOrder_visits: "visits sampleOrder {sampleHelper} {}"
  by (simp add: visits_def sampleOrder_def)

lemma sample_target: "selectCleanerTarget sampleOrder ''apps'' ''other'' = Some (''blender:4.0.0'', 1000)"
  by (simp add: selectCleanerTarget_def sampleOrder_def sampleHelper_def orElse_def firstHelper_def firstApp_def lowerCase_def
      hasPrefix_def lowerChar_def isUpper_def inRange_def)

theorem cleaner_of_namespace_witness:
  "\<exists>p \<in> {sampleHelper}. hpNamespace p = ''apps'' \<and> (''blender:4.0.0'', 1000) = (hpImage p, 1000 :: int)"
  using cleaner_of_namespace [OF sampleOrder_visits, of "''apps''" "''other''"] unfolding sample_target option.case by blast

end
