(* ===== verification/StateWire.thy ===== *)
theory StateWire
  imports StrictJson
begin

text \<open>
  The wire of the App state collector: the types of \<^verbatim>\<open>internal/appstate/wire.generated.go\<close>,
  the text \<^verbatim>\<open>encoding/json\<close> writes for them (as much of the encoder as these types use), and
  \<^verbatim>\<open>observation\<close> and \<^verbatim>\<open>observationMetadata\<close> of \<^verbatim>\<open>internal/appstate/observer.go\<close>, which
  turn a Deployment into what crosses the stream. The lemmas bound the size of what is sent
  and say on which parts of a Deployment it depends.
\<close>

section \<open>The JSON encoder\<close>

text \<open>The number of bytes of the valid UTF-8 sequence a string starts with, 0 when there is none.\<close>

fun runeSize :: "string \<Rightarrow> nat" where
  "runeSize [] = 0"
| "runeSize (c # s) =
     (if byteIn 0 127 c then 1
      else if byteIn 194 223 c then
        (case s of a # _ \<Rightarrow> if byteIn 128 191 a then 2 else 0 | _ \<Rightarrow> 0)
      else if byteIn 224 239 c then
        (case s of a # b # _ \<Rightarrow>
             if byteIn (if byteIn 224 224 c then 160 else 128) (if byteIn 237 237 c then 159 else 191) a \<and>
                byteIn 128 191 b then 3 else 0
         | _ \<Rightarrow> 0)
      else if byteIn 240 244 c then
        (case s of a # b # d # _ \<Rightarrow>
             if byteIn (if byteIn 240 240 c then 144 else 128) (if byteIn 244 244 c then 143 else 191) a \<and>
                byteIn 128 191 b \<and> byteIn 128 191 d then 4 else 0
         | _ \<Rightarrow> 0)
      else 0)"

definition hexChar :: "nat \<Rightarrow> char" where
  "hexChar n = ''0123456789abcdef'' ! (n mod 16)"

definition backslash :: char where
  "backslash = CHR 0x5C"

text \<open>An ASCII character as the encoder writes it, with HTML escaping on.\<close>

definition escapeAscii :: "char \<Rightarrow> string" where
  "escapeAscii c =
     (if c = CHR 0x22 \<or> c = backslash then [backslash, c]
      else if c = CHR 0x08 then [backslash, CHR ''b'']
      else if c = CHR 0x0C then [backslash, CHR ''f'']
      else if c = CHR 0x0A then [backslash, CHR ''n'']
      else if c = CHR 0x0D then [backslash, CHR ''r'']
      else if c = CHR 0x09 then [backslash, CHR ''t'']
      else if byteIn 0 31 c \<or> c \<in> set ''<>&'' then
        backslash # ''u00'' @ [hexChar (of_char c div 16), hexChar (of_char c)]
      else [c])"

text \<open>Invalid UTF-8 becomes the replacement character, the two line separators of JavaScript are
  escaped, any other character outside ASCII is copied.\<close>

function quoteBody :: "string \<Rightarrow> string" where
  "quoteBody [] = []"
| "quoteBody (c # s) =
     (if byteIn 0 127 c then escapeAscii c @ quoteBody s
      else (let n = runeSize (c # s) in
        if n = 0 then backslash # ''ufffd'' @ quoteBody s
        else if take 3 (c # s) = [CHR 0xE2, CHR 0x80, CHR 0xA8] then backslash # ''u2028'' @ quoteBody (drop (n - 1) s)
        else if take 3 (c # s) = [CHR 0xE2, CHR 0x80, CHR 0xA9] then backslash # ''u2029'' @ quoteBody (drop (n - 1) s)
        else take n (c # s) @ quoteBody (drop (n - 1) s)))"
  by pat_completeness auto

termination by (relation "measure length") auto

definition quote :: "string \<Rightarrow> string" where
  "quote s = CHR 0x22 # quoteBody s @ [CHR 0x22]"

fun renderJson :: "json \<Rightarrow> string"
  and renderFields :: "(string \<times> json) list \<Rightarrow> string list"
  and renderItems :: "json list \<Rightarrow> string list" where
  "renderJson (JObject x) = ''{'' @ joinWith '','' (renderFields x) @ ''}''"
| "renderJson (JArray x) = ''['' @ joinWith '','' (renderItems x) @ '']''"
| "renderJson (JStr s) = quote s"
| "renderJson (JBoolean b) = (if b then ''true'' else ''false'')"
| "renderJson (JNum n) = n"
| "renderJson JNull = ''null''"
| "renderFields [] = []"
| "renderFields ((k, v) # x) = (quote k @ '':'' @ renderJson v) # renderFields x"
| "renderItems [] = []"
| "renderItems (v # x) = renderJson v # renderItems x"

definition JInt :: "int \<Rightarrow> json" where
  "JInt i = JNum (showInt i)"

section \<open>The messages\<close>

record ResourceImage =
  Component :: string
  imgImage :: string

record ResourceDiscovery =
  Enabled :: bool
  discAppID :: string
  GroupID :: string
  Brand :: string
  discVersion :: string
  DisplayName :: string
  Models :: string
  Source :: string

record ResourceMetadata =
  OwnershipMarked :: bool
  TemplateHash :: string
  ImagesComplete :: bool
  Images :: "ResourceImage list"
  Discovery :: ResourceDiscovery

record ResourceObservation =
  Namespace :: string
  Name :: string
  UID :: string
  ResourceVersion :: string
  StationID :: string
  OrganizationID :: string
  InstallationID :: string
  AppID :: string
  Generation :: int
  ObservedGeneration :: int
  Desired :: int
  Replicas :: int
  Ready :: int
  Updated :: int
  Available :: int
  ProgressFailed :: bool
  ReplicaFailed :: bool
  Terminating :: bool
  Deleted :: bool
  Health :: string
  InstanceID :: string
  Metadata :: "ResourceMetadata option"

text \<open>The frames a collector sends; the schema version and the kind are constants of each.\<close>

datatype frame =
    SnapshotBegin string
  | SnapshotObjects string "ResourceObservation list"
  | SnapshotEnd string int
  | Upsert ResourceObservation
  | Delete string string string
  | Heartbeat
  | HealthFrame string string string string string

record Hello =
  CoreBootID :: string
  SessionID :: string
  HeartbeatSeconds :: int
  ObservationTTLSeconds :: int

definition imageJson :: "ResourceImage \<Rightarrow> json" where
  "imageJson i = JObject [(''component'', JStr (Component i)), (''image'', JStr (imgImage i))]"

definition discoveryJson :: "ResourceDiscovery \<Rightarrow> json" where
  "discoveryJson d = JObject [(''enabled'', JBoolean (Enabled d)), (''appId'', JStr (discAppID d)), (''groupId'', JStr (GroupID d)),
     (''brand'', JStr (Brand d)), (''version'', JStr (discVersion d)), (''displayName'', JStr (DisplayName d)),
     (''models'', JStr (Models d)), (''source'', JStr (Source d))]"

definition metadataJson :: "ResourceMetadata \<Rightarrow> json" where
  "metadataJson m = JObject [(''ownershipMarked'', JBoolean (OwnershipMarked m)), (''templateHash'', JStr (TemplateHash m)),
     (''imagesComplete'', JBoolean (ImagesComplete m)), (''images'', JArray (map imageJson (Images m))),
     (''discovery'', discoveryJson (Discovery m))]"

definition observationJson :: "ResourceObservation \<Rightarrow> json" where
  "observationJson r = JObject ([(''namespace'', JStr (Namespace r)), (''name'', JStr (Name r)), (''uid'', JStr (UID r)),
     (''resourceVersion'', JStr (ResourceVersion r)), (''stationId'', JStr (StationID r)),
     (''organizationId'', JStr (OrganizationID r)), (''installationId'', JStr (InstallationID r)), (''appId'', JStr (AppID r)),
     (''generation'', JInt (Generation r)), (''observedGeneration'', JInt (ObservedGeneration r)),
     (''desired'', JInt (Desired r)), (''replicas'', JInt (Replicas r)), (''ready'', JInt (Ready r)),
     (''updated'', JInt (Updated r)), (''available'', JInt (Available r)), (''progressFailed'', JBoolean (ProgressFailed r)),
     (''replicaFailed'', JBoolean (ReplicaFailed r)), (''terminating'', JBoolean (Terminating r)),
     (''deleted'', JBoolean (Deleted r)), (''health'', JStr (Health r)), (''instanceId'', JStr (InstanceID r))] @
     (case Metadata r of None \<Rightarrow> [] | Some m \<Rightarrow> [(''metadata'', metadataJson m)]))"

definition header :: "string \<Rightarrow> (string \<times> json) list" where
  "header kind = [(''schemaVersion'', JInt 1), (''kind'', JStr kind)]"

fun frameJson :: "frame \<Rightarrow> json" where
  "frameJson (SnapshotBegin s) = JObject (header ''snapshot-begin'' @ [(''syncId'', JStr s)])"
| "frameJson (SnapshotObjects s os) =
     JObject (header ''snapshot-objects'' @ [(''syncId'', JStr s), (''objects'', JArray (map observationJson os))])"
| "frameJson (SnapshotEnd s n) = JObject (header ''snapshot-end'' @ [(''syncId'', JStr s), (''totalCount'', JInt n)])"
| "frameJson (Upsert r) = JObject (header ''upsert'' @ [(''object'', observationJson r)])"
| "frameJson (Delete ns n u) =
     JObject (header ''delete'' @ [(''namespace'', JStr ns), (''name'', JStr n), (''uid'', JStr u)])"
| "frameJson Heartbeat = JObject (header ''heartbeat'')"
| "frameJson (HealthFrame ns n u v s) =
     JObject (header ''health'' @ [(''namespace'', JStr ns), (''name'', JStr n), (''uid'', JStr u),
       (''resourceVersion'', JStr v), (''health'', JStr s)])"

text \<open>\<^verbatim>\<open>json.Marshal\<close> of an observation and of a frame; it does not fail on these types.\<close>

definition marshalObservation :: "ResourceObservation \<Rightarrow> string" where
  "marshalObservation r = renderJson (observationJson r)"

definition marshalFrame :: "frame \<Rightarrow> string" where
  "marshalFrame f = renderJson (frameJson f)"

section \<open>Observing a Deployment\<close>

record deployCondition =
  cType :: string
  cStatus :: string
  cReason :: string

text \<open>The parts of a Deployment the observer reads; containers as pairs of name and image.\<close>

record Deployment =
  dNamespace :: string
  dName :: string
  dUID :: string
  dResourceVersion :: string
  dAnnotations :: "(string \<times> string) list"
  dLabels :: "(string \<times> string) list"
  dGeneration :: int
  dDeletionTimestamp :: "int option"
  dSpecReplicas :: "int option"
  dContainers :: "(string \<times> string) list"
  dObservedGeneration :: int
  dReplicas :: int
  dReadyReplicas :: int
  dUpdatedReplicas :: int
  dAvailableReplicas :: int
  dConditions :: "deployCondition list"

abbreviation valueOf :: "(string \<times> string) list \<Rightarrow> string \<Rightarrow> string" where
  "valueOf m k \<equiv> lookupStr (map_of m) k"

definition bounded :: "string \<Rightarrow> nat \<Rightarrow> string" where
  "bounded v limit = (if length v > limit then ''!invalid'' else v)"

definition stationPrefix :: string where
  "stationPrefix = ''station.verdantflare.com/''"

definition identityValue :: "Deployment \<Rightarrow> string \<Rightarrow> string" where
  "identityValue d key = (let v = valueOf (dAnnotations d) (stationPrefix @ key) in if length v > 128 then ''!invalid'' else v)"

text \<open>The loop over the containers: \<open>None\<close> is the early return of an unusable container.\<close>

fun imageLoop :: "ResourceImage list \<Rightarrow> (string \<times> string) list \<Rightarrow> ResourceImage list option" where
  "imageLoop acc [] = Some acc"
| "imageLoop acc ((n, i) # cs) =
     (if n = [] \<or> length n > 63 \<or> i = [] \<or> length i > 2048 then None
      else imageLoop (acc @ [\<lparr>Component = n, imgImage = i\<rparr>]) cs)"

definition observationMetadata :: "Deployment \<Rightarrow> ResourceMetadata" where
  "observationMetadata d =
     (let a = valueOf (dAnnotations d); l = valueOf (dLabels d);
          m = \<lparr>OwnershipMarked = list_ex (\<lambda>(k, _). hasPrefix k stationPrefix) (dAnnotations d),
               TemplateHash = bounded (a ''station.verdantflare.com/template-hash'') 128, ImagesComplete = True, Images = [],
               Discovery = \<lparr>Enabled = (l ''apps.verdantflare.com/managed'' = ''true''),
                 discAppID = bounded (l ''app.kubernetes.io/name'') 128, GroupID = bounded (l ''apps.verdantflare.com/group'') 128,
                 Brand = bounded (l ''apps.verdantflare.com/brand'') 128, discVersion = bounded (l ''app.kubernetes.io/version'') 128,
                 DisplayName = bounded (a ''apps.verdantflare.com/display-name'') 512,
                 Models = bounded (a ''apps.verdantflare.com/models'') 4096,
                 Source = bounded (a ''apps.verdantflare.com/source'') 1024\<rparr>\<rparr> in
      if length (dContainers d) = 0 \<or> length (dContainers d) > 64 then m\<lparr>ImagesComplete := False\<rparr>
      else (case imageLoop [] (dContainers d) of
          None \<Rightarrow> m\<lparr>Images := [], ImagesComplete := False\<rparr>
        | Some images \<Rightarrow> m\<lparr>Images := images\<rparr>))"

text \<open>The loop over the conditions, with the two flags it may set.\<close>

definition applyCondition :: "ResourceObservation \<Rightarrow> deployCondition \<Rightarrow> ResourceObservation" where
  "applyCondition r c =
     (let r1 = (if cType c = ''Progressing'' \<and> cStatus c = ''False'' \<and> cReason c = ''ProgressDeadlineExceeded''
                then r\<lparr>ProgressFailed := True\<rparr> else r) in
      if cType c = ''ReplicaFailure'' \<and> cStatus c = ''True'' then r1\<lparr>ReplicaFailed := True\<rparr> else r1)"

definition observation :: "Deployment \<Rightarrow> bool \<Rightarrow> ResourceObservation" where
  "observation d deleted =
     (let r = \<lparr>Namespace = dNamespace d, Name = dName d, UID = dUID d, ResourceVersion = dResourceVersion d,
        StationID = identityValue d ''station-id'', OrganizationID = identityValue d ''organization-id'',
        InstallationID = identityValue d ''installation-id'', AppID = identityValue d ''app-id'',
        Generation = dGeneration d, ObservedGeneration = dObservedGeneration d, Desired = 1, Replicas = dReplicas d,
        Ready = dReadyReplicas d, Updated = dUpdatedReplicas d, Available = dAvailableReplicas d,
        ProgressFailed = False, ReplicaFailed = False, Terminating = dDeletionTimestamp d \<noteq> None, Deleted = deleted,
        Health = ''not_checked'', InstanceID = identityValue d ''instance-id'', Metadata = Some (observationMetadata d)\<rparr>;
          r1 = (case dSpecReplicas d of None \<Rightarrow> r | Some n \<Rightarrow> r\<lparr>Desired := n\<rparr>) in
      foldl applyCondition r1 (dConditions d))"

section \<open>What an observation says\<close>

definition progressFailure :: "deployCondition \<Rightarrow> bool" where
  "progressFailure c \<longleftrightarrow> cType c = ''Progressing'' \<and> cStatus c = ''False'' \<and> cReason c = ''ProgressDeadlineExceeded''"

definition replicaFailure :: "deployCondition \<Rightarrow> bool" where
  "replicaFailure c \<longleftrightarrow> cType c = ''ReplicaFailure'' \<and> cStatus c = ''True''"

lemma applyConditions:
  "foldl applyCondition r cs =
     r\<lparr>ProgressFailed := ProgressFailed r \<or> list_ex progressFailure cs,
       ReplicaFailed := ReplicaFailed r \<or> list_ex replicaFailure cs\<rparr>"
  by (induction cs arbitrary: r) (auto simp: applyCondition_def progressFailure_def replicaFailure_def)

definition usableContainer :: "string \<times> string \<Rightarrow> bool" where
  "usableContainer c \<longleftrightarrow> fst c \<noteq> [] \<and> length (fst c) \<le> 63 \<and> snd c \<noteq> [] \<and> length (snd c) \<le> 2048"

lemma imageLoop_eq:
  "imageLoop acc cs =
     (if list_all usableContainer cs then Some (acc @ map (\<lambda>(n, i). \<lparr>Component = n, imgImage = i\<rparr>) cs) else None)"
  by (induction acc cs rule: imageLoop.induct) (auto simp: usableContainer_def)

lemma length_bounded: "8 \<le> n \<Longrightarrow> length (bounded v n) \<le> n"
  by (simp add: bounded_def)

lemma identityValue_bounded: "identityValue d key = bounded (valueOf (dAnnotations d) (stationPrefix @ key)) 128"
  by (simp add: identityValue_def bounded_def)

lemma metadata_images:
  "ImagesComplete (observationMetadata d) \<longleftrightarrow>
     dContainers d \<noteq> [] \<and> length (dContainers d) \<le> 64 \<and> list_all usableContainer (dContainers d)"
  "Images (observationMetadata d) =
     (if ImagesComplete (observationMetadata d)
      then map (\<lambda>(n, i). \<lparr>Component = n, imgImage = i\<rparr>) (dContainers d) else [])"
  by (simp_all add: observationMetadata_def imageLoop_eq Let_def)

lemma observation_fields [simp]:
  "Namespace (observation d x) = dNamespace d" "Name (observation d x) = dName d"
  "UID (observation d x) = dUID d" "ResourceVersion (observation d x) = dResourceVersion d"
  "Deleted (observation d x) = x" "InstanceID (observation d x) = identityValue d ''instance-id''"
  "StationID (observation d x) = identityValue d ''station-id''"
  "OrganizationID (observation d x) = identityValue d ''organization-id''"
  "InstallationID (observation d x) = identityValue d ''installation-id''"
  "AppID (observation d x) = identityValue d ''app-id''" "Health (observation d x) = ''not_checked''"
  "Metadata (observation d x) = Some (observationMetadata d)"
  "Terminating (observation d x) \<longleftrightarrow> dDeletionTimestamp d \<noteq> None"
  "Desired (observation d x) = (case dSpecReplicas d of None \<Rightarrow> 1 | Some n \<Rightarrow> n)"
  "Generation (observation d x) = dGeneration d" "ObservedGeneration (observation d x) = dObservedGeneration d"
  "Replicas (observation d x) = dReplicas d" "Ready (observation d x) = dReadyReplicas d"
  "Updated (observation d x) = dUpdatedReplicas d" "Available (observation d x) = dAvailableReplicas d"
  "ProgressFailed (observation d x) = list_ex progressFailure (dConditions d)"
  "ReplicaFailed (observation d x) = list_ex replicaFailure (dConditions d)"
  by (simp_all add: observation_def Let_def applyConditions split: option.split)


section \<open>The allowlist\<close>

definition annotationAllowlist :: "string list" where
  "annotationAllowlist = map (\<lambda>k. stationPrefix @ k)
       [''station-id'', ''organization-id'', ''installation-id'', ''instance-id'', ''app-id'', ''template-hash''] @
     map (\<lambda>k. ''apps.verdantflare.com/'' @ k) [''display-name'', ''models'', ''source'']"

definition labelAllowlist :: "string list" where
  "labelAllowlist = [''apps.verdantflare.com/managed'', ''app.kubernetes.io/name'', ''apps.verdantflare.com/group'',
     ''apps.verdantflare.com/brand'', ''app.kubernetes.io/version'']"

text \<open>C28: Two Deployments that agree outside their maps have the same observation when the maps agree
  on nine annotation and five label keys and on whether any ownership annotation exists: no
  other annotation or label influences what crosses the stream.\<close>

theorem observation_allowlist:
  assumes "\<forall>k \<in> set annotationAllowlist. valueOf as k = valueOf (dAnnotations d) k"
    and "\<forall>k \<in> set labelAllowlist. valueOf ls k = valueOf (dLabels d) k"
    and "(\<exists>k v. (k, v) \<in> set as \<and> hasPrefix k stationPrefix) \<longleftrightarrow> (\<exists>k v. (k, v) \<in> set (dAnnotations d) \<and> hasPrefix k stationPrefix)"
  shows "observation (d\<lparr>dAnnotations := as, dLabels := ls\<rparr>) deleted = observation d deleted"
proof -
  have mark: "list_ex (\<lambda>(k, _). hasPrefix k stationPrefix) as = list_ex (\<lambda>(k, _). hasPrefix k stationPrefix) (dAnnotations d)"
    using assms(3) by (fastforce simp: list_ex_iff)
  have "observationMetadata (d\<lparr>dAnnotations := as, dLabels := ls\<rparr>) = observationMetadata d"
    using assms(1,2) by (simp add: observationMetadata_def Let_def mark [unfolded stationPrefix_def] annotationAllowlist_def
      labelAllowlist_def stationPrefix_def split: option.split)
  moreover have "identityValue (d\<lparr>dAnnotations := as, dLabels := ls\<rparr>) key = identityValue d key"
    if "key \<in> set [''station-id'', ''organization-id'', ''installation-id'', ''instance-id'', ''app-id'']" for key
    using assms(1) that by (auto simp: identityValue_def annotationAllowlist_def)
  ultimately show ?thesis by (simp add: observation_def)
qed

section \<open>Sizes\<close>

lemma length_escapeAscii: "length (escapeAscii c) \<le> 6"
  by (simp add: escapeAscii_def)

lemma length_quoteBody: "length (quoteBody s) \<le> 6 * length s"
proof (induction s rule: quoteBody.induct)
  case (2 c s)
  show ?case
  proof (cases "byteIn 0 127 c")
    case True
    with 2(1) length_escapeAscii [of c] show ?thesis by simp
  next
    case False
    define n where "n = runeSize (c # s)"
    note IH = 2(2-5) [OF False n_def]
    show ?thesis
    proof (cases "n = 0")
      case True
      with IH(1) False show ?thesis by (simp add: Let_def n_def [symmetric] del: runeSize.simps)
    next
      case nz: False
      then have "length (quoteBody (drop (n - 1) s)) \<le> 6 * (length s - (n - 1))"
        using IH(2-4) by (metis length_drop)
      moreover have "1 \<le> n" using nz by simp
      ultimately show ?thesis
        using False nz by (auto simp: Let_def n_def [symmetric] simp del: runeSize.simps)
    qed
  qed
qed simp

fun jsonWeight :: "json \<Rightarrow> nat"
  and weightFields :: "(string \<times> json) list \<Rightarrow> nat"
  and weightItems :: "json list \<Rightarrow> nat" where
  "jsonWeight (JObject x) = 2 + weightFields x"
| "jsonWeight (JArray x) = 2 + weightItems x"
| "jsonWeight (JStr s) = 6 * length s + 2"
| "jsonWeight (JBoolean b) = 5"
| "jsonWeight (JNum n) = length n"
| "jsonWeight JNull = 4"
| "weightFields [] = 0"
| "weightFields ((k, v) # x) = 6 * length k + 4 + jsonWeight v + weightFields x"
| "weightItems [] = 0"
| "weightItems (v # x) = jsonWeight v + 1 + weightItems x"

lemma length_joinWith: "length (joinWith '','' xs) \<le> (\<Sum>x\<leftarrow>xs. length x + 1)"
  by (induction xs rule: induct_list012) auto

lemma renderJson_weight:
  "length (renderJson v) \<le> jsonWeight v"
  "(\<Sum>x\<leftarrow>renderFields fs. length x + 1) \<le> weightFields fs"
  "(\<Sum>x\<leftarrow>renderItems vs. length x + 1) \<le> weightItems vs"
proof (induction v and fs and vs rule: renderJson_renderFields_renderItems.induct)
  case (1 x)
  then show ?case using length_joinWith [of "renderFields x"] by simp
next
  case (2 x)
  then show ?case using length_joinWith [of "renderItems x"] by simp
next
  case (3 s)
  show ?case using length_quoteBody [of s] by (simp add: quote_def)
next
  case (8 k v x)
  then show ?case using length_quoteBody [of k] by (simp add: quote_def)
qed simp_all

lemma length_showNat: "n < 10 ^ k \<Longrightarrow> 0 < k \<Longrightarrow> length (showNat n) \<le> k"
proof (induction n arbitrary: k rule: showNat.induct)
  case (1 n)
  show ?case
  proof (cases "n < 10")
    case True
    with 1(3) show ?thesis by (simp add: showNat.simps [of n])
  next
    case False
    then obtain j where k: "k = Suc j" "0 < j"
      using 1(2,3) by (cases k; cases "k - 1") auto
    then have "n div 10 < 10 ^ j" using 1(2) by (simp add: less_mult_imp_div_less mult.commute)
    with 1(1) [OF False, of j] k have "length (showNat (n div 10)) \<le> j" by simp
    then show ?thesis using False k(1) showNat.simps [of n] by simp
  qed
qed

lemma weight_JInt: "is_i64 i \<Longrightarrow> jsonWeight (JInt i) \<le> 20"
proof -
  assume "is_i64 i"
  then have "nat i < 10 ^ 19" and "nat (- i) < 10 ^ 19" unfolding is_i64_def by auto
  from length_showNat [OF this(1)] length_showNat [OF this(2)]
  show ?thesis by (simp add: JInt_def showInt_def)
qed

definition wideDeployment :: "Deployment \<Rightarrow> bool" where
  "wideDeployment d \<longleftrightarrow> list_all (\<lambda>s. length s \<le> 1024) [dNamespace d, dName d, dUID d, dResourceVersion d] \<and>
     list_all is_i64 [dGeneration d, dObservedGeneration d, dReplicas d, dReadyReplicas d, dUpdatedReplicas d,
       dAvailableReplicas d, case dSpecReplicas d of None \<Rightarrow> 1 | Some n \<Rightarrow> n]"

lemma weight_images: "weightItems (map imageJson (Images (observationMetadata d))) \<le> 64 * 12800"
proof -
  let ?is = "Images (observationMetadata d)"
  have each: "length (Component i) \<le> 63" "length (imgImage i) \<le> 2048" if "i \<in> set ?is" for i
    using that by (auto simp: metadata_images list_all_iff usableContainer_def split: if_splits)
  have w: "weightItems (map imageJson xs) \<le> length xs * 12800"
    if "\<forall>i \<in> set xs. length (Component i) \<le> 63 \<and> length (imgImage i) \<le> 2048" for xs
    using that by (induction xs) (auto simp: imageJson_def)
  have "length ?is \<le> 64" by (auto simp: metadata_images)
  with w [of ?is] each show ?thesis by (meson le_trans mult_le_mono1)
qed

lemma weight_metadata: "jsonWeight (metadataJson (observationMetadata d)) \<le> 870000"
proof -
  let ?m = "observationMetadata d" and ?d = "Discovery (observationMetadata d)"
  have "length (TemplateHash ?m) \<le> 128 \<and> length (discAppID ?d) \<le> 128 \<and> length (GroupID ?d) \<le> 128 \<and> length (Brand ?d) \<le> 128 \<and>
    length (discVersion ?d) \<le> 128 \<and> length (DisplayName ?d) \<le> 512 \<and> length (Models ?d) \<le> 4096 \<and> length (Source ?d) \<le> 1024"
    by (simp add: observationMetadata_def Let_def length_bounded split: option.split)
  with weight_images [of d] show ?thesis by (simp add: metadataJson_def discoveryJson_def)
qed

lemma observation_size:
  assumes "wideDeployment d"
  shows "length (marshalObservation (observation d deleted)) < 2 ^ 20 - 512"
proof -
  have ids: "length (identityValue d key) \<le> 128" for key
    by (simp add: identityValue_bounded length_bounded)
  have "jsonWeight (observationJson (observation d deleted)) < 2 ^ 20 - 512"
    using assms weight_metadata [of d] ids [of "''station-id''"] ids [of "''organization-id''"] ids [of "''installation-id''"]
      ids [of "''app-id''"] ids [of "''instance-id''"]
      weight_JInt [of "dGeneration d"] weight_JInt [of "dObservedGeneration d"] weight_JInt [of "dReplicas d"]
      weight_JInt [of "dReadyReplicas d"] weight_JInt [of "dUpdatedReplicas d"] weight_JInt [of "dAvailableReplicas d"]
      weight_JInt [of "case dSpecReplicas d of None \<Rightarrow> 1 | Some n \<Rightarrow> n"]
    by (simp add: observationJson_def wideDeployment_def)
  then show ?thesis
    using renderJson_weight(1) [of "observationJson (observation d deleted)"] by (simp add: marshalObservation_def)
qed

text \<open>C27: No Deployment can stop the collection by its annotations, labels or images: whatever they
  are, as long as name, namespace, UID and version have at most 1024 bytes, the encoded
  observation fits one message.\<close>

theorem observation_fits:
  assumes "wideDeployment d"
  shows "length (marshalObservation (observation d deleted)) < 2 ^ 20 - 512"
  by (rule observation_size [OF assms])

end
