(* ===== verification/StateClient.thy ===== *)
theory StateClient
  imports StateWire Prog Url "HOL-Library.Char_ord" "HOL-Library.List_Lexorder"
begin

text \<open>
  The client side of the state stream: \<^verbatim>\<open>internal/appstate/client.go\<close> (the origin and token
  checks, the handshake, the reader of control frames, the sender) and
  \<^verbatim>\<open>internal/appstate/config.go\<close> with the health targets of \<^verbatim>\<open>health.go\<close>. Durations are in
  nanoseconds, as Go's \<^verbatim>\<open>time.Duration\<close>. The reader runs beside a consumer of its event
  channel; both are interleaved explicitly. Third-party and reflective functions are the
  fields of \<open>stateLib\<close>.
\<close>

section \<open>Errors and libraries\<close>

text \<open>\<open>ErrContext\<close> is the error of an ended context.\<close>

datatype stateErr = ErrUnavailable | ErrInvalid | ErrResync | Busy int | ErrContext

definition second :: int where
  "second = 10 ^ 9"

definition millisecond :: int where
  "millisecond = 10 ^ 6"

text \<open>\<open>uuidParse\<close> gives the canonical text of a UUID and whether it is nil.\<close>

record HealthTarget =
  htNamespace :: string
  WorkloadName :: string
  WorkloadUID :: string
  ServiceName :: string
  htPort :: int
  htPath :: string

record configInput =
  cfgSchemaVersion :: int
  cfgNamespaces :: "string list"
  CoreOrigin :: string
  cfgTokenEnv :: string
  cfgHealthTargets :: "HealthTarget list"

record stateLib =
  uuidParse :: "string \<Rightarrow> (string \<times> bool) option"
  IsDNS1123Label :: "string \<Rightarrow> bool"
  IsDNS1123Subdomain :: "string \<Rightarrow> bool"
  IsDNS1035Label :: "string \<Rightarrow> bool"
  parseMedia :: "string \<Rightarrow> string option"
  envelope :: "string \<Rightarrow> (int \<times> string) option"
  helloCodec :: "Hello codec"
  controlCodec :: "(int \<times> string) codec"
  closingCodec :: "(int \<times> string \<times> string) codec"
  busyCodec :: "string codec"
  configCodec :: "configInput codec"

definition validUUID :: "stateLib \<Rightarrow> string \<Rightarrow> bool" where
  "validUUID L v = (case uuidParse L v of None \<Rightarrow> False | Some (canonical, isNil) \<Rightarrow> \<not> isNil \<and> canonical = v)"

section \<open>The client\<close>

record Client =
  clOrigin :: string
  clToken :: string

definition trimSuffix :: "string \<Rightarrow> string \<Rightarrow> string" where
  "trimSuffix s suf = (if hasSuffix s suf then take (length s - length suf) s else s)"

definition NewClient :: "string \<Rightarrow> string \<Rightarrow> stateErr + Client" where
  "NewClient origin token =
     (case parseURL origin of
        None \<Rightarrow> Inl ErrInvalid
      | Some u \<Rightarrow>
          reject ((Scheme u \<noteq> ''http'' \<and> Scheme u \<noteq> ''https'') \<or> Hostname u = [] \<or> User u \<or> RawQuery u \<noteq> [] \<or>
            ForceQuery u \<or> Fragment u \<noteq> [] \<or> (Path u \<noteq> [] \<and> Path u \<noteq> ''/'') \<or> length token < 32 \<or> length token > 4096)
            ErrInvalid
          (reject (list_ex (\<lambda>ch. (of_char ch :: nat) < 33 \<or> (of_char ch :: nat) > 126) token) ErrInvalid
          (Inr \<lparr>clOrigin = trimSuffix origin ''/'', clToken = token\<rparr>)))"

section \<open>The handshake\<close>

record streamResponse =
  srStatus :: int
  srContentType :: string
  srRetryAfter :: string
  srBody :: string

definition streamPath :: string where
  "streamPath = ''/internal/app-states/v1/stream''"

text \<open>The answer to a response that opens no stream.\<close>

definition refusal :: "stateLib \<Rightarrow> streamResponse \<Rightarrow> stateErr" where
  "refusal L r =
     (if srStatus r = 401 \<or> srStatus r = 403 then ErrInvalid
      else if srStatus r = 409 then
        (case Decode (busyCodec L) (Some (srBody r)) 4096 of
           None \<Rightarrow> ErrInvalid
         | Some code \<Rightarrow>
             if code \<noteq> ''COLLECTOR_BUSY'' then ErrInvalid
             else (case Atoi (srRetryAfter r) of
                 None \<Rightarrow> ErrInvalid
               | Some seconds \<Rightarrow>
                   if seconds < 1 \<or> seconds > 30 then ErrInvalid else Busy (seconds * second)))
      else if srStatus r \<ge> 500 \<or> srStatus r = 429 then ErrUnavailable
      else ErrInvalid)"

section \<open>The reader\<close>

record StreamEvent =
  evKind :: string
  evErr :: "stateErr option"

text \<open>What the reader shares: the flag \<^verbatim>\<open>first\<close>, what it has sent on the channel \<^verbatim>\<open>hello\<close>, the
  content of the channel \<^verbatim>\<open>events\<close> of capacity one, the field \<^verbatim>\<open>terminal\<close>, and whether it
  has returned (and closed \<^verbatim>\<open>events\<close>).\<close>

record clientStream =
  csFirst :: bool
  csHello :: "stateErr option list"
  csEvents :: "StreamEvent option"
  csTerminal :: "stateErr option"
  csClosed :: bool

definition newStream :: clientStream where
  "newStream = \<lparr>csFirst = True, csHello = [], csEvents = None, csTerminal = None, csClosed = False\<rparr>"

text \<open>\<^verbatim>\<open>fail\<close> and the return behind it: a full event channel is drained first.\<close>

definition failStream :: "stateErr \<Rightarrow> clientStream \<Rightarrow> clientStream" where
  "failStream e s =
     (let s1 = s\<lparr>csTerminal := Some e\<rparr>;
          s2 = (if csFirst s1 then s1\<lparr>csHello := csHello s1 @ [Some e], csFirst := False\<rparr> else s1);
          s3 = (if csEvents s2 = None then s2 else s2\<lparr>csEvents := None\<rparr>) in
      s3\<lparr>csEvents := Some \<lparr>evKind = [], evErr = Some e\<rparr>, csClosed := True\<rparr>)"

definition closingError :: "string \<Rightarrow> stateErr" where
  "closingError reason =
     (if reason = ''RESYNC_REQUIRED'' \<or> reason = ''STREAM_TIMEOUT'' \<or> reason = ''SERVICE_UNAVAILABLE''
      then ErrUnavailable else ErrInvalid)"

definition helloValid :: "stateLib \<Rightarrow> Hello \<Rightarrow> bool" where
  "helloValid L h \<longleftrightarrow> \<not> (\<not> validUUID L (CoreBootID h) \<or> \<not> validUUID L (SessionID h) \<or> HeartbeatSeconds h \<noteq> 10 \<or>
     ObservationTTLSeconds h \<noteq> 30)"

text \<open>One iteration of the reader.\<close>

definition readLine :: "stateLib \<Rightarrow> string \<Rightarrow> clientStream \<Rightarrow> clientStream" where
  "readLine L raw s =
     (case envelope L raw of
        None \<Rightarrow> failStream ErrInvalid s
      | Some (schema, kind) \<Rightarrow>
          if schema \<noteq> 1 then failStream ErrInvalid s
          else if csFirst s then
            (case Decode (helloCodec L) (Some raw) 8192 of
               None \<Rightarrow> failStream ErrInvalid s
             | Some h \<Rightarrow>
                 if kind \<noteq> ''hello'' \<or> \<not> helloValid L h then failStream ErrInvalid s
                 else s\<lparr>csFirst := False, csHello := csHello s @ [None]\<rparr>)
          else if kind = ''ping'' then
            (if Decode (controlCodec L) (Some raw) 8192 = None then failStream ErrInvalid s else s)
          else if kind = ''resync'' then
            (if Decode (controlCodec L) (Some raw) 8192 = None then failStream ErrInvalid s
             else if csEvents s = None then s\<lparr>csEvents := Some \<lparr>evKind = ''resync'', evErr = None\<rparr>\<rparr>
             else s)
          else if kind = ''closing'' then
            (case Decode (closingCodec L) (Some raw) 8192 of
               None \<Rightarrow> failStream ErrInvalid s
             | Some (_, _, reason) \<Rightarrow> failStream (closingError reason) s)
          else failStream ErrInvalid s)"

text \<open>\<open>Line\<close> is a line the scanner yields, \<open>Ended\<close> the end of the scan (the body ended, a line was
  too long, or the context was cancelled by the deadline), \<open>Receive\<close> a receive by the
  consumer, which takes the content of the channel if there is any.\<close>

datatype streamAction = Line string | Ended | Receive

fun streamStep :: "stateLib \<Rightarrow> clientStream \<Rightarrow> streamAction \<Rightarrow> clientStream \<times> StreamEvent list" where
  "streamStep L s (Line raw) = (if csClosed s then s else readLine L raw s, [])"
| "streamStep L s Ended = (if csClosed s then s else failStream ErrUnavailable s, [])"
| "streamStep L s Receive = (s\<lparr>csEvents := None\<rparr>, case csEvents s of None \<Rightarrow> [] | Some e \<Rightarrow> [e])"

fun streamRun :: "stateLib \<Rightarrow> clientStream \<Rightarrow> streamAction list \<Rightarrow> clientStream \<times> StreamEvent list" where
  "streamRun L s [] = (s, [])"
| "streamRun L s (a # as) =
     (case streamStep L s a of (s1, es) \<Rightarrow> case streamRun L s1 as of (s2, fs) \<Rightarrow> (s2, es @ fs))"

text \<open>\<^verbatim>\<open>bufio.Scanner\<close> with a buffer of 8193 bytes: lines without their end and one carriage
  return, as long as each has at most 8192 bytes; a last line without an end counts.\<close>

definition dropCR :: "string \<Rightarrow> string" where
  "dropCR l = (if hasSuffix l [CHR 0x0D] then butlast l else l)"

definition scanLines :: "string \<Rightarrow> string list" where
  "scanLines body =
     (let ls = splitOn CHR 0x0A body; full = (if last ls = [] then butlast ls else ls) in
      map dropCR (takeWhile (\<lambda>l. length l \<le> 8192) full))"

section \<open>Sending\<close>

definition failureOf :: "clientStream \<Rightarrow> stateErr" where
  "failureOf s = (case csTerminal s of Some e \<Rightarrow> e | None \<Rightarrow> ErrUnavailable)"

text \<open>\<^verbatim>\<open>Send\<close>: \<open>done\<close> says that the context has ended, \<open>written\<close> that the pipe took the bytes; the
  result is what is written.\<close>

definition Send :: "clientStream \<Rightarrow> bool \<Rightarrow> bool \<Rightarrow> frame \<Rightarrow> stateErr + string" where
  "Send s isDone written f =
     (let raw = marshalFrame f in
      reject (length raw > 2 ^ 20) ErrInvalid
      (reject isDone (failureOf s)
      (reject (\<not> written) (failureOf s)
      (Inr (raw @ [CHR 0x0A])))))"

section \<open>Configuration\<close>

definition pathChar :: "char \<Rightarrow> bool" where
  "pathChar c \<longleftrightarrow> isAlpha c \<or> isDigit c \<or> c \<in> set ''/_-''"

definition targetOk :: "stateLib \<Rightarrow> string list \<Rightarrow> HealthTarget \<Rightarrow> bool" where
  "targetOk L namespaces t \<longleftrightarrow> \<not>
     (htNamespace t \<notin> set namespaces \<or> \<not> IsDNS1123Label L (htNamespace t) \<or> \<not> IsDNS1123Subdomain L (WorkloadName t) \<or>
      \<not> IsDNS1035Label L (ServiceName t) \<or> \<not> validUUID L (WorkloadUID t) \<or> htPort t < 1 \<or> htPort t > 65535 \<or>
      length (htPath t) > 256 \<or> \<not> (hasPrefix (htPath t) ''/'' \<and> list_all pathChar (htPath t)) \<or> containsStr (htPath t) ''//'')"

definition validHealthTargets :: "stateLib \<Rightarrow> HealthTarget list \<Rightarrow> string list \<Rightarrow> bool" where
  "validHealthTargets L targets namespaces \<longleftrightarrow>
     \<not> length targets > 32 \<and> scanSeen (targetOk L namespaces) (\<lambda>t. htNamespace t @ ''/'' @ WorkloadName t) [] targets"

record Config =
  confNamespaces :: "string list"
  confCore :: Client
  confHealthTargets :: "HealthTarget list"

text \<open>\<^verbatim>\<open>^[A-Z][A-Z0-9_]{0,127}$\<close>\<close>

definition stateTokenEnv :: "string \<Rightarrow> bool" where
  "stateTokenEnv = matchName isUpper (\<lambda>c. isUpper c \<or> isDigit c \<or> c = CHR ''_'') 127"

text \<open>\<open>file\<close> opens the path: \<open>None\<close> is an error, otherwise the reader, which may itself fail.
  Without a path there is no configuration.\<close>

definition LoadConfig ::
  "stateLib \<Rightarrow> (string \<Rightarrow> string option option) \<Rightarrow> string \<Rightarrow> (string \<Rightarrow> string) option \<Rightarrow> string list \<Rightarrow> stateErr + Config option" where
  "LoadConfig L file path lookup otherTokens =
     (if path = [] then Inr None
      else (case lookup of
          None \<Rightarrow> Inl ErrInvalid
        | Some getenv \<Rightarrow>
            (case file path of
               None \<Rightarrow> Inl ErrInvalid
             | Some reader \<Rightarrow>
                 (case Decode (configCodec L) reader 65536 of
                    None \<Rightarrow> Inl ErrInvalid
                  | Some i \<Rightarrow>
                      reject (cfgSchemaVersion i \<noteq> 1 \<or> length (cfgNamespaces i) = 0 \<or> length (cfgNamespaces i) > 128 \<or>
                        \<not> stateTokenEnv (cfgTokenEnv i)) ErrInvalid
                      (reject (\<not> scanSeen (IsDNS1123Label L) (\<lambda>ns. ns) [] (cfgNamespaces i)) ErrInvalid
                      (let token = getenv (cfgTokenEnv i) in
                       reject (token \<in> set otherTokens) ErrInvalid
                       (andThen (NewClient (CoreOrigin i) token) (\<lambda>client.
                        (let namespaces = sort (cfgNamespaces i) in
                         reject (\<not> validHealthTargets L (cfgHealthTargets i) namespaces) ErrInvalid
                         (Inr (Some \<lparr>confNamespaces = namespaces, confCore = client,
                            confHealthTargets = cfgHealthTargets i\<rparr>)))))))))))"

section \<open>What the reader delivers\<close>

abbreviation "resyncEvent \<equiv> \<lparr>evKind = ''resync'', evErr = None\<rparr>"
abbreviation "errorEvent e \<equiv> \<lparr>evKind = [], evErr = Some e\<rparr>"

definition pendingEvents :: "clientStream \<Rightarrow> StreamEvent list" where
  "pendingEvents s = (case csEvents s of None \<Rightarrow> [] | Some e \<Rightarrow> [e])"

text \<open>The invariant of a stream after a consumer has received \<open>es\<close>.\<close>

definition delivered :: "clientStream \<Rightarrow> StreamEvent list \<Rightarrow> bool" where
  "delivered s es \<longleftrightarrow>
     (\<exists>n. es @ pendingEvents s =
        replicate n resyncEvent @ (case csTerminal s of None \<Rightarrow> [] | Some e \<Rightarrow> [errorEvent e])) \<and>
     (csClosed s \<longleftrightarrow> csTerminal s \<noteq> None) \<and> (csFirst s \<longleftrightarrow> csHello s = []) \<and>
     (csTerminal s = Some ErrUnavailable \<or> csTerminal s = Some ErrInvalid \<or> csTerminal s = None) \<and>
     (csHello s = [] \<and> csTerminal s = None \<or> csHello s = [None] \<or> (\<exists>e. csHello s = [Some e] \<and> csTerminal s = Some e))"

lemma delivered_new: "delivered newStream []"
  by (simp add: delivered_def newStream_def pendingEvents_def)

lemma replicate_append_self: "replicate n x @ [x] = replicate (Suc n) x"
  by (simp add: replicate_append_same)

text \<open>The events received before a stream fails are resynchronization hints, and one more may
  have been waiting.\<close>

lemma received_hints: "es @ pendingEvents s = replicate n resyncEvent \<Longrightarrow> \<exists>k. es = replicate k resyncEvent"
  by (metis append_eq_conv_conj take_replicate)

lemma delivered_fail:
  assumes "delivered s es" and "\<not> csClosed s" and "e = ErrUnavailable \<or> e = ErrInvalid"
  shows "delivered (failStream e s) es"
proof -
  from assms obtain n where "es @ pendingEvents s = replicate n resyncEvent" by (auto simp: delivered_def)
  then obtain k where k: "es = replicate k resyncEvent" using received_hints by blast
  show ?thesis
    using assms by (auto simp: delivered_def failStream_def Let_def pendingEvents_def k)
qed

lemma delivered_readLine:
  assumes "delivered s es" and "\<not> csClosed s"
  shows "delivered (readLine L raw s) es"
proof -
  note fail = delivered_fail [OF assms]
  have closing: "closingError r = ErrUnavailable \<or> closingError r = ErrInvalid" for r
    by (simp add: closingError_def)
  have hint: "delivered (s\<lparr>csEvents := Some resyncEvent\<rparr>) es" if "csEvents s = None"
  proof -
    from assms that obtain n where "es = replicate n resyncEvent" by (auto simp: delivered_def pendingEvents_def)
    then show ?thesis using assms by (auto simp: delivered_def pendingEvents_def replicate_append_self intro: exI [of _ "Suc n"])
  qed
  have hello: "delivered (s\<lparr>csFirst := False, csHello := csHello s @ [None]\<rparr>) es" if "csFirst s"
    using assms that by (auto simp: delivered_def pendingEvents_def)
  show ?thesis
    using assms(1) fail closing hint hello
    by (auto simp: readLine_def Let_def split: option.splits prod.splits)
qed

lemma delivered_receive:
  assumes "delivered s es"
  shows "delivered (fst (streamStep L s Receive)) (es @ snd (streamStep L s Receive))"
  using assms by (auto simp: delivered_def pendingEvents_def split: option.splits)

lemma delivered_step:
  assumes "delivered s es"
  shows "delivered (fst (streamStep L s a)) (es @ snd (streamStep L s a))"
proof (cases a)
  case (Line raw)
  with delivered_readLine [OF assms] assms show ?thesis by simp
next
  case Ended
  with delivered_fail [OF assms] assms show ?thesis by simp
next
  case Receive
  with delivered_receive [OF assms] show ?thesis by simp
qed

lemma delivered_run: "delivered s es \<Longrightarrow> delivered (fst (streamRun L s as)) (es @ snd (streamRun L s as))"
proof (induction as arbitrary: s es)
  case (Cons a as)
  from Cons.IH [OF delivered_step [OF Cons.prems, of L a]] show ?case
    by (simp add: split_beta)
qed simp

text \<open>C12: Whatever lines arrive and however the consumer is interleaved: the handshake is answered at
  most once, and exactly once when the reader has returned; a consumer receives
  resynchronization hints and then, when the stream has failed, the terminal error itself,
  which is never lost behind a hint.\<close>

theorem read_delivers:
  fixes L :: stateLib and as :: "streamAction list"
  defines "s \<equiv> fst (streamRun L newStream as)" and "es \<equiv> snd (streamRun L newStream as)"
  shows "(\<exists>n. es @ pendingEvents s =
        replicate n resyncEvent @ (case csTerminal s of None \<Rightarrow> [] | Some e \<Rightarrow> [errorEvent e])) \<and>
     (csClosed s \<longleftrightarrow> csTerminal s \<noteq> None) \<and>
     (csTerminal s = Some ErrUnavailable \<or> csTerminal s = Some ErrInvalid \<or> csTerminal s = None) \<and>
     (csHello s = [] \<and> \<not> csClosed s \<or> csHello s = [None] \<or> (\<exists>e. csHello s = [Some e] \<and> csTerminal s = Some e))"
proof -
  have "delivered s es" using delivered_run [OF delivered_new, of L as] by (simp add: s_def es_def)
  then show ?thesis by (simp add: delivered_def)
qed

section \<open>What a configuration guarantees\<close>

lemma NewClient_ok:
  "NewClient origin token = Inr c \<Longrightarrow>
     clToken c = token \<and> 32 \<le> length token \<and> length token \<le> 4096 \<and>
     list_all (\<lambda>ch. 33 \<le> (of_char ch :: nat) \<and> (of_char ch :: nat) \<le> 126) token"
  by (auto simp: NewClient_def list_all_iff list_ex_iff not_less split: option.splits)


text \<open>A collector that is told to wait is told so by status 409 with the busy code, for 1 to 30
  seconds; only server failures and throttling count as transient.\<close>

lemma refusal_kinds:
  "refusal L r = Busy d \<Longrightarrow> srStatus r = 409 \<and> Decode (busyCodec L) (Some (srBody r)) 4096 = Some ''COLLECTOR_BUSY'' \<and>
     1 * second \<le> d \<and> d \<le> 30 * second"
  "refusal L r = ErrUnavailable \<longleftrightarrow> srStatus r \<ge> 500 \<or> srStatus r = 429"
  "refusal L r \<noteq> ErrResync" "refusal L r \<noteq> ErrContext"
  by (auto simp: refusal_def second_def split: if_splits option.splits)

end
