(* ===== verification/StateSession.thy ===== *)
theory StateSession
  imports StateClient
begin

text \<open>
  The collector: \<^verbatim>\<open>internal/appstate/observer.go\<close> with the rounds of \<^verbatim>\<open>health.go\<close> it uses, and
  \<^verbatim>\<open>Open\<close> of \<^verbatim>\<open>client.go\<close>. Each function is an interaction tree over the requests \<open>oreq\<close>: the
  List and Watch calls, the stream, the clock, and the \<^verbatim>\<open>select\<close> statements, whose reply is
  the case that is taken.

  Three loops of the code have no bound of their own: the pages of a List (bounded by the
  fifteen seconds of its context), the select loop and the loop over rounds. They carry the
  number of iterations the run performs; for the List loop the calls its context admits, after
  which the call fails. The other two return \<open>Running\<close> and \<open>None\<close> when a run is cut off there.
  The theorems hold for all these numbers and speak about every request that is issued, so
  they cover every prefix of every run.
\<close>

section \<open>Requests\<close>

record page =
  pgVersion :: string
  pgContinue :: string
  pgItems :: "Deployment list"

record healthResult =
  hrNamespace :: string
  hrName :: string
  hrUID :: string
  hrVersion :: string
  hrState :: string
  hrAt :: int

datatype selected =
    CtxDone | TimerFired | FailureReady | EventReady "StreamEvent option" | HeartbeatTick
  | UpdateReady ResourceObservation | SampleReady healthResult

datatype oreq =
    PostStream string string | AwaitHello | ListPage string string | TimeNow | NewSyncID | Emit frame
  | StartWatch string string | PollFailures | SelectCase | CtxErr | RandomIntN int | WaitTimer int

datatype orep =
    RResponse "streamResponse option" | RPage "page option" | RTime int | RText string
  | RSent "stateErr option" | RFlag bool | RSelected selected | RInt int

text \<open>The failure of a stream is one of the two errors its reader sets (\<open>read_delivers\<close>); a draw
  from \<^verbatim>\<open>rand.IntN(n)\<close> is below \<open>n\<close>. A reply outside these ranges is no reply.\<close>

definition streamFailure :: "stateErr option \<Rightarrow> bool" where
  "streamFailure e \<longleftrightarrow> e = None \<or> e = Some ErrUnavailable \<or> e = Some ErrInvalid"

definition selectable :: "selected \<Rightarrow> bool" where
  "selectable c = (case c of EventReady (Some ev) \<Rightarrow> streamFailure (evErr ev) | _ \<Rightarrow> True)"

fun asResponse where "asResponse (RResponse x) = Some x" | "asResponse _ = None"
fun asPage where "asPage (RPage x) = Some x" | "asPage _ = None"
fun asTime where "asTime (RTime x) = Some x" | "asTime _ = None"
fun asSyncID where "asSyncID (RText x) = Some x" | "asSyncID _ = None"
fun asSent where "asSent (RSent x) = (if streamFailure x then Some x else None)" | "asSent _ = None"
fun asFlag where "asFlag (RFlag x) = Some x" | "asFlag _ = None"
fun asSelected where "asSelected (RSelected x) = (if selectable x then Some x else None)" | "asSelected _ = None"
fun asIntN where "asIntN n (RInt x) = (if 0 \<le> x \<and> x < n then Some x else None)" | "asIntN n _ = None"

lemma as_state [simp]:
  "asResponse r = Some a \<longleftrightarrow> r = RResponse a" "asPage r = Some b \<longleftrightarrow> r = RPage b" "asTime r = Some c \<longleftrightarrow> r = RTime c"
  "asSyncID r = Some d \<longleftrightarrow> r = RText d" "asSent r = Some e \<longleftrightarrow> r = RSent e \<and> streamFailure e"
  "asFlag r = Some f \<longleftrightarrow> r = RFlag f" "asSelected r = Some g \<longleftrightarrow> r = RSelected g \<and> selectable g"
  "asIntN n r = Some i \<longleftrightarrow> r = RInt i \<and> 0 \<le> i \<and> i < n"
  by (cases r; auto)+

type_synonym 'a oprog = "(oreq, orep, 'a) prog"

section \<open>Opening a stream\<close>

text \<open>The value of the channel \<^verbatim>\<open>hello\<close>, or the failure of a stream whose context ended first, is
  the reply to \<open>AwaitHello\<close>.\<close>

definition Open :: "stateLib \<Rightarrow> Client \<Rightarrow> stateErr option oprog" where
  "Open L c =
     (case parseURL (clOrigin c @ streamPath) of
        None \<Rightarrow> Ret (Some ErrInvalid)
      | Some _ \<Rightarrow>
          ask (PostStream (clOrigin c @ streamPath) (clToken c)) asResponse (\<lambda>reply. case reply of
            None \<Rightarrow> Ret (Some ErrUnavailable)
          | Some r \<Rightarrow>
              if srStatus r \<noteq> 200 then Ret (Some (refusal L r))
              else if parseMedia L (srContentType r) \<noteq> Some ''application/x-ndjson'' then Ret (Some ErrInvalid)
              else ask AwaitHello asSent Ret))"

section \<open>The inventory\<close>

record inventoryState =
  invVersions :: "string \<rightharpoonup> string"
  invSeen :: "string list"
  invResources :: "ResourceObservation list"

fun takeItems :: "string \<Rightarrow> inventoryState \<Rightarrow> Deployment list \<Rightarrow> stateErr + inventoryState" where
  "takeItems ns st [] = Inr st"
| "takeItems ns st (d # ds) =
     (let key = ns @ ''/'' @ dName d in
      reject (dNamespace d \<noteq> ns \<or> dName d = [] \<or> dUID d = [] \<or> dResourceVersion d = [] \<or> key \<in> set (invSeen st)) ErrResync
      (let resources = invResources st @ [observation d False] in
       reject (length resources > 10000) ErrInvalid
       (takeItems ns (st\<lparr>invSeen := key # invSeen st, invResources := resources\<rparr>) ds)))"

text \<open>The loop over the pages of a namespace; the result carries the calls that are left.\<close>

fun listPages :: "nat \<Rightarrow> string \<Rightarrow> string \<Rightarrow> string list \<Rightarrow> inventoryState \<Rightarrow> (stateErr + nat \<times> inventoryState) oprog" where
  "listPages 0 ns next pages st = Ret (Inl ErrUnavailable)"
| "listPages (Suc calls) ns next pages st =
     ask (ListPage ns next) asPage (\<lambda>reply. case reply of
       None \<Rightarrow> Ret (Inl ErrUnavailable)
     | Some list \<Rightarrow>
         failIf (pgVersion list = [] \<or> (lookupStr (invVersions st) ns \<noteq> [] \<and> lookupStr (invVersions st) ns \<noteq> pgVersion list))
           ErrResync
         (tryP (takeItems ns (st\<lparr>invVersions := (invVersions st)(ns \<mapsto> pgVersion list)\<rparr>) (pgItems list)) (\<lambda>st'.
          if pgContinue list = [] then Ret (Inr (calls, st'))
          else if pgContinue list \<in> set pages then Ret (Inl ErrResync)
          else listPages calls ns (pgContinue list) (pgContinue list # pages) st')))"

fun listNamespaces :: "nat \<Rightarrow> inventoryState \<Rightarrow> string list \<Rightarrow> (stateErr + inventoryState) oprog" where
  "listNamespaces calls st [] = Ret (Inr st)"
| "listNamespaces calls st (ns # nss) =
     thenP (listPages calls ns [] [] st) (\<lambda>(calls', st'). listNamespaces calls' st' nss)"

definition inventory :: "nat \<Rightarrow> string list \<Rightarrow> (stateErr + ResourceObservation list \<times> (string \<rightharpoonup> string)) oprog" where
  "inventory calls namespaces =
     thenP (listNamespaces calls \<lparr>invVersions = Map.empty, invSeen = [], invResources = []\<rparr> namespaces)
       (\<lambda>st. Ret (Inr (invResources st, invVersions st)))"

section \<open>The health of a round\<close>

definition objectKey :: "ResourceObservation \<Rightarrow> string" where
  "objectKey r = Namespace r @ ''/'' @ Name r"

type_synonym objects = "string \<rightharpoonup> ResourceObservation"

definition healthObjects :: "ResourceObservation list \<Rightarrow> objects" where
  "healthObjects resources = foldl (\<lambda>m r. m(objectKey r \<mapsto> r)) Map.empty resources"

definition updateObjects :: "objects \<Rightarrow> ResourceObservation \<Rightarrow> objects" where
  "updateObjects m r =
     (let key = objectKey r in
      if Deleted r then
        (if (case m key of None \<Rightarrow> [] | Some old \<Rightarrow> UID old) = UID r then m(key := None) else m)
      else m(key \<mapsto> r))"

text \<open>\<^verbatim>\<open>current\<close> without its last conjunct, the age of the sample.\<close>

definition currentObject :: "objects \<Rightarrow> healthResult \<Rightarrow> bool" where
  "currentObject m s =
     (case m (hrNamespace s @ ''/'' @ hrName s) of
        None \<Rightarrow> False
      | Some r \<Rightarrow> UID r = hrUID s \<and> ResourceVersion r = hrVersion s \<and> InstanceID r = [] \<and> \<not> Terminating r \<and>
          \<not> Deleted r \<and> Desired r > 0)"

definition sampleFrame :: "healthResult \<Rightarrow> frame" where
  "sampleFrame s = HealthFrame (hrNamespace s) (hrName s) (hrUID s) (hrVersion s) (hrState s)"

section \<open>A round\<close>

text \<open>\<^verbatim>\<open>stream.Send\<close> on the client's stream: too long a frame is refused before it is written.\<close>

definition sendFrame :: "frame \<Rightarrow> stateErr option oprog" where
  "sendFrame f =
     (if length (marshalFrame f) > 2 ^ 20 then Ret (Some ErrInvalid) else ask (Emit f) asSent Ret)"

definition afterSend :: "frame \<Rightarrow> (stateErr \<Rightarrow> 'a oprog) \<Rightarrow> 'a oprog \<Rightarrow> 'a oprog" where
  "afterSend f onError k = bindP (sendFrame f) (\<lambda>e. case e of Some err \<Rightarrow> onError err | None \<Rightarrow> k)"

definition messageLimit :: nat where
  "messageLimit = 2 ^ 20 - 512"

text \<open>The loop of \<^verbatim>\<open>sendSnapshotObjects\<close> at \<open>index\<close>, with the rest of the resources.\<close>

fun sendChunks :: "string \<Rightarrow> ResourceObservation list \<Rightarrow> nat \<Rightarrow> nat \<Rightarrow> nat \<Rightarrow> ResourceObservation list \<Rightarrow> stateErr option oprog" where
  "sendChunks sync resources start bytes index [] =
     (if start < length resources then sendFrame (SnapshotObjects sync (drop start resources)) else Ret None)"
| "sendChunks sync resources start bytes index (r # rs) =
     (let raw = length (marshalObservation r) in
      if raw > messageLimit then Ret (Some ErrInvalid)
      else if index - start = 500 \<or> bytes + raw + 1 > messageLimit then
        afterSend (SnapshotObjects sync (take (index - start) (drop start resources))) (\<lambda>e. Ret (Some e))
          (sendChunks sync resources index (raw + 1) (Suc index) rs)
      else sendChunks sync resources start (bytes + raw + 1) (Suc index) rs)"

definition sendSnapshotObjects :: "string \<Rightarrow> ResourceObservation list \<Rightarrow> stateErr option oprog" where
  "sendSnapshotObjects sync resources = sendChunks sync resources 0 0 0 resources"

fun startWatches :: "(string \<rightharpoonup> string) \<Rightarrow> string list \<Rightarrow> stateErr option oprog" where
  "startWatches versions [] = Ret None"
| "startWatches versions (ns # nss) =
     ask (StartWatch ns (lookupStr versions ns)) asFlag (\<lambda>ok. if \<not> ok then Ret (Some ErrResync) else startWatches versions nss)"

datatype outcome = Running | Resynced | Failed stateErr

definition updateFrame :: "ResourceObservation \<Rightarrow> frame" where
  "updateFrame r = (if Deleted r then Delete (Namespace r) (Name r) (UID r) else Upsert r)"

text \<open>The case a \<^verbatim>\<open>select\<close> takes; \<open>k\<close> continues the loop with the objects of the round.\<close>

definition handleCase :: "int \<Rightarrow> objects \<Rightarrow> (objects \<Rightarrow> outcome oprog) \<Rightarrow> selected \<Rightarrow> outcome oprog" where
  "handleCase listedAt m k c =
     (case c of
       CtxDone \<Rightarrow> Ret (Failed ErrContext)
     | TimerFired \<Rightarrow> Ret Resynced
     | FailureReady \<Rightarrow> Ret Resynced
     | EventReady None \<Rightarrow> Ret (Failed ErrUnavailable)
     | EventReady (Some ev) \<Rightarrow> (case evErr ev of Some e \<Rightarrow> Ret (Failed e) | None \<Rightarrow> Ret Resynced)
     | HeartbeatTick \<Rightarrow>
         ask TimeNow asTime (\<lambda>now.
         if \<not> now < listedAt + 60 * second then Ret Resynced
         else ask PollFailures asFlag (\<lambda>failed.
           if failed then Ret Resynced else afterSend Heartbeat (\<lambda>e. Ret (Failed e)) (k m)))
     | UpdateReady r \<Rightarrow> afterSend (updateFrame r) (\<lambda>e. Ret (Failed e)) (k (updateObjects m r))
     | SampleReady s \<Rightarrow>
         if currentObject m s then
           ask TimeNow asTime (\<lambda>now.
           if now - hrAt s < 2 * second then afterSend (sampleFrame s) (\<lambda>e. Ret (Failed e)) (k m) else k m)
         else k m)"

fun selectLoop :: "nat \<Rightarrow> int \<Rightarrow> objects \<Rightarrow> outcome oprog" where
  "selectLoop 0 listedAt m = Ret Running"
| "selectLoop (Suc n) listedAt m =
     ask PollFailures asFlag (\<lambda>failed.
     if failed then Ret Resynced
     else ask SelectCase asSelected (handleCase listedAt m (selectLoop n listedAt)))"

section \<open>Sessions\<close>

record Observer =
  obsCore :: Client
  obsNamespaces :: "string list"
  obsHealthTargets :: "HealthTarget list"

text \<open>The numbers of iterations of a run: rounds of a session, List calls of an inventory and
  turns of a select loop.\<close>

record bounds =
  maxRounds :: nat
  maxCalls :: nat
  maxTurns :: nat

definition syncRound :: "bounds \<Rightarrow> Observer \<Rightarrow> outcome oprog" where
  "syncRound B ob =
     bindP (inventory (maxCalls B) (obsNamespaces ob)) (\<lambda>inv. case inv of
       Inl e \<Rightarrow> Ret (Failed e)
     | Inr (resources, versions) \<Rightarrow>
         ask TimeNow asTime (\<lambda>listedAt.
         ask NewSyncID asSyncID (\<lambda>sync.
         afterSend (SnapshotBegin sync) (\<lambda>e. Ret (Failed e))
         (bindP (sendSnapshotObjects sync resources) (\<lambda>err. case err of
            Some e \<Rightarrow> Ret (Failed e)
          | None \<Rightarrow>
              afterSend (SnapshotEnd sync (int (length resources))) (\<lambda>e. Ret (Failed e))
              (bindP (startWatches versions (obsNamespaces ob)) (\<lambda>err. case err of
                 Some e \<Rightarrow> Ret (Failed e)
               | None \<Rightarrow> selectLoop (maxTurns B) listedAt (healthObjects resources))))))))"

fun rounds :: "nat \<Rightarrow> bounds \<Rightarrow> Observer \<Rightarrow> stateErr option oprog" where
  "rounds 0 B ob = Ret None"
| "rounds (Suc n) B ob =
     bindP (syncRound B ob) (\<lambda>r. case r of Running \<Rightarrow> Ret None | Failed e \<Rightarrow> Ret (Some e) | Resynced \<Rightarrow> rounds n B ob)"

text \<open>\<^verbatim>\<open>session\<close>: \<open>Some e\<close> is a return with the error \<open>e\<close>.\<close>

definition session :: "bounds \<Rightarrow> stateLib \<Rightarrow> Observer \<Rightarrow> stateErr option oprog" where
  "session B L ob =
     (if \<not> validHealthTargets L (obsHealthTargets ob) (obsNamespaces ob) then Ret (Some ErrInvalid)
      else bindP (Open L (obsCore ob)) (\<lambda>r. case r of Some e \<Rightarrow> Ret (Some e) | None \<Rightarrow> rounds (maxRounds B) B ob))"

text \<open>The wait after a session and the next delay.\<close>

definition backoff :: "int \<Rightarrow> int \<Rightarrow> stateErr \<Rightarrow> int \<times> int" where
  "backoff delay elapsed err =
     (let delay = (if elapsed \<ge> 30 * second then second else delay) in
      case err of Busy d \<Rightarrow> (d, delay) | _ \<Rightarrow> (delay, min (2 * delay) (10 * second)))"

fun runLoop :: "nat \<Rightarrow> bounds \<Rightarrow> stateLib \<Rightarrow> Observer \<Rightarrow> int \<Rightarrow> stateErr option oprog" where
  "runLoop 0 B L ob delay = Ret None"
| "runLoop (Suc n) B L ob delay =
     ask CtxErr asFlag (\<lambda>ended. if ended then Ret (Some ErrContext) else
     ask TimeNow asTime (\<lambda>started.
     bindP (session B L ob) (\<lambda>result. case result of
       None \<Rightarrow> Ret None
     | Some err \<Rightarrow>
         ask CtxErr asFlag (\<lambda>ended. if ended then Ret (Some ErrContext)
         else if err = ErrInvalid then Ret (Some err) else
         ask TimeNow asTime (\<lambda>now. case backoff delay (now - started) err of (wait, delay') \<Rightarrow>
         ask (RandomIntN 250) (asIntN 250) (\<lambda>jitter.
         ask (WaitTimer (wait + jitter * millisecond)) asFlag (\<lambda>ended.
         if ended then Ret (Some ErrContext) else runLoop n B L ob delay')))))))"

definition Run :: "nat \<Rightarrow> bounds \<Rightarrow> stateLib \<Rightarrow> Observer option \<Rightarrow> stateErr option oprog" where
  "Run n B L ob =
     (case ob of
        None \<Rightarrow> Ret (Some ErrInvalid)
      | Some ob \<Rightarrow> if length (obsNamespaces ob) = 0 then Ret (Some ErrInvalid) else runLoop n B L ob second)"

end
