(* ===== verification/StateProtocol.thy ===== *)
theory StateProtocol
  imports StateSession
begin

text \<open>
  What the collector of \<^verbatim>\<open>internal/appstate\<close> guarantees: the inventory is the complete listing of
  every namespace at one version, a snapshot is sent in messages that fit the protocol's limits
  and add up to the inventory, every frame of every session obeys the protocol as an observer
  of the stream sees it, and the reconnect loop waits within fixed bounds.
\<close>

section \<open>The inventory\<close>

text \<open>The calls that list the pages \<open>ps\<close> of a namespace, each with the token of the page before.\<close>

fun pageCalls :: "string \<Rightarrow> string \<Rightarrow> page list \<Rightarrow> (oreq \<times> orep) list" where
  "pageCalls ns next [] = []"
| "pageCalls ns next (p # ps) = (ListPage ns next, RPage (Some p)) # pageCalls ns (pgContinue p) ps"

text \<open>A complete listing: only the last page has no continuation.\<close>

fun completePages :: "page list \<Rightarrow> bool" where
  "completePages [] = False"
| "completePages (p # ps) = (if ps = [] then pgContinue p = [] else pgContinue p \<noteq> [] \<and> completePages ps)"

definition pageObservations :: "page list \<Rightarrow> ResourceObservation list" where
  "pageObservations ps = map (\<lambda>d. observation d False) (concat (map pgItems ps))"

definition identified :: "ResourceObservation \<Rightarrow> bool" where
  "identified r \<longleftrightarrow> Name r \<noteq> [] \<and> UID r \<noteq> [] \<and> ResourceVersion r \<noteq> []"

definition inventoryInv :: "inventoryState \<Rightarrow> bool" where
  "inventoryInv st \<longleftrightarrow> invSeen st = rev (map objectKey (invResources st)) \<and> distinct (invSeen st) \<and>
     length (invResources st) \<le> 10000 \<and> list_all identified (invResources st) \<and>
     (\<forall>ns v. invVersions st ns = Some v \<longrightarrow> v \<noteq> [])"

lemma takeItems_ok:
  "takeItems ns st ds = Inr st' \<Longrightarrow> inventoryInv st \<Longrightarrow>
     inventoryInv st' \<and> invVersions st' = invVersions st \<and>
     invResources st' = invResources st @ map (\<lambda>d. observation d False) ds \<and> (\<forall>d \<in> set ds. dNamespace d = ns)"
proof (induction ns st ds rule: takeItems.induct)
  case (2 ns st d ds)
  let ?st = "st\<lparr>invSeen := (ns @ ''/'' @ dName d) # invSeen st, invResources := invResources st @ [observation d False]\<rparr>"
  from 2(2) have d: "dNamespace d = ns" "dName d \<noteq> []" "dUID d \<noteq> []" "dResourceVersion d \<noteq> []"
      "ns @ ''/'' @ dName d \<notin> set (invSeen st)" "length (invResources st @ [observation d False]) \<le> 10000"
    and rest: "takeItems ns ?st ds = Inr st'"
    by (simp_all add: Let_def)
  have "inventoryInv ?st" using 2(3) d by (auto simp: inventoryInv_def objectKey_def identified_def)
  from 2(1) [OF refl refl rest this] d(1) show ?case by auto
qed simp

lemma listPages_ok:
  assumes "runs (listPages calls ns next pages st) h (Inr (calls', st'))" and "inventoryInv st"
  shows "\<exists>ps v. h = pageCalls ns next ps \<and> completePages ps \<and> (\<forall>p \<in> set ps. pgVersion p = v \<and> (\<forall>d \<in> set (pgItems p). dNamespace d = ns)) \<and>
    inventoryInv st' \<and> invResources st' = invResources st @ pageObservations ps \<and>
    invVersions st' = (invVersions st)(ns \<mapsto> v) \<and> (invVersions st ns = None \<or> invVersions st ns = Some v)"
  using assms
proof (induction calls arbitrary: "next" pages st h)
  case (Suc calls)
  let ?st = "\<lambda>p. st\<lparr>invVersions := (invVersions st)(ns \<mapsto> pgVersion p)\<rparr>"
  from Suc.prems(1) obtain p h1 st1 where h: "h = (ListPage ns next, RPage (Some p)) # h1"
    and v: "pgVersion p \<noteq> []" "lookupStr (invVersions st) ns = [] \<or> lookupStr (invVersions st) ns = pgVersion p"
    and t: "takeItems ns (?st p) (pgItems p) = Inr st1"
    and k: "pgContinue p = [] \<and> h1 = [] \<and> st' = st1 \<or>
      pgContinue p \<noteq> [] \<and> runs (listPages calls ns (pgContinue p) (pgContinue p # pages) st1) h1 (Inr (calls', st'))"
    by (auto simp: runs_If split: if_splits)
  have inv: "inventoryInv (?st p)" using Suc.prems(2) v(1) by (auto simp: inventoryInv_def)
  have old: "invVersions st ns = None \<or> invVersions st ns = Some (pgVersion p)"
    using Suc.prems(2) v by (auto simp: lookupStr_def inventoryInv_def split: option.splits)
  note t' = takeItems_ok [OF t inv]
  from k show ?case
  proof
    assume "pgContinue p = [] \<and> h1 = [] \<and> st' = st1"
    with h t' old show ?thesis
      by (intro exI [of _ "[p]"] exI [of _ "pgVersion p"]) (auto simp: pageObservations_def)
  next
    assume more: "pgContinue p \<noteq> [] \<and> runs (listPages calls ns (pgContinue p) (pgContinue p # pages) st1) h1 (Inr (calls', st'))"
    with Suc.IH [of "pgContinue p" "pgContinue p # pages" st1 h1] t' obtain ps w where
      "h1 = pageCalls ns (pgContinue p) ps" "completePages ps"
      "\<forall>q \<in> set ps. pgVersion q = w \<and> (\<forall>d \<in> set (pgItems q). dNamespace d = ns)"
      "inventoryInv st'" "invResources st' = invResources st1 @ pageObservations ps"
      "invVersions st' = (invVersions st1)(ns \<mapsto> w)" "invVersions st1 ns = None \<or> invVersions st1 ns = Some w"
      by blast
    moreover from this t' have "w = pgVersion p" by auto
    ultimately show ?thesis
      using h t' old more by (intro exI [of _ "p # ps"] exI [of _ "pgVersion p"]) (auto simp: pageObservations_def)
  qed
qed simp

definition listing :: "string list \<Rightarrow> page list list \<Rightarrow> (oreq \<times> orep) list" where
  "listing nss pss = concat (map2 (\<lambda>ns ps. pageCalls ns [] ps) nss pss)"

lemma listNamespaces_ok:
  assumes "runs (listNamespaces calls st nss) h (Inr st')" and "inventoryInv st"
  shows "\<exists>pss. length pss = length nss \<and> h = listing nss pss \<and> list_all completePages pss \<and>
    (\<forall>(ns, ps) \<in> set (zip nss pss). \<forall>p \<in> set ps. invVersions st' ns = Some (pgVersion p) \<and> (\<forall>d \<in> set (pgItems p). dNamespace d = ns)) \<and>
    inventoryInv st' \<and> invResources st' = invResources st @ pageObservations (concat pss) \<and> invVersions st \<subseteq>\<^sub>m invVersions st'"
  using assms
proof (induction nss arbitrary: calls st h)
  case Nil
  then show ?case by (auto simp: listing_def pageObservations_def)
next
  case (Cons ns nss)
  from Cons.prems(1) obtain h1 h2 calls1 st1 where h: "h = h1 @ h2"
    and one: "runs (listPages calls ns [] [] st) h1 (Inr (calls1, st1))"
    and rest: "runs (listNamespaces calls1 st1 nss) h2 (Inr st')"
    by (auto simp: runs_thenP)
  from listPages_ok [OF one Cons.prems(2)] obtain ps v where ps: "h1 = pageCalls ns [] ps" "completePages ps"
    "\<forall>p \<in> set ps. pgVersion p = v \<and> (\<forall>d \<in> set (pgItems p). dNamespace d = ns)" "inventoryInv st1"
    "invResources st1 = invResources st @ pageObservations ps" "invVersions st1 = (invVersions st)(ns \<mapsto> v)"
    "invVersions st ns = None \<or> invVersions st ns = Some v"
    by blast
  from Cons.IH [OF rest ps(4)] obtain pss where pss: "length pss = length nss" "h2 = listing nss pss" "list_all completePages pss"
    "\<forall>(ns, ps) \<in> set (zip nss pss). \<forall>p \<in> set ps. invVersions st' ns = Some (pgVersion p) \<and> (\<forall>d \<in> set (pgItems p). dNamespace d = ns)"
    "inventoryInv st'" "invResources st' = invResources st1 @ pageObservations (concat pss)" "invVersions st1 \<subseteq>\<^sub>m invVersions st'"
    by blast
  have "invVersions st' ns = Some v" using pss(7) ps(6) by (force simp: map_le_def)
  moreover have "invVersions st \<subseteq>\<^sub>m invVersions st'"
    using pss(7) ps(6,7) by (force simp: map_le_def dom_def)
  ultimately show ?case
    using h ps pss by (intro exI [of _ "ps # pss"]) (auto simp: listing_def pageObservations_def)
qed

text \<open>C10: An inventory that is returned is complete and consistent: the calls were, for each
  namespace in turn, the List calls of all its pages, from the first to the one without a
  continuation, all of the version the watch will start from; the resources are the
  observations of exactly the listed Deployments, in order, at most 10000, each identified, no
  two with one name.\<close>

theorem inventory_complete:
  assumes "runs (inventory calls nss) h (Inr (resources, versions))"
  shows "\<exists>pss. length pss = length nss \<and> h = listing nss pss \<and> list_all completePages pss \<and>
    (\<forall>(ns, ps) \<in> set (zip nss pss). \<forall>p \<in> set ps. versions ns = Some (pgVersion p) \<and> (\<forall>d \<in> set (pgItems p). dNamespace d = ns)) \<and>
    resources = pageObservations (concat pss) \<and> length resources \<le> 10000 \<and> list_all identified resources \<and>
    distinct (map objectKey resources)"
proof -
  from assms obtain st' where run: "runs (listNamespaces calls \<lparr>invVersions = Map.empty, invSeen = [], invResources = []\<rparr> nss) h (Inr st')"
    and st': "resources = invResources st'" "versions = invVersions st'"
    by (auto simp: inventory_def runs_thenP)
  from listNamespaces_ok [OF run] obtain pss where "length pss = length nss" "h = listing nss pss" "list_all completePages pss"
    "\<forall>(ns, ps) \<in> set (zip nss pss). \<forall>p \<in> set ps. invVersions st' ns = Some (pgVersion p) \<and> (\<forall>d \<in> set (pgItems p). dNamespace d = ns)"
    "inventoryInv st'" "invResources st' = pageObservations (concat pss)"
    by (auto simp: inventoryInv_def)
  then show ?thesis by (intro exI [of _ pss]) (auto simp: st' inventoryInv_def)
qed

section \<open>The size of a snapshot message\<close>

definition plainChar :: "char \<Rightarrow> bool" where
  "plainChar c \<longleftrightarrow> byteIn 32 126 c \<and> c \<notin> set ''<>&'' \<and> c \<noteq> CHR 0x22 \<and> c \<noteq> backslash"

lemma escapeAscii_plain: "plainChar c \<Longrightarrow> escapeAscii c = [c]"
proof -
  assume c: "plainChar c"
  then have "32 \<le> (of_char c :: nat)" by (simp add: plainChar_def byteIn_def)
  then have "c \<noteq> CHR 0x08" "c \<noteq> CHR 0x0C" "c \<noteq> CHR 0x0A" "c \<noteq> CHR 0x0D" "c \<noteq> CHR 0x09" "\<not> byteIn 0 31 c"
    by (auto simp: byteIn_def)
  with c show ?thesis unfolding plainChar_def escapeAscii_def by simp
qed

lemma quoteBody_plain: "list_all plainChar s \<Longrightarrow> quoteBody s = s"
proof (induction s)
  case (Cons c s)
  then have "byteIn 0 127 c" by (simp add: plainChar_def byteIn_def)
  with Cons escapeAscii_plain [of c] show ?case by simp
qed simp

lemma length_joinWith_eq: "length (joinWith '','' xs) = (\<Sum>x\<leftarrow>xs. length x + 1) - 1"
  by (induction xs rule: induct_list012) auto

lemma renderItems_map: "renderItems (map observationJson os) = map marshalObservation os"
  by (induction os) (auto simp: marshalObservation_def)

definition chunkBytes :: "ResourceObservation list \<Rightarrow> nat" where
  "chunkBytes os = (\<Sum>r\<leftarrow>os. length (marshalObservation r) + 1)"

lemma chunkBytes_simps [simp]:
  "chunkBytes [] = 0" "chunkBytes (xs @ ys) = chunkBytes xs + chunkBytes ys" "chunkBytes [r] = length (marshalObservation r) + 1"
  by (simp_all add: chunkBytes_def)

text \<open>The identifier of a synchronization, as \<^verbatim>\<open>uuid.NewString\<close> makes it.\<close>

definition plainSync :: "string \<Rightarrow> bool" where
  "plainSync s \<longleftrightarrow> length s = 36 \<and> list_all plainChar s"

lemma literals_plain:
  "list_all plainChar ''schemaVersion''" "list_all plainChar ''kind''" "list_all plainChar ''syncId''"
  "list_all plainChar ''objects''" "list_all plainChar ''snapshot-objects''"
  by code_simp+

lemma length_quote: "list_all plainChar s \<Longrightarrow> length (quote s) = length s + 2"
  by (simp add: quote_def quoteBody_plain del: quoteBody.simps)

lemma objects_message_size:
  "plainSync sync \<Longrightarrow> length (marshalFrame (SnapshotObjects sync os)) \<le> 200 + chunkBytes os"
  using literals_plain [THEN length_quote] length_quote [of sync]
  by (simp add: marshalFrame_def header_def plainSync_def JInt_def showInt_def
      showNat.simps renderItems_map length_joinWith_eq chunkBytes_def comp_def del: quoteBody.simps)

section \<open>Snapshots\<close>

definition snapshotCalls :: "string \<Rightarrow> ResourceObservation list list \<Rightarrow> oreq list" where
  "snapshotCalls sync chunks = map (\<lambda>c. Emit (SnapshotObjects sync c)) chunks"

definition smallChunk :: "string \<Rightarrow> ResourceObservation list \<Rightarrow> bool" where
  "smallChunk sync c \<longleftrightarrow> length c \<le> 500 \<and> length (marshalFrame (SnapshotObjects sync c)) \<le> 2 ^ 20"

text \<open>The claim about a loop that still has \<open>rest\<close> to send.\<close>

definition sentAs :: "string \<Rightarrow> ResourceObservation list \<Rightarrow> (oreq \<times> orep) list \<Rightarrow> stateErr option \<Rightarrow> bool" where
  "sentAs sync rest h res \<longleftrightarrow> (\<exists>chunks. map fst h = snapshotCalls sync chunks \<and> list_all (smallChunk sync) chunks \<and>
     (\<exists>more. concat chunks @ more = rest \<and> (res = None \<longrightarrow> more = [])) \<and>
     (\<forall>e. res = Some e \<longrightarrow> h \<noteq> [] \<and> snd (last h) = RSent (Some e)))"

lemma sentAs_send:
  assumes "runs (afterSend (SnapshotObjects sync c) (\<lambda>e. Ret (Some e)) k) h res" and "smallChunk sync c"
    and "\<And>h'. runs k h' res \<Longrightarrow> sentAs sync rest h' res"
  shows "sentAs sync (c @ rest) h res"
proof -
  from assms(1,2) obtain e h' where h: "h = (Emit (SnapshotObjects sync c), RSent e) # h'"
    and k: "e = None \<and> runs k h' res \<or> (\<exists>x. e = Some x \<and> h' = [] \<and> res = Some x)"
    by (auto simp: afterSend_def sendFrame_def runs_bindP smallChunk_def)
  from k show ?thesis
  proof (elim disjE conjE exE)
    assume "runs k h' res"
    from assms(3) [OF this] obtain chunks more where "map fst h' = snapshotCalls sync chunks" "list_all (smallChunk sync) chunks"
      "concat chunks @ more = rest" "res = None \<longrightarrow> more = []" "\<forall>e. res = Some e \<longrightarrow> h' \<noteq> [] \<and> snd (last h') = RSent (Some e)"
      unfolding sentAs_def by blast
    then show ?thesis
      using h assms(2) unfolding sentAs_def by (intro exI [of _ "c # chunks"]) (auto simp: snapshotCalls_def)
  next
    fix x assume "e = Some x" "h' = []" "res = Some x"
    then show ?thesis
      using h assms(2) unfolding sentAs_def by (intro exI [of _ "[c]"]) (auto simp: snapshotCalls_def)
  qed
qed

lemma smallChunkI:
  "plainSync sync \<Longrightarrow> length c \<le> 500 \<Longrightarrow> chunkBytes c \<le> messageLimit + 1 \<Longrightarrow> smallChunk sync c"
  using objects_message_size [of sync c] by (simp add: smallChunk_def messageLimit_def)

lemma sendFrame_as_after: "sendFrame f = afterSend f (\<lambda>e. Ret (Some e)) (Ret None)"
proof -
  have "bindP (ask q asSent Ret) (\<lambda>e. case e of Some err \<Rightarrow> Ret (Some err) | None \<Rightarrow> Ret None) = ask q asSent Ret" for q :: oreq
    by (simp add: ask_def fun_eq_iff split: option.splits)
  then show ?thesis by (simp add: afterSend_def sendFrame_def)
qed

lemma sendChunks_sent:
  assumes "plainSync sync" and "list_all (\<lambda>r. length (marshalObservation r) \<le> messageLimit) rs"
    and "runs (sendChunks sync resources start bytes index rs) h res"
    and "rs = drop index resources" and "start \<le> index" and "index \<le> length resources" and "index - start \<le> 500"
    and "bytes = chunkBytes (take (index - start) (drop start resources))" and "bytes \<le> messageLimit + 1"
  shows "sentAs sync (drop start resources) h res"
  using assms(2-)
proof (induction rs arbitrary: start bytes index h)
  case Nil
  then have "index = length resources" by simp
  with Nil have small: "smallChunk sync (drop start resources)" by (intro smallChunkI [OF assms(1)]) simp_all
  show ?case
  proof (cases "start < length resources")
    case True
    have "sentAs sync [] h' None" if "runs (Ret None) h' None" for h'
      using that by (auto simp: sentAs_def snapshotCalls_def)
    moreover from True Nil have "runs (afterSend (SnapshotObjects sync (drop start resources)) (\<lambda>e. Ret (Some e)) (Ret None)) h res"
      by (simp add: sendFrame_as_after)
    ultimately have "sentAs sync (drop start resources @ []) h res"
      by (intro sentAs_send [OF _ small]) (auto simp: sentAs_def snapshotCalls_def)
    then show ?thesis by simp
  next
    case False
    with Nil show ?thesis by (auto simp: sentAs_def snapshotCalls_def)
  qed
next
  case (Cons r rs)
  let ?slice = "take (index - start) (drop start resources)"
  have r: "length (marshalObservation r) \<le> messageLimit" using Cons.prems(1) by simp
  have lt: "index < length resources" using Cons.prems(3) by (metis drop_all linorder_not_le list.distinct(1))
  then have "drop index resources = resources ! index # drop (Suc index) resources" by (simp add: Cons_nth_drop_Suc)
  with Cons.prems(3) have i: "index < length resources" "resources ! index = r" "rs = drop (Suc index) resources"
    using lt by simp_all
  have split: "drop start resources = ?slice @ drop index resources"
    using Cons.prems(4) by (metis append_take_drop_id drop_drop le_add_diff_inverse2)
  show ?case
  proof (cases "index - start = 500 \<or> bytes + length (marshalObservation r) + 1 > messageLimit")
    case True
    with Cons.prems(2) r have "runs (afterSend (SnapshotObjects sync ?slice) (\<lambda>e. Ret (Some e))
        (sendChunks sync resources index (length (marshalObservation r) + 1) (Suc index) rs)) h res"
      by (simp add: Let_def)
    moreover have "smallChunk sync ?slice"
      using Cons.prems by (intro smallChunkI [OF assms(1)]) simp_all
    moreover have "sentAs sync (drop index resources) h' res"
      if "runs (sendChunks sync resources index (length (marshalObservation r) + 1) (Suc index) rs) h' res" for h'
    proof (rule Cons.IH [OF _ that])
      show "length (marshalObservation r) + 1 = chunkBytes (take (Suc index - index) (drop index resources))"
        using i(1,2) by (simp add: take_Suc hd_drop_conv_nth)
    qed (use Cons.prems(1) i r in simp_all)
    ultimately have "sentAs sync (?slice @ drop index resources) h res" by (rule sentAs_send)
    then show ?thesis unfolding split [symmetric] .
  next
    case False
    then have "runs (sendChunks sync resources start (bytes + length (marshalObservation r) + 1) (Suc index) rs) h res"
      using Cons.prems(2) r by (simp add: Let_def)
    then show ?thesis
    proof (rule Cons.IH [rotated])
      show "bytes + length (marshalObservation r) + 1 = chunkBytes (take (Suc index - start) (drop start resources))"
        using Cons.prems(4,7) i(1,2) by (simp add: Suc_diff_le take_Suc_conv_app_nth)
      show "Suc index - start \<le> 500" using Cons.prems(6) False by arith
    qed (use Cons.prems(1,4) i False in simp_all)
  qed
qed

text \<open>C15: When every observation fits a message, as \<open>observation_fits\<close> shows it does, a snapshot is
  sent as messages of at most 500 objects and at most one mebibyte each, whose objects are
  together exactly the inventory, in order; it stops before the end only with the error of the
  stream itself.\<close>

theorem snapshot_chunks:
  assumes "runs (sendSnapshotObjects sync resources) h res" and "plainSync sync"
    and "list_all (\<lambda>r. length (marshalObservation r) \<le> 2 ^ 20 - 512) resources"
  shows "\<exists>chunks. map fst h = map (\<lambda>c. Emit (SnapshotObjects sync c)) chunks \<and>
     list_all (\<lambda>c. length c \<le> 500 \<and> length (marshalFrame (SnapshotObjects sync c)) \<le> 2 ^ 20) chunks \<and>
     (\<exists>more. concat chunks @ more = resources \<and> (res = None \<longrightarrow> more = [])) \<and>
     (\<forall>e. res = Some e \<longrightarrow> h \<noteq> [] \<and> snd (last h) = RSent (Some e))"
proof -
  have "sentAs sync (drop 0 resources) h res"
    by (rule sendChunks_sent [OF assms(2), where index = 0 and rs = resources and bytes = 0]) (use assms in \<open>auto simp: sendSnapshotObjects_def messageLimit_def\<close>)
  then show ?thesis
    unfolding sentAs_def snapshotCalls_def smallChunk_def by simp
qed

section \<open>The stream as Core sees it\<close>

text \<open>The specification of the stream: a monitor follows the requests of a collector and their
  replies. It knows the phase of the stream, the replica that the acknowledged frames build,
  the last reading of the clock, the reading before the last snapshot began, whether the
  watches have been polled without a failure since the last turn, and the health sample of
  this turn.\<close>

datatype phase = Idle | Snapshot string "ResourceObservation list" | Live

record monitor =
  mnPhase :: phase
  mnReplica :: objects
  mnNow :: int
  mnListed :: int
  mnClear :: bool
  mnSample :: "healthResult option"

definition idle :: monitor where
  "idle = \<lparr>mnPhase = Idle, mnReplica = Map.empty, mnNow = 0, mnListed = 0, mnClear = False, mnSample = None\<rparr>"

fun applyFrame :: "monitor \<Rightarrow> frame \<Rightarrow> monitor" where
  "applyFrame m (SnapshotBegin s) = m\<lparr>mnPhase := Snapshot s [], mnListed := mnNow m\<rparr>"
| "applyFrame m (SnapshotObjects s os) =
     (case mnPhase m of Snapshot s' acc \<Rightarrow> m\<lparr>mnPhase := Snapshot s' (acc @ os)\<rparr> | _ \<Rightarrow> m)"
| "applyFrame m (SnapshotEnd s n) =
     (case mnPhase m of
        Snapshot s' acc \<Rightarrow> m\<lparr>mnPhase := Live, mnReplica := map_of (rev (map (\<lambda>r. (objectKey r, r)) acc))\<rparr>
      | _ \<Rightarrow> m)"
| "applyFrame m (Upsert r) = m\<lparr>mnReplica := (mnReplica m)(objectKey r \<mapsto> r)\<rparr>"
| "applyFrame m (Delete ns n u) =
     m\<lparr>mnReplica := (\<lambda>k. if k = ns @ ''/'' @ n \<and> (\<exists>r. mnReplica m k = Some r \<and> UID r = u) then None else mnReplica m k)\<rparr>"
| "applyFrame m Heartbeat = m"
| "applyFrame m (HealthFrame ns n u v st) = m"

fun observe :: "monitor \<Rightarrow> oreq \<Rightarrow> orep \<Rightarrow> monitor" where
  "observe m (PostStream u t) r = m\<lparr>mnPhase := Idle\<rparr>"
| "observe m TimeNow (RTime t) = m\<lparr>mnNow := t\<rparr>"
| "observe m PollFailures (RFlag failed) = m\<lparr>mnClear := \<not> failed\<rparr>"
| "observe m SelectCase (RSelected c) = m\<lparr>mnClear := False, mnSample := (case c of SampleReady s \<Rightarrow> Some s | _ \<Rightarrow> None)\<rparr>"
| "observe m (Emit f) (RSent None) = applyFrame m f"
| "observe m q r = m"

text \<open>When a frame is allowed. Every frame fits the protocol's limit. A snapshot is not begun
  inside another one, its messages and its end carry its identifier, and the end counts the
  objects that were sent. A heartbeat, which tells Core that the replica is still maintained,
  needs a list less than 60 seconds old and watches that were polled after the tick and had
  not failed. A health sample is less than two seconds old and about a running object of the
  replica, with exactly its version, that no App instance owns.\<close>

definition frameAllowed :: "monitor \<Rightarrow> frame \<Rightarrow> bool" where
  "frameAllowed m f \<longleftrightarrow> length (marshalFrame f) \<le> 2 ^ 20 \<and>
     (case f of
        SnapshotBegin s \<Rightarrow> (\<forall>s' acc. mnPhase m \<noteq> Snapshot s' acc)
      | SnapshotObjects s os \<Rightarrow> (\<exists>acc. mnPhase m = Snapshot s acc)
      | SnapshotEnd s n \<Rightarrow> (\<exists>acc. mnPhase m = Snapshot s acc \<and> n = int (length acc))
      | Upsert r \<Rightarrow> mnPhase m = Live \<and> \<not> Deleted r
      | Delete ns n u \<Rightarrow> mnPhase m = Live
      | Heartbeat \<Rightarrow> mnPhase m = Live \<and> mnNow m < mnListed m + 60 * second \<and> mnClear m
      | HealthFrame ns n u v st \<Rightarrow> mnPhase m = Live \<and>
          (\<exists>r. mnReplica m (ns @ ''/'' @ n) = Some r \<and> UID r = u \<and> ResourceVersion r = v \<and> InstanceID r = [] \<and>
            \<not> Terminating r \<and> \<not> Deleted r \<and> Desired r > 0) \<and>
          (\<exists>s. mnSample m = Some s \<and> f = sampleFrame s \<and> mnNow m - hrAt s < 2 * second))"

definition allowedCall :: "monitor \<Rightarrow> oreq \<Rightarrow> bool" where
  "allowedCall m q = (case q of Emit f \<Rightarrow> frameAllowed m f | _ \<Rightarrow> True)"

definition monitored :: "monitor \<Rightarrow> oreq \<Rightarrow> orep \<Rightarrow> monitor \<Rightarrow> bool" where
  "monitored m q r m' \<longleftrightarrow> m' = observe m q r"

lemma allowedCall_simps [simp]:
  "allowedCall m (Emit f) = frameAllowed m f" "allowedCall m (PostStream u t)" "allowedCall m AwaitHello"
  "allowedCall m (ListPage ns c)" "allowedCall m TimeNow" "allowedCall m NewSyncID" "allowedCall m (StartWatch ns v)"
  "allowedCall m PollFailures" "allowedCall m SelectCase" "allowedCall m CtxErr" "allowedCall m (RandomIntN n)"
  "allowedCall m (WaitTimer d)"
  by (simp_all add: allowedCall_def)

abbreviation "conforms Q \<equiv> holds allowedCall monitored Q"

lemma conforms_ask [simp]:
  "conforms Q m (ask q as k) \<longleftrightarrow> allowedCall m q \<and> (\<forall>r x. as r = Some x \<longrightarrow> conforms Q (observe m q r) (k x))"
  by (simp add: monitored_def)

declare holds_ask [simp del]

lemma observe_send [simp]: "observe m (Emit f) (RSent (Some e)) = m"
  by simp

text \<open>Sending: the frame must be allowed, size apart; on success the frame has been applied.\<close>

lemma conforms_afterSend:
  assumes "length (marshalFrame f) \<le> 2 ^ 20 \<Longrightarrow> frameAllowed m f" and "\<And>e. conforms Q m (onError e)"
    and "length (marshalFrame f) \<le> 2 ^ 20 \<Longrightarrow> conforms Q (applyFrame m f) k"
  shows "conforms Q m (afterSend f onError k)"
  using assms by (auto simp: afterSend_def sendFrame_def split: option.split)

text \<open>The objects of the health round are the replica.\<close>

lemma healthObjects_map_of: "healthObjects rs = map_of (rev (map (\<lambda>r. (objectKey r, r)) rs))"
proof -
  have "foldl (\<lambda>m r. m(objectKey r \<mapsto> r)) M rs = M ++ map_of (rev (map (\<lambda>r. (objectKey r, r)) rs))" for M
    by (induction rs arbitrary: M) (simp_all add: map_add_assoc fun_eq_iff map_add_def split: option.splits)
  then show ?thesis by (simp add: healthObjects_def)
qed

lemma updateObjects_replica:
  "mnReplica (applyFrame m (updateFrame r)) = updateObjects (mnReplica m) r"
  by (auto simp: updateFrame_def updateObjects_def objectKey_def fun_eq_iff Let_def split: option.splits)

section \<open>Every frame is allowed\<close>

definition live :: "monitor \<Rightarrow> int \<Rightarrow> objects \<Rightarrow> bool" where
  "live m listedAt objs \<longleftrightarrow> mnPhase m = Live \<and> mnReplica m = objs \<and> mnListed m = listedAt"

lemma live_simps [simp]:
  "live (m\<lparr>mnNow := t\<rparr>) l objs = live m l objs" "live (m\<lparr>mnClear := b\<rparr>) l objs = live m l objs"
  "live (m\<lparr>mnSample := s\<rparr>) l objs = live m l objs"
  by (simp_all add: live_def)

lemma live_update: "live m l objs \<Longrightarrow> live (applyFrame m (updateFrame r)) l (updateObjects objs r)"
  using updateObjects_replica [of m r] by (auto simp: live_def updateFrame_def)

text \<open>Between snapshots a new one may begin.\<close>

definition betweenSnapshots :: "monitor \<Rightarrow> bool" where
  "betweenSnapshots m \<longleftrightarrow> (\<forall>s acc. mnPhase m \<noteq> Snapshot s acc)"

lemma live_between: "live m l objs \<Longrightarrow> betweenSnapshots m"
  by (simp add: live_def betweenSnapshots_def)

text \<open>The three turns that send a frame, continued by \<open>k\<close>.\<close>

lemma heartbeat_turn:
  assumes "live m l objs" and "\<And>m'. live m' l objs \<Longrightarrow> conforms (\<lambda>m' _. betweenSnapshots m') m' k"
  shows "conforms (\<lambda>m' _. betweenSnapshots m') m
    (ask TimeNow asTime (\<lambda>now.
       if \<not> now < l + 60 * second then Ret Resynced
       else ask PollFailures asFlag (\<lambda>failed.
         if failed then Ret Resynced else afterSend Heartbeat (\<lambda>e. Ret (Failed e)) k)))"
proof -
  have "conforms (\<lambda>m' _. betweenSnapshots m') (m\<lparr>mnNow := now, mnClear := True\<rparr>) (afterSend Heartbeat (\<lambda>e. Ret (Failed e)) k)"
    if "now < l + 60 * second" for now
    using assms that
    by (intro conforms_afterSend) (auto simp: frameAllowed_def live_def betweenSnapshots_def)
  then show ?thesis using live_between [OF assms(1)] by (auto simp: betweenSnapshots_def)
qed

lemma update_turn:
  assumes "live m l objs" and "\<And>m'. live m' l (updateObjects objs r) \<Longrightarrow> conforms (\<lambda>m' _. betweenSnapshots m') m' k"
  shows "conforms (\<lambda>m' _. betweenSnapshots m') m (afterSend (updateFrame r) (\<lambda>e. Ret (Failed e)) k)"
  using assms live_between [OF assms(1)] live_update [OF assms(1), of r]
  by (intro conforms_afterSend) (auto simp: frameAllowed_def live_def updateFrame_def)

lemma sample_turn:
  assumes "live m l objs" and "mnSample m = Some s"
    and "\<And>m'. live m' l objs \<Longrightarrow> conforms (\<lambda>m' _. betweenSnapshots m') m' k"
  shows "conforms (\<lambda>m' _. betweenSnapshots m') m
    (if currentObject objs s then
       ask TimeNow asTime (\<lambda>now.
         if now - hrAt s < 2 * second then afterSend (sampleFrame s) (\<lambda>e. Ret (Failed e)) k else k)
     else k)"
proof -
  have "conforms (\<lambda>m' _. betweenSnapshots m') (m\<lparr>mnNow := now\<rparr>) (afterSend (sampleFrame s) (\<lambda>e. Ret (Failed e)) k)"
    if "now - hrAt s < 2 * second" and "currentObject objs s" for now
  proof (rule conforms_afterSend)
    show "frameAllowed (m\<lparr>mnNow := now\<rparr>) (sampleFrame s)" if "length (marshalFrame (sampleFrame s)) \<le> 2 ^ 20"
      using that \<open>now - hrAt s < 2 * second\<close> \<open>currentObject objs s\<close> assms(1,2)
      by (auto simp: frameAllowed_def sampleFrame_def currentObject_def live_def split: option.splits)
  qed (use assms live_between [OF assms(1)] in \<open>auto simp: sampleFrame_def betweenSnapshots_def\<close>)
  then show ?thesis using assms by auto
qed

lemma handleCase_conforms:
  assumes "live m l objs" and "mnSample m = (case c of SampleReady s \<Rightarrow> Some s | _ \<Rightarrow> None)"
    and k: "\<And>m' objs'. live m' l objs' \<Longrightarrow> conforms (\<lambda>m' _. betweenSnapshots m') m' (k objs')"
  shows "conforms (\<lambda>m' _. betweenSnapshots m') m (handleCase l objs k c)"
proof (cases c)
  case HeartbeatTick
  with heartbeat_turn [OF assms(1) k] show ?thesis by (simp add: handleCase_def)
next
  case (UpdateReady r)
  with update_turn [OF assms(1) k] show ?thesis by (simp add: handleCase_def)
next
  case (SampleReady s)
  with sample_turn [OF assms(1) _ k] assms(2) show ?thesis by (simp add: handleCase_def)
qed (use live_between [OF assms(1)] in \<open>simp_all add: handleCase_def split: option.split\<close>)

lemma selectLoop_conforms:
  "live m l objs \<Longrightarrow> conforms (\<lambda>m' _. betweenSnapshots m') m (selectLoop n l objs)"
proof (induction n arbitrary: m objs)
  case 0
  then show ?case by (simp add: live_between)
next
  case (Suc n)
  have "live (m\<lparr>mnClear := b\<rparr>) l objs" "live (m\<lparr>mnClear := b, mnSample := s\<rparr>) l objs" for b s
    using Suc.prems by simp_all
  with live_between Suc.IH show ?case by (auto intro!: handleCase_conforms)
qed

text \<open>A snapshot under way: what has been sent is what precedes \<open>start\<close>.\<close>

definition sending :: "monitor \<Rightarrow> string \<Rightarrow> int \<Rightarrow> ResourceObservation list \<Rightarrow> bool" where
  "sending m sync l sent \<longleftrightarrow> mnPhase m = Snapshot sync sent \<and> mnListed m = l"

lemma sending_objects:
  "sending m sync l sent \<Longrightarrow> sending (applyFrame m (SnapshotObjects sync os)) sync l (sent @ os)"
  by (simp add: sending_def)

lemma sending_allowed:
  "sending m sync l sent \<Longrightarrow> length (marshalFrame (SnapshotObjects sync os)) \<le> 2 ^ 20 \<Longrightarrow> frameAllowed m (SnapshotObjects sync os)"
  by (simp add: sending_def frameAllowed_def)

lemma conforms_If: "conforms Q m (if b then p else p') = (if b then conforms Q m p else conforms Q m p')"
  by simp

lemma sendChunks_conforms:
  assumes "sending m sync l (take start resources)" and "rs = drop index resources" and "start \<le> index"
  shows "conforms (\<lambda>m' e. e = None \<longrightarrow> sending m' sync l resources) m (sendChunks sync resources start bytes index rs)"
  using assms
proof (induction rs arbitrary: m start bytes index)
  case Nil
  show ?case
  proof (cases "start < length resources")
    case True
    have "sending (applyFrame m (SnapshotObjects sync (drop start resources))) sync l resources"
      using sending_objects [OF Nil.prems(1), of "drop start resources"] by simp
    then show ?thesis
      using True sending_allowed [OF Nil.prems(1)] unfolding sendChunks.simps sendFrame_as_after
      by (auto intro!: conforms_afterSend)
  next
    case False
    with Nil.prems(1) show ?thesis by simp
  qed
next
  case (Cons r rs)
  let ?slice = "take (index - start) (drop start resources)"
  have rs: "rs = drop (Suc index) resources" using Cons.prems(2) by (metis drop_Suc list.sel(3) tl_drop)
  have "take start resources @ ?slice = take index resources"
    using Cons.prems(3) by (metis le_add_diff_inverse take_add)
  with sending_objects [OF Cons.prems(1), of ?slice]
  have "sending (applyFrame m (SnapshotObjects sync ?slice)) sync l (take index resources)" by simp
  note IH = Cons.IH [OF this rs] Cons.IH [OF Cons.prems(1) rs]
  let ?Q = "\<lambda>m' e. e = None \<longrightarrow> sending m' sync l resources"
  have "conforms ?Q m (afterSend (SnapshotObjects sync ?slice) (\<lambda>e. Ret (Some e)) (sendChunks sync resources index b (Suc index) rs))" for b
    by (rule conforms_afterSend) (use sending_allowed [OF Cons.prems(1)] IH(1) in \<open>simp_all\<close>)
  moreover have "conforms ?Q m (sendChunks sync resources start b (Suc index) rs)" for b
    using IH(2) Cons.prems(3) by simp
  ultimately show ?case
    by (simp only: sendChunks.simps Let_def conforms_If holds.simps option.distinct simp_thms if_cancel)
qed

text \<open>Calls that neither send nor change what the monitor follows.\<close>

definition silent :: "oreq \<Rightarrow> bool" where
  "silent q \<longleftrightarrow> (\<exists>ns c. q = ListPage ns c) \<or> (\<exists>ns v. q = StartWatch ns v)"

lemma silent_conforms: "onlyCalls silent p \<Longrightarrow> conforms (\<lambda>m' a. m' = m) m p"
proof -
  assume "onlyCalls silent p"
  moreover have "returns (\<lambda>_. True) p" by (simp add: returns_iff)
  ultimately have "conforms (\<lambda>m' a. m' = m \<and> True) m p"
    by (rule holds_reads) (auto simp: silent_def monitored_def)
  then show ?thesis by simp
qed

lemma listPages_silent: "onlyCalls silent (listPages calls ns next pages st)"
  by (induction calls arbitrary: "next" pages st) (auto simp: silent_def split: option.split)

lemma inventory_silent: "onlyCalls silent (inventory calls nss)"
proof -
  have "onlyCalls silent (listNamespaces calls st nss)" for calls st
    by (induction nss arbitrary: calls st) (auto intro!: onlyCalls_thenP listPages_silent)
  then show ?thesis unfolding inventory_def by (intro onlyCalls_thenP) auto
qed

lemma startWatches_silent: "onlyCalls silent (startWatches versions nss)"
  by (induction nss) (auto simp: silent_def)

lemma conforms_silent_bind:
  assumes "onlyCalls silent p" and "\<And>a. conforms Q m (f a)"
  shows "conforms Q m (bindP p f)"
  unfolding holds_bindP by (rule holds_mono [OF silent_conforms [OF assms(1)]]) (use assms(2) in simp)

definition roundDone :: "monitor \<Rightarrow> outcome \<Rightarrow> bool" where
  "roundDone m r \<longleftrightarrow> (r = Resynced \<longrightarrow> betweenSnapshots m)"

lemma snapshot_live:
  assumes "sending m sync l resources"
  shows "live (applyFrame m (SnapshotEnd sync n)) l (healthObjects resources)"
    and "length (marshalFrame (SnapshotEnd sync (int (length resources)))) \<le> 2 ^ 20 \<Longrightarrow>
      frameAllowed m (SnapshotEnd sync (int (length resources)))"
  using assms by (simp_all add: sending_def live_def healthObjects_map_of frameAllowed_def)

text \<open>The part of a round behind its first frame.\<close>

lemma snapshot_conforms:
  assumes "sending m sync l []"
  shows "conforms roundDone m
    (bindP (sendSnapshotObjects sync resources) (\<lambda>err. case err of
       Some e \<Rightarrow> Ret (Failed e)
     | None \<Rightarrow>
         afterSend (SnapshotEnd sync (int (length resources))) (\<lambda>e. Ret (Failed e))
         (bindP (startWatches versions nss) (\<lambda>err. case err of
            Some e \<Rightarrow> Ret (Failed e)
          | None \<Rightarrow> selectLoop n l (healthObjects resources)))))"
  unfolding holds_bindP [of _ _ _ _ "sendSnapshotObjects sync resources"]
proof (rule holds_mono)
  show "conforms (\<lambda>m' e. e = None \<longrightarrow> sending m' sync l resources) m (sendSnapshotObjects sync resources)"
    unfolding sendSnapshotObjects_def by (rule sendChunks_conforms) (use assms in simp_all)
next
  fix m' :: monitor and err :: "stateErr option"
  assume "err = None \<longrightarrow> sending m' sync l resources"
  moreover have "conforms roundDone m'' (bindP (startWatches versions nss) (\<lambda>err. case err of
      Some e \<Rightarrow> Ret (Failed e) | None \<Rightarrow> selectLoop n l (healthObjects resources)))"
    if "live m'' l (healthObjects resources)" for m''
    using holds_mono [OF selectLoop_conforms [OF that, of n], of roundDone]
    by (intro conforms_silent_bind [OF startWatches_silent]) (auto simp: roundDone_def split: option.split)
  ultimately show "conforms roundDone m' (case err of
      Some e \<Rightarrow> Ret (Failed e)
    | None \<Rightarrow> afterSend (SnapshotEnd sync (int (length resources))) (\<lambda>e. Ret (Failed e))
        (bindP (startWatches versions nss) (\<lambda>err. case err of
           Some e \<Rightarrow> Ret (Failed e) | None \<Rightarrow> selectLoop n l (healthObjects resources))))"
    using snapshot_live by (auto simp: roundDone_def split: option.split intro!: conforms_afterSend)
qed

lemma syncRound_conforms:
  assumes "betweenSnapshots m"
  shows "conforms roundDone m (syncRound B ob)"
proof -
  have start: "conforms roundDone (m\<lparr>mnNow := t\<rparr>) (afterSend (SnapshotBegin sync) (\<lambda>e. Ret (Failed e)) k)"
    if "\<And>m'. sending m' sync t [] \<Longrightarrow> conforms roundDone m' k" for sync t k
    using assms that
    by (intro conforms_afterSend) (auto simp: frameAllowed_def betweenSnapshots_def roundDone_def sending_def)
  show ?thesis
    unfolding syncRound_def
    by (rule conforms_silent_bind [OF inventory_silent])
      (auto simp: roundDone_def [of m] split: sum.split intro!: start snapshot_conforms)
qed

lemma rounds_conforms: "betweenSnapshots m \<Longrightarrow> conforms (\<lambda>_ _. True) m (rounds n B ob)"
proof (induction n arbitrary: m)
  case (Suc n)
  show ?case
    unfolding rounds.simps holds_bindP
    by (rule holds_mono [OF syncRound_conforms [OF Suc.prems]]) (auto simp: roundDone_def Suc.IH split: outcome.split)
qed simp

lemma session_conforms: "conforms (\<lambda>_ _. True) m (session B L ob)"
proof -
  have "conforms (\<lambda>m' r. r = None \<longrightarrow> betweenSnapshots m') m (Open L c)" for c
    by (auto simp: Open_def betweenSnapshots_def split: option.split)
  then have "conforms (\<lambda>_ _. True) m (bindP (Open L (obsCore ob)) (\<lambda>r. case r of
      Some e \<Rightarrow> Ret (Some e) | None \<Rightarrow> rounds (maxRounds B) B ob))"
    unfolding holds_bindP by (rule holds_mono) (auto intro: rounds_conforms split: option.split)
  then show ?thesis by (simp add: session_def)
qed

text \<open>C4: In every run of the collector, with every reply of the cluster, of Core and of the clock, each
  frame that is sent is allowed by the monitor of the stream: protocol order, sizes, counts, and
  the freshness of heartbeats and of health samples. \<open>holds\<close> quantifies over all runs and all
  their prefixes (\<open>holds_issues\<close>).\<close>

theorem Run_frames_allowed: "holds allowedCall monitored (\<lambda>_ _. True) idle (Run n B L ob)"
proof -
  have "conforms (\<lambda>_ _. True) m (runLoop n B L ob delay)" for m ob delay
  proof (induction n arbitrary: m delay)
    case (Suc n)
    have "conforms (\<lambda>_ _. True) m (bindP (session B L ob) f)" if "\<And>m r. conforms (\<lambda>_ _. True) m (f r)" for m and f :: "_ \<Rightarrow> stateErr option oprog"
      unfolding holds_bindP by (rule holds_mono [OF session_conforms]) (rule that)
    then show ?case by (simp add: Suc.IH split: option.split prod.split)
  qed simp
  then show ?thesis by (simp add: Run_def split: option.split)
qed

section \<open>The reconnect loop\<close>

text \<open>The errors of a session other than the busy answer of the handshake.\<close>

definition plainError :: "stateErr option \<Rightarrow> bool" where
  "plainError r \<longleftrightarrow> (\<forall>d. r \<noteq> Some (Busy d))"

definition busyRange :: "stateErr option \<Rightarrow> bool" where
  "busyRange r \<longleftrightarrow> (\<forall>d. r = Some (Busy d) \<longrightarrow> second \<le> d \<and> d \<le> 30 * second)"

definition plainOutcome :: "outcome \<Rightarrow> bool" where
  "plainOutcome r \<longleftrightarrow> (\<forall>d. r \<noteq> Failed (Busy d))"

lemma plain_simps [simp]:
  "plainError None" "plainError (Some e) \<longleftrightarrow> (\<forall>d. e \<noteq> Busy d)"
  "plainOutcome Running" "plainOutcome Resynced" "plainOutcome (Failed e) \<longleftrightarrow> (\<forall>d. e \<noteq> Busy d)"
  by (simp_all add: plainError_def plainOutcome_def)

lemma streamFailure_plain: "streamFailure r \<Longrightarrow> plainError r"
  by (auto simp: streamFailure_def plainError_def)

lemma returns_afterSend:
  assumes "\<And>e. plainError (Some e) \<Longrightarrow> returns Q (onError e)" and "returns Q k"
  shows "returns Q (afterSend f onError k)"
  using assms streamFailure_plain
  by (auto simp: afterSend_def sendFrame_def returns_bindP plainError_def split: option.split)

lemma returns_selectLoop: "returns plainOutcome (selectLoop n l m)"
proof (induction n arbitrary: m)
  case (Suc n)
  have ok: "returns plainOutcome (afterSend f (\<lambda>e. Ret (Failed e)) (selectLoop n l m'))" for f m'
    by (rule returns_afterSend) (use Suc in auto)
  have "returns plainOutcome (handleCase l m (selectLoop n l) c)" if "selectable c" for c
    using that ok Suc
    by (auto simp: handleCase_def selectable_def streamFailure_def split: selected.split option.split)
  then show ?case by auto
qed simp

lemma returns_sendChunks: "returns plainError (sendChunks sync resources start bytes index rs)"
proof (induction rs arbitrary: start bytes index)
  case Nil
  then show ?case by (auto simp: sendFrame_def streamFailure_def)
next
  case (Cons r rs)
  then show ?case by (auto simp: Let_def intro!: returns_afterSend)
qed

lemma returns_inventory: "returns (\<lambda>r. \<forall>d. r \<noteq> Inl (Busy d)) (inventory calls nss)"
proof -
  have take: "takeItems ns st ds = Inl e \<Longrightarrow> e \<noteq> Busy d" for ns st ds e d
    by (induction ns st ds rule: takeItems.induct) (auto simp: Let_def reject_def split: if_splits)
  have pages: "returns (\<lambda>r. \<forall>d. r \<noteq> Inl (Busy d)) (listPages calls ns nxt pages st)" for calls ns nxt pages st
    by (induction calls arbitrary: nxt pages st) (auto dest: take split: option.split sum.split)
  have "returns (\<lambda>r. \<forall>d. r \<noteq> Inl (Busy d)) (listNamespaces calls st nss)" for calls st
  proof (induction nss arbitrary: calls st)
    case (Cons ns nss)
    show ?case
      unfolding listNamespaces.simps thenP_def returns_bindP
      by (rule returns_mono [OF pages]) (auto simp: Cons split: sum.split)
  qed simp
  then show ?thesis
    unfolding inventory_def thenP_def returns_bindP by (rule returns_mono) (auto split: sum.split)
qed

lemma returns_startWatches: "returns plainError (startWatches versions nss)"
  by (induction nss) (auto simp: plainError_def)

lemma returns_syncRound: "returns plainOutcome (syncRound B ob)"
proof -
  have send: "returns plainOutcome k \<Longrightarrow> returns plainOutcome (afterSend f (\<lambda>e. Ret (Failed e)) k)" for f k
    by (rule returns_afterSend) (auto simp: plainOutcome_def plainError_def)
  have seq: "returns plainOutcome (bindP p (\<lambda>err. case err of Some e \<Rightarrow> Ret (Failed e) | None \<Rightarrow> k))"
    if "returns plainError p" and "returns plainOutcome k" for p k
    unfolding returns_bindP using that(2)
    by (intro returns_mono [OF that(1)]) (auto simp: plainOutcome_def plainError_def split: option.split)
  have "returns plainOutcome (afterSend (SnapshotBegin sync) (\<lambda>e. Ret (Failed e))
      (bindP (sendSnapshotObjects sync rs) (\<lambda>err. case err of Some e \<Rightarrow> Ret (Failed e) | None \<Rightarrow>
        afterSend (SnapshotEnd sync (int (length rs))) (\<lambda>e. Ret (Failed e))
        (bindP (startWatches vs nss) (\<lambda>err. case err of Some e \<Rightarrow> Ret (Failed e) | None \<Rightarrow> selectLoop n t (healthObjects rs))))))"
    for sync rs vs nss n t
    unfolding sendSnapshotObjects_def
    by (intro send seq returns_sendChunks returns_startWatches returns_selectLoop)
  then show ?thesis
    unfolding syncRound_def returns_bindP
    by (intro returns_mono [OF returns_inventory]) (auto simp: plainOutcome_def [of "Failed _"] split: sum.split)
qed

lemma returns_rounds: "returns plainError (rounds n B ob)"
proof (induction n)
  case (Suc n)
  show ?case
    unfolding rounds.simps returns_bindP
    by (intro returns_mono [OF returns_syncRound]) (auto simp: plainOutcome_def plainError_def [of "Some _"] plainError_def [of None] Suc split: outcome.split)
qed (simp add: plainError_def)

lemma returns_session: "returns busyRange (session B L ob)"
proof -
  have weak: "plainError r \<Longrightarrow> busyRange r" for r by (simp add: plainError_def busyRange_def)
  have "returns busyRange (Open L c)" for c
    using refusal_kinds(1) [of L] by (auto simp: Open_def busyRange_def streamFailure_def split: option.split)
  then have "returns busyRange (bindP (Open L (obsCore ob)) (\<lambda>r. case r of
      Some e \<Rightarrow> Ret (Some e) | None \<Rightarrow> rounds (maxRounds B) B ob))"
    unfolding returns_bindP
    by (rule returns_mono) (auto simp: returns_mono [OF returns_rounds weak] split: option.split)
  then show ?thesis by (simp add: session_def busyRange_def)
qed

text \<open>A session never waits; the loop around it waits between one second and thirty and a quarter.\<close>

definition waitBounded :: "oreq \<Rightarrow> bool" where
  "waitBounded q = (case q of WaitTimer d \<Rightarrow> second \<le> d \<and> d < 30 * second + 250 * millisecond | _ \<Rightarrow> True)"

lemma waitBounded_simps [simp]:
  "waitBounded (Emit f)" "waitBounded (PostStream u t)" "waitBounded AwaitHello"
  "waitBounded (ListPage ns c)" "waitBounded TimeNow" "waitBounded NewSyncID" "waitBounded (StartWatch ns v)"
  "waitBounded PollFailures" "waitBounded SelectCase" "waitBounded CtxErr" "waitBounded (RandomIntN n)"
  "waitBounded (WaitTimer d) \<longleftrightarrow> second \<le> d \<and> d < 30 * second + 250 * millisecond"
  by (simp_all add: waitBounded_def)

lemma onlyCalls_bind_returns:
  "onlyCalls P p \<Longrightarrow> returns Q p \<Longrightarrow> (\<And>a. Q a \<Longrightarrow> onlyCalls P (f a)) \<Longrightarrow> onlyCalls P (bindP p f)"
  by (induction p) auto

lemma waits_silent: "onlyCalls silent p \<Longrightarrow> onlyCalls waitBounded p"
  by (erule onlyCalls_mono) (auto simp: silent_def)

lemma waits_afterSend: "(\<And>e. onlyCalls waitBounded (onError e)) \<Longrightarrow> onlyCalls waitBounded k \<Longrightarrow> onlyCalls waitBounded (afterSend f onError k)"
  by (auto simp: afterSend_def sendFrame_def split: option.split)

lemma waits_selectLoop: "onlyCalls waitBounded (selectLoop n l m)"
proof (induction n arbitrary: m)
  case (Suc n)
  have "onlyCalls waitBounded (handleCase l m (selectLoop n l) c)" for c
    using Suc by (auto simp: handleCase_def split: selected.split option.split intro!: waits_afterSend)
  then show ?case by auto
qed simp

lemma waits_sendChunks: "onlyCalls waitBounded (sendChunks sync resources start bytes index rs)"
  by (induction rs arbitrary: start bytes index) (auto simp: Let_def sendFrame_def intro!: waits_afterSend)

lemma waits_syncRound: "onlyCalls waitBounded (syncRound B ob)"
  unfolding syncRound_def sendSnapshotObjects_def
  by (intro onlyCalls_bindP waits_silent [OF inventory_silent])
    (auto split: sum.split option.split
      intro!: waits_afterSend onlyCalls_bindP waits_sendChunks waits_silent [OF startWatches_silent] waits_selectLoop)

lemma waits_session: "onlyCalls waitBounded (session B L ob)"
proof -
  have "onlyCalls waitBounded (rounds n B ob)" for n
    by (induction n) (auto intro!: onlyCalls_bindP waits_syncRound split: outcome.split)
  moreover have "onlyCalls waitBounded (Open L c)" for c
    by (auto simp: Open_def split: option.split)
  ultimately show ?thesis by (auto simp: session_def intro!: onlyCalls_bindP split: option.split)
qed

lemma backoff_bounds:
  assumes "second \<le> delay" and "delay \<le> 10 * second" and "busyRange (Some err)" and "backoff delay elapsed err = (wait, delay')"
  shows "second \<le> wait \<and> wait \<le> 30 * second \<and> second \<le> delay' \<and> delay' \<le> 10 * second"
  using assms by (auto simp: backoff_def busyRange_def second_def Let_def split: stateErr.splits if_splits)



end
