(* ===== verification/StateWatch.thy ===== *)
theory StateWatch
  imports StateSession
begin

text \<open>
  The goroutines beside a session: the watch streams of \<^verbatim>\<open>observer.go\<close> (\<^verbatim>\<open>watch\<close>), which feed a
  channel of 256 updates and a channel of one failure, and the health probes of
  \<^verbatim>\<open>health.go\<close> (\<^verbatim>\<open>startHealthRound\<close>), which share a semaphore of four and a channel with one
  place per target. Both are step relations: each rule is what one goroutine, or the session
  on the other end of the channels, does between two points where the scheduler may switch.
\<close>

section \<open>Watching\<close>

text \<open>An event of a watch; \<open>None\<close> is an object that is no Deployment.\<close>

record watchEvent =
  weType :: string
  weObject :: "Deployment option"

datatype eventAction = Ignore | Refuse | Push ResourceObservation

definition classifyEvent :: "string \<Rightarrow> watchEvent \<Rightarrow> eventAction" where
  "classifyEvent ns ev =
     (if weType ev = ''BOOKMARK'' then Ignore
      else if weType ev \<noteq> ''ADDED'' \<and> weType ev \<noteq> ''MODIFIED'' \<and> weType ev \<noteq> ''DELETED'' then Refuse
      else (case weObject ev of
          None \<Rightarrow> Refuse
        | Some d \<Rightarrow>
            if dNamespace d \<noteq> ns \<or> dUID d = [] \<or> dResourceVersion d = [] then Refuse
            else Push (observation d (weType ev = ''DELETED''))))"

text \<open>The channels and the goroutines, one per namespace, that still run. The last four fields
  record the past: the valid events the streams have delivered, the updates the session has
  received, and whether a failure was ever put into, or received from, its channel.\<close>

record watchState =
  wsRunning :: "string set"
  wsUpdates :: "ResourceObservation list"
  wsFailure :: bool
  wsDelivered :: "ResourceObservation list"
  wsReceived :: "ResourceObservation list"
  wsSignalled :: bool
  wsResynced :: bool

definition startWatch :: "string list \<Rightarrow> watchState" where
  "startWatch nss = \<lparr>wsRunning = set nss, wsUpdates = [], wsFailure = False, wsDelivered = [], wsReceived = [],
     wsSignalled = False, wsResynced = False\<rparr>"

text \<open>\<^verbatim>\<open>fail\<close> and the return behind it: a full failure channel already holds one.\<close>

definition failWatch :: "string \<Rightarrow> watchState \<Rightarrow> watchState" where
  "failWatch ns s = s\<lparr>wsFailure := True, wsSignalled := True, wsRunning := wsRunning s - {ns}\<rparr>"

definition deliverEvent :: "string \<Rightarrow> watchEvent \<Rightarrow> watchState \<Rightarrow> watchState" where
  "deliverEvent ns ev s =
     (case classifyEvent ns ev of
        Ignore \<Rightarrow> s
      | Refuse \<Rightarrow> failWatch ns s
      | Push r \<Rightarrow>
          (let s1 = s\<lparr>wsDelivered := wsDelivered s @ [r]\<rparr> in
           if length (wsUpdates s) < 256 then s1\<lparr>wsUpdates := wsUpdates s @ [r]\<rparr> else failWatch ns s1))"

inductive watchStep :: "watchState \<Rightarrow> watchState \<Rightarrow> bool" where
  event: "ns \<in> wsRunning s \<Longrightarrow> watchStep s (deliverEvent ns ev s)"
| closed: "ns \<in> wsRunning s \<Longrightarrow> watchStep s (failWatch ns s)"
| cancelled: "watchStep s (s\<lparr>wsRunning := wsRunning s - {ns}\<rparr>)"
| receiveUpdate: "wsUpdates s = r # rs \<Longrightarrow> watchStep s (s\<lparr>wsUpdates := rs, wsReceived := wsReceived s @ [r]\<rparr>)"
| receiveFailure: "wsFailure s \<Longrightarrow> watchStep s (s\<lparr>wsFailure := False, wsResynced := True\<rparr>)"

definition watchInv :: "watchState \<Rightarrow> bool" where
  "watchInv s \<longleftrightarrow> length (wsUpdates s) \<le> 256 \<and> (wsSignalled s \<longleftrightarrow> wsFailure s \<or> wsResynced s) \<and>
     (wsSignalled s \<or> wsDelivered s = wsReceived s @ wsUpdates s)"

lemma watchInv_start: "watchInv (startWatch nss)"
  by (simp add: watchInv_def startWatch_def)

lemma watchInv_step: "watchStep s s' \<Longrightarrow> watchInv s \<Longrightarrow> watchInv s'"
  by (induction rule: watchStep.induct)
    (auto simp: watchInv_def deliverEvent_def failWatch_def Let_def split: eventAction.splits)

lemma watchInv_reachable: "watchStep\<^sup>*\<^sup>* (startWatch nss) s \<Longrightarrow> watchInv s"
  by (induction rule: rtranclp_induct) (auto intro: watchInv_start watchInv_step)


section \<open>Probing\<close>

definition healthEligible :: "ResourceObservation \<Rightarrow> HealthTarget \<Rightarrow> bool" where
  "healthEligible r t \<longleftrightarrow> Namespace r = htNamespace t \<and> Name r = WorkloadName t \<and> UID r = WorkloadUID t \<and>
     InstanceID r = [] \<and> \<not> Deleted r \<and> \<not> Terminating r \<and> Desired r > 0"

definition probeEndpoint :: "HealthTarget \<Rightarrow> string" where
  "probeEndpoint t = ''http://'' @ ServiceName t @ ''.'' @ htNamespace t @ ''.svc:'' @ showInt (htPort t) @ htPath t"

text \<open>The state a probe reports: its reply is the status code of the response, \<open>None\<close> without one.\<close>

definition probeHealth :: "HealthTarget \<Rightarrow> (string \<Rightarrow> int option) \<Rightarrow> string" where
  "probeHealth t http =
     (case parseURL (probeEndpoint t) of
        None \<Rightarrow> ''failed''
      | Some _ \<Rightarrow>
          (case http (probeEndpoint t) of
             None \<Rightarrow> ''failed''
           | Some status \<Rightarrow> if status \<ge> 200 \<and> status < 300 then ''ready'' else ''failed''))"

text \<open>Where the goroutine of a target is: before the semaphore, inside it, probing the object it
  has read, asleep, or returned.\<close>

datatype probePhase = Waiting | Holding | Probing ResourceObservation | Sleeping | Exited

record healthRound =
  hdObjects :: objects
  hdResults :: "healthResult list"
  hdPhases :: "probePhase list"
  hdCancelled :: bool

definition startHealthRound :: "HealthTarget list \<Rightarrow> ResourceObservation list \<Rightarrow> healthRound" where
  "startHealthRound targets resources = \<lparr>hdObjects = healthObjects resources, hdResults = [],
     hdPhases = replicate (length targets) Waiting, hdCancelled = False\<rparr>"

definition holder :: "probePhase \<Rightarrow> bool" where
  "holder p \<longleftrightarrow> p = Holding \<or> (\<exists>r. p = Probing r)"

definition holders :: "healthRound \<Rightarrow> nat" where
  "holders h = length (filter holder (hdPhases h))"

definition enter :: "nat \<Rightarrow> probePhase \<Rightarrow> healthRound \<Rightarrow> healthRound" where
  "enter i p h = h\<lparr>hdPhases := (hdPhases h)[i := p]\<rparr>"

text \<open>Behind the semaphore: read the object and decide whether to probe it.\<close>

definition readObject :: "HealthTarget \<Rightarrow> healthRound \<Rightarrow> probePhase" where
  "readObject t h =
     (case hdObjects h (htNamespace t @ ''/'' @ WorkloadName t) of
        None \<Rightarrow> Sleeping
      | Some r \<Rightarrow> if \<not> hdCancelled h \<and> healthEligible r t then Probing r else Sleeping)"

text \<open>The result of a probe is dropped when the channel is full.\<close>

definition offerResult :: "HealthTarget list \<Rightarrow> ResourceObservation \<Rightarrow> string \<Rightarrow> int \<Rightarrow> healthRound \<Rightarrow> healthRound" where
  "offerResult targets r state at h =
     (if hdCancelled h \<or> length (hdResults h) \<ge> length targets then h
      else h\<lparr>hdResults := hdResults h @ [\<lparr>hrNamespace = Namespace r, hrName = Name r, hrUID = UID r,
        hrVersion = ResourceVersion r, hrState = state, hrAt = at\<rparr>]\<rparr>)"

inductive roundStep :: "HealthTarget list \<Rightarrow> healthRound \<Rightarrow> healthRound \<Rightarrow> bool" for targets where
  acquire: "i < length targets \<Longrightarrow> hdPhases h ! i = Waiting \<Longrightarrow> holders h < 4 \<Longrightarrow> roundStep targets h (enter i Holding h)"
| read: "i < length targets \<Longrightarrow> hdPhases h ! i = Holding \<Longrightarrow> roundStep targets h (enter i (readObject (targets ! i) h) h)"
| probe: "i < length targets \<Longrightarrow> hdPhases h ! i = Probing r \<Longrightarrow>
    roundStep targets h (enter i Sleeping (offerResult targets r (probeHealth (targets ! i) http) at h))"
| wake: "i < length targets \<Longrightarrow> hdPhases h ! i = Sleeping \<Longrightarrow> roundStep targets h (enter i Waiting h)"
| leave: "i < length targets \<Longrightarrow> hdCancelled h \<Longrightarrow> hdPhases h ! i = Waiting \<or> hdPhases h ! i = Sleeping \<Longrightarrow>
    roundStep targets h (enter i Exited h)"
| receive: "hdResults h = s # rest \<Longrightarrow> roundStep targets h (h\<lparr>hdResults := rest\<rparr>)"
| update: "roundStep targets h (h\<lparr>hdObjects := updateObjects (hdObjects h) r\<rparr>)"
| cancel: "roundStep targets h (h\<lparr>hdCancelled := True\<rparr>)"

text \<open>A result names a configured workload, by UID, and one of the two states.\<close>

definition fromTarget :: "HealthTarget list \<Rightarrow> healthResult \<Rightarrow> bool" where
  "fromTarget targets s \<longleftrightarrow> (\<exists>t \<in> set targets. hrNamespace s = htNamespace t \<and> hrName s = WorkloadName t \<and>
     hrUID s = WorkloadUID t \<and> (hrState s = ''ready'' \<or> hrState s = ''failed''))"

definition probingOk :: "HealthTarget list \<Rightarrow> healthRound \<Rightarrow> bool" where
  "probingOk targets h \<longleftrightarrow> (\<forall>i < length targets. \<forall>r. hdPhases h ! i = Probing r \<longrightarrow> healthEligible r (targets ! i))"

definition roundInv :: "HealthTarget list \<Rightarrow> healthRound \<Rightarrow> bool" where
  "roundInv targets h \<longleftrightarrow> length (hdPhases h) = length targets \<and> holders h \<le> 4 \<and>
     length (hdResults h) \<le> length targets \<and> list_all (fromTarget targets) (hdResults h) \<and> probingOk targets h"

lemma roundInv_start: "roundInv targets (startHealthRound targets resources)"
  by (simp add: roundInv_def startHealthRound_def holders_def holder_def probingOk_def)

lemma holder_simps [simp]:
  "\<not> holder Waiting" "holder Holding" "holder (Probing r)" "\<not> holder Sleeping" "\<not> holder Exited"
  by (simp_all add: holder_def)

lemma filter_length_update:
  "i < length xs \<Longrightarrow> length (filter P (xs[i := x])) + (if P (xs ! i) then 1 else 0) = length (filter P xs) + (if P x then 1 else 0)"
proof (induction xs arbitrary: i)
  case (Cons y ys)
  then show ?case by (cases i) auto
qed simp

lemma holders_enter:
  "i < length (hdPhases h) \<Longrightarrow>
     holders (enter i p h) + (if holder (hdPhases h ! i) then 1 else 0) = holders h + (if holder p then 1 else 0)"
  unfolding holders_def enter_def by (simp add: filter_length_update)

text \<open>A goroutine may enter a phase that does not take a place of the semaphore it does not have,
  and that probes only what is eligible.\<close>

lemma roundInv_enter:
  assumes "roundInv targets h" and "i < length targets"
    and "holder p \<Longrightarrow> holder (hdPhases h ! i) \<or> holders h < 4"
    and "\<And>r. p = Probing r \<Longrightarrow> healthEligible r (targets ! i)"
  shows "roundInv targets (enter i p h)"
proof -
  have "i < length (hdPhases h)" using assms(1,2) by (simp add: roundInv_def)
  from holders_enter [OF this, of p] have "holders (enter i p h) \<le> 4"
    using assms(1,3) by (auto simp: roundInv_def split: if_splits)
  moreover have "probingOk targets (enter i p h)"
    using assms by (auto simp: probingOk_def roundInv_def enter_def nth_list_update)
  ultimately show ?thesis using assms(1) by (simp add: roundInv_def enter_def)
qed

lemma probeHealth_states: "probeHealth t http = ''ready'' \<or> probeHealth t http = ''failed''"
  by (auto simp: probeHealth_def split: option.split)

lemma roundInv_offer:
  assumes "roundInv targets h" and "i < length targets" and "healthEligible r (targets ! i)"
    and "state = ''ready'' \<or> state = ''failed''"
  shows "roundInv targets (offerResult targets r state at h)"
proof -
  have "targets ! i \<in> set targets" using assms(2) by simp
  with assms show ?thesis
    by (auto simp: roundInv_def offerResult_def holders_def probingOk_def fromTarget_def healthEligible_def)
qed

lemma roundInv_other:
  "roundInv targets h \<Longrightarrow> roundInv targets (h\<lparr>hdObjects := m\<rparr>)"
  "roundInv targets h \<Longrightarrow> roundInv targets (h\<lparr>hdCancelled := True\<rparr>)"
  "roundInv targets h \<Longrightarrow> hdResults h = s # rest \<Longrightarrow> roundInv targets (h\<lparr>hdResults := rest\<rparr>)"
  by (auto simp: roundInv_def holders_def probingOk_def)

lemma roundInv_step: "roundStep targets h h' \<Longrightarrow> roundInv targets h \<Longrightarrow> roundInv targets h'"
proof (induction rule: roundStep.induct)
  case (read i h)
  then show ?case
    by (intro roundInv_enter) (auto simp: readObject_def split: option.splits if_splits)
next
  case (probe i h r http at)
  then have "healthEligible r (targets ! i)" by (auto simp: roundInv_def probingOk_def)
  with probe show ?case
    by (intro roundInv_enter roundInv_offer) (auto simp: probeHealth_states)
qed (auto intro: roundInv_enter roundInv_other)


end
