(* ===== verification/StateExamples.thy ===== *)
theory StateExamples
  imports StateProtocol StateWatch
begin

text \<open>
  Concrete runs of the App state collector: a Deployment, a configuration, an inventory of one
  page, a snapshot of one message, a watch event and a probe.
\<close>

section \<open>A Deployment\<close>

definition sampleDeployment :: Deployment where
  "sampleDeployment = \<lparr>dNamespace = ''apps'', dName = ''web'', dUID = ''u1'', dResourceVersion = ''7'',
     dAnnotations = [(''station.verdantflare.com/app-id'', ''web'')], dLabels = [(''apps.verdantflare.com/managed'', ''true'')],
     dGeneration = 2, dDeletionTimestamp = None, dSpecReplicas = Some 3, dContainers = [(''main'', ''web:1.0.0'')],
     dObservedGeneration = 2, dReplicas = 3, dReadyReplicas = 3, dUpdatedReplicas = 3, dAvailableReplicas = 3, dConditions = []\<rparr>"

lemma sampleDeployment_wide: "wideDeployment sampleDeployment"
  by (simp add: wideDeployment_def sampleDeployment_def is_i64_def)

theorem observation_fits_witness:
  "wideDeployment sampleDeployment \<and> length (marshalObservation (observation sampleDeployment False)) < 2 ^ 20 - 512"
  using observation_fits [OF sampleDeployment_wide] sampleDeployment_wide by blast

theorem observation_allowlist_witness:
  "observation (sampleDeployment\<lparr>dAnnotations := (''kubectl.kubernetes.io/token'', ''secret'') # dAnnotations sampleDeployment,
     dLabels := (''team'', ''a'') # dLabels sampleDeployment\<rparr>) False = observation sampleDeployment False"
proof (rule observation_allowlist)
  have "hasPrefix ''station.verdantflare.com/app-id'' stationPrefix" by code_simp
  then have "(''station.verdantflare.com/app-id'', ''web'') \<in> set (dAnnotations sampleDeployment) \<and>
      hasPrefix ''station.verdantflare.com/app-id'' stationPrefix"
    by (simp add: sampleDeployment_def)
  then show "(\<exists>k v. (k, v) \<in> set ((''kubectl.kubernetes.io/token'', ''secret'') # dAnnotations sampleDeployment) \<and> hasPrefix k stationPrefix) =
      (\<exists>k v. (k, v) \<in> set (dAnnotations sampleDeployment) \<and> hasPrefix k stationPrefix)"
    by (metis list.set_intros(2))
qed (simp_all add: annotationAllowlist_def labelAllowlist_def stationPrefix_def lookupStr_def)

section \<open>A configuration\<close>

definition sampleConfig :: configInput where
  "sampleConfig = \<lparr>cfgSchemaVersion = 1, cfgNamespaces = [''web'', ''apps''], CoreOrigin = ''https://core'',
     cfgTokenEnv = ''CORE'', cfgHealthTargets = []\<rparr>"

definition sampleStateLib :: stateLib where
  "sampleStateLib = \<lparr>uuidParse = (\<lambda>s. Some (s, False)), IsDNS1123Label = (\<lambda>s. s \<noteq> []), IsDNS1123Subdomain = (\<lambda>s. s \<noteq> []),
     IsDNS1035Label = (\<lambda>s. s \<noteq> []), parseMedia = (\<lambda>s. Some s), envelope = (\<lambda>_. None),
     helloCodec = fixedCodec \<lparr>CoreBootID = ''b'', SessionID = ''s'', HeartbeatSeconds = 10, ObservationTTLSeconds = 30\<rparr>,
     controlCodec = fixedCodec (1, ''ping''), closingCodec = fixedCodec (1, ''closing'', ''STREAM_TIMEOUT''),
     busyCodec = fixedCodec ''COLLECTOR_BUSY'', configCodec = fixedCodec sampleConfig\<rparr>"

definition stateToken :: string where
  "stateToken = replicate 40 CHR ''t''"

lemma sample_client: "NewClient ''https://core'' stateToken = Inr \<lparr>clOrigin = ''https://core'', clToken = stateToken\<rparr>"
proof -
  have "map_option (\<lambda>u. (Scheme u, Hostname u, User u, RawQuery u, ForceQuery u, Fragment u, Path u)) (parseURL ''https://core'') =
      Some (''https'', ''core'', False, [], False, [], [])"
    by code_simp
  then show ?thesis
    by (auto simp: NewClient_def reject_def stateToken_def trimSuffix_def hasSuffix_def hasPrefix_def list_ex_iff)
qed

lemma sample_config:
  "LoadConfig sampleStateLib (\<lambda>_. Some (Some ''{}'')) ''/etc/state.json'' (Some (\<lambda>_. stateToken)) [''other''] =
     Inr (Some \<lparr>confNamespaces = sort [''web'', ''apps''], confCore = \<lparr>clOrigin = ''https://core'', clToken = stateToken\<rparr>,
       confHealthTargets = []\<rparr>)"
proof -
  have "Decode (configCodec sampleStateLib) (Some ''{}'') 65536 = Some sampleConfig"
    by (simp add: sampleStateLib_def fixedCodec_run)
  moreover have "stateTokenEnv ''CORE''" by code_simp
  moreover have "length stateToken \<noteq> length ''other''" by (simp add: stateToken_def)
  then have "stateToken \<noteq> ''other''" by metis
  moreover have "IsDNS1123Label sampleStateLib ''web''" "IsDNS1123Label sampleStateLib ''apps''" by (simp_all add: sampleStateLib_def)
  ultimately show ?thesis
    by (simp add: LoadConfig_def reject_def sampleConfig_def sample_client validHealthTargets_def Let_def)
qed


section \<open>An inventory and its snapshot\<close>

definition samplePage :: page where
  "samplePage = \<lparr>pgVersion = ''40'', pgContinue = [], pgItems = [sampleDeployment]\<rparr>"

lemma sample_inventory:
  "runs (inventory 2 [''apps'']) [(ListPage ''apps'' [], RPage (Some samplePage))]
     (Inr ([observation sampleDeployment False], [''apps'' \<mapsto> ''40'']))"
  by (simp add: inventory_def thenP_def tryP_def failIf_def numeral_2_eq_2 samplePage_def Let_def reject_def lookupStr_def sampleDeployment_def)

theorem inventory_complete_witness:
  "\<exists>pss. [(ListPage ''apps'' [], RPage (Some samplePage))] = listing [''apps''] pss \<and> list_all completePages pss \<and>
    [observation sampleDeployment False] = pageObservations (concat pss)"
  using inventory_complete [OF sample_inventory] by blast

definition sampleSync :: string where
  "sampleSync = replicate 36 CHR ''a''"

lemma sampleSync_plain: "plainSync sampleSync"
  by (simp add: plainSync_def sampleSync_def list_all_iff plainChar_def byteIn_def backslash_def)

lemma sample_below: "length (marshalObservation (observation sampleDeployment False)) < 1048064"
  using observation_size [OF sampleDeployment_wide, of False] by simp

lemma sample_fits: "list_all (\<lambda>r. length (marshalObservation r) \<le> 2 ^ 20 - 512) [observation sampleDeployment False]"
  using sample_below by simp

lemma sample_snapshot:
  "runs (sendSnapshotObjects sampleSync [observation sampleDeployment False])
     [(Emit (SnapshotObjects sampleSync [observation sampleDeployment False]), RSent None)] None"
proof -
  let ?r = "observation sampleDeployment False"
  note r = sample_below
  then have "length (marshalFrame (SnapshotObjects sampleSync [?r])) \<le> 1048576"
    using objects_message_size [OF sampleSync_plain, of "[?r]"] by simp
  with r show ?thesis
    by (simp add: sendSnapshotObjects_def sendFrame_def messageLimit_def Let_def streamFailure_def)
qed

theorem snapshot_chunks_witness:
  "\<exists>chunks. [Emit (SnapshotObjects sampleSync [observation sampleDeployment False])] =
      map (\<lambda>c. Emit (SnapshotObjects sampleSync c)) chunks \<and>
    list_all (\<lambda>c. length c \<le> 500 \<and> length (marshalFrame (SnapshotObjects sampleSync c)) \<le> 2 ^ 20) chunks"
  using snapshot_chunks [OF sample_snapshot sampleSync_plain sample_fits] 
  by (simp only: list.map fst_conv) (elim exE conjE, intro exI conjI, assumption+)

section \<open>A watch event and a probe\<close>

definition sampleEvent :: watchEvent where
  "sampleEvent = \<lparr>weType = ''MODIFIED'', weObject = Some sampleDeployment\<rparr>"

lemma sample_watch: "watchStep\<^sup>*\<^sup>* (startWatch [''apps'']) (deliverEvent ''apps'' sampleEvent (startWatch [''apps'']))"
  by (intro r_into_rtranclp watchStep.event) (simp add: startWatch_def)


definition sampleTarget :: HealthTarget where
  "sampleTarget = \<lparr>htNamespace = ''apps'', WorkloadName = ''web'', WorkloadUID = ''u1'', ServiceName = ''web'', htPort = 80, htPath = ''/''\<rparr>"

lemma sample_round:
  "(roundStep [sampleTarget])\<^sup>*\<^sup>* (startHealthRound [sampleTarget] []) (enter 0 Holding (startHealthRound [sampleTarget] []))"
  by (intro r_into_rtranclp roundStep.acquire) (simp_all add: startHealthRound_def holders_def)



end
