(* ===== verification/ReleaseBinding.thy ===== *)
theory ReleaseBinding
  imports StrictJson
begin

text \<open>
  \<^verbatim>\<open>internal/releasebinding/source.go\<close>: the controlled registry of releases. A
  \<open>Binding\<close> names a release and the digests of its package and chart; \<open>Verify\<close> reloads the
  registry before a mutation. The mounted directory, the decoder of the registry file and the
  SHA-256 function (as lower-case hexadecimal text) are parameters.
\<close>

section \<open>Data\<close>

record Binding =
  ReleaseRef :: string
  AppID :: string
  AppVersion :: string
  PackageDigest :: string
  ChartDigest :: string
  TemplateDigest :: string

definition ident :: "string \<Rightarrow> bool" where
  "ident = matchName (\<lambda>c. isLower c \<or> isDigit c) (\<lambda>c. isLower c \<or> isDigit c \<or> c \<in> set ''._-'') 62"

definition digest :: "string \<Rightarrow> bool" where
  "digest = matchHex ''sha256:'' 64"

definition BindingValid :: "Binding \<Rightarrow> bool" where
  "BindingValid b \<longleftrightarrow> ident (ReleaseRef b) \<and> ident (AppID b) \<and> semver (AppVersion b) \<and>
     digest (PackageDigest b) \<and> digest (ChartDigest b) \<and> digest (TemplateDigest b)"

record Entry =
  binding :: Binding
  PackageRef :: string
  ChartRef :: string

text \<open>\<open>Releases\<close> is \<open>None\<close> for a nil slice.\<close>

record Registry =
  SchemaVersion :: int
  Releases :: "Entry list option"

text \<open>An opened file: what \<^verbatim>\<open>Stat\<close> reports (\<open>None\<close> when it fails) and the bytes a
  read returns (\<open>None\<close> when it fails). A directory root maps a name to the file it opens.\<close>

record mountedFile =
  stat :: "(bool \<times> int) option"
  content :: "string option"

type_synonym root = "string \<Rightarrow> mountedFile option"

record env =
  openRoot :: "string \<Rightarrow> root option"
  registryCodec :: "Registry codec"
  sha256hex :: "string \<Rightarrow> string"

section \<open>Operations\<close>

definition Sum :: "env \<Rightarrow> string \<Rightarrow> string" where
  "Sum E raw = ''sha256:'' @ sha256hex E raw"

text \<open>\<open>read\<close>: a regular file below the root of at most \<open>maximum\<close> bytes.\<close>

definition read :: "root \<Rightarrow> string \<Rightarrow> int \<Rightarrow> string option" where
  "read rt ref maximum =
     (if \<not> validPath ref \<or> ref = ''.'' \<or> containsAny ref [CHR 0x5C, CHR '':''] then None
      else (case rt ref of
          None \<Rightarrow> None
        | Some f \<Rightarrow>
            (case stat f of
               None \<Rightarrow> None
             | Some (regular, sz) \<Rightarrow>
                 if \<not> regular \<or> sz > maximum then None
                 else (case content f of
                     None \<Rightarrow> None
                   | Some bytes \<Rightarrow>
                       (let b = take (nat (maximum + 1)) bytes
                        in if int (length b) > maximum then None else Some b)))))"

definition load :: "env \<Rightarrow> string option \<Rightarrow> (root \<times> Registry) option" where
  "load E src =
     (case src of
        None \<Rightarrow> None
      | Some path \<Rightarrow>
          if path = [] then None
          else (case openRoot E (dirName path) of
              None \<Rightarrow> None
            | Some rt \<Rightarrow>
                (case read rt (baseName path) (2 * 1048576) of
                   None \<Rightarrow> None
                 | Some raw \<Rightarrow>
                     (case Decode (registryCodec E) (Some raw) (2 * 1048576) of
                        None \<Rightarrow> None
                      | Some cfg \<Rightarrow>
                          (case Releases cfg of
                             None \<Rightarrow> None
                           | Some rs \<Rightarrow>
                               if SchemaVersion cfg \<noteq> 2 \<or> length rs > 128 then None
                               else Some (rt, cfg))))))"

text \<open>The loop of \<open>find\<close>: every entry is checked, also those behind the candidate.\<close>

fun findLoop :: "string \<Rightarrow> string list \<Rightarrow> Entry option \<Rightarrow> Entry list \<Rightarrow> Entry option option" where
  "findLoop ref seen candidate [] = Some candidate"
| "findLoop ref seen candidate (r # rs) =
     (if \<not> BindingValid (binding r) \<or> ReleaseRef (binding r) \<in> set seen then None
      else findLoop ref (ReleaseRef (binding r) # seen)
        (if ReleaseRef (binding r) = ref then Some r else candidate) rs)"

definition find :: "env \<Rightarrow> root \<Rightarrow> Registry \<Rightarrow> string \<Rightarrow> Entry option" where
  "find E rt cfg ref =
     (case findLoop ref [] None (the (Releases cfg)) of
        Some (Some candidate) \<Rightarrow>
          (case (read rt (PackageRef candidate) (4 * 1048576), read rt (ChartRef candidate) (32 * 1048576)) of
             (Some manifest, Some chart) \<Rightarrow>
               if Sum E manifest \<noteq> PackageDigest (binding candidate) \<or> Sum E chart \<noteq> ChartDigest (binding candidate)
               then None else Some candidate
           | _ \<Rightarrow> None)
      | _ \<Rightarrow> None)"

definition Resolve :: "env \<Rightarrow> string option \<Rightarrow> string \<Rightarrow> Binding option" where
  "Resolve E src ref =
     (if \<not> ident ref then None
      else (case load E src of
          None \<Rightarrow> None
        | Some (rt, cfg) \<Rightarrow> map_option binding (find E rt cfg ref)))"

definition Verify :: "env \<Rightarrow> string option \<Rightarrow> Binding \<Rightarrow> bool" where
  "Verify E src want =
     (if \<not> BindingValid want then False
      else (case load E src of
          None \<Rightarrow> False
        | Some (rt, cfg) \<Rightarrow>
            (case find E rt cfg (ReleaseRef want) of
               None \<Rightarrow> False
             | Some entry \<Rightarrow> binding entry = want)))"

section \<open>What the loop establishes\<close>

lemma findLoop_iff:
  "findLoop ref seen c rs = Some res \<longleftrightarrow>
     scanSeen (\<lambda>r. BindingValid (binding r)) (\<lambda>r. ReleaseRef (binding r)) seen rs \<and>
     res = fold (\<lambda>r acc. if ReleaseRef (binding r) = ref then Some r else acc) rs c"
  by (induction rs arbitrary: seen c) auto

lemma fold_last_match:
  assumes "distinct (map key rs)"
  shows "fold (\<lambda>r acc. if key r = ref then Some r else acc) rs c = Some e \<longleftrightarrow>
    (e \<in> set rs \<and> key e = ref) \<or> (ref \<notin> key ` set rs \<and> c = Some e)"
  using assms
proof (induction rs arbitrary: c)
  case (Cons r rs)
  then show ?case by (auto simp: image_iff)
qed simp

text \<open>The registry is consistent when every entry is valid and no reference occurs twice;
  \<open>attested\<close> says that the mounted bytes have the recorded digests.\<close>

definition consistent :: "Entry list \<Rightarrow> bool" where
  "consistent rs \<longleftrightarrow> (\<forall>r \<in> set rs. BindingValid (binding r)) \<and> distinct (map (\<lambda>r. ReleaseRef (binding r)) rs)"

definition attested :: "env \<Rightarrow> root \<Rightarrow> Entry \<Rightarrow> bool" where
  "attested E rt e \<longleftrightarrow>
     (\<exists>m c. read rt (PackageRef e) (4 * 1048576) = Some m \<and> read rt (ChartRef e) (32 * 1048576) = Some c \<and>
       Sum E m = PackageDigest (binding e) \<and> Sum E c = ChartDigest (binding e))"

lemma find_iff:
  assumes "Releases cfg = Some rs"
  shows "find E rt cfg ref = Some e \<longleftrightarrow>
    consistent rs \<and> e \<in> set rs \<and> ReleaseRef (binding e) = ref \<and> attested E rt e"
proof -
  have loop: "findLoop ref [] None rs = Some (Some e') \<longleftrightarrow>
      consistent rs \<and> e' \<in> set rs \<and> ReleaseRef (binding e') = ref" for e'
    using fold_last_match [of "\<lambda>r. ReleaseRef (binding r)" rs ref None e']
    by (auto simp: findLoop_iff scanSeen_Nil consistent_def)
  have "find E rt cfg ref = Some e \<longleftrightarrow> findLoop ref [] None rs = Some (Some e) \<and> attested E rt e"
    using assms by (auto simp: find_def attested_def split: option.splits if_splits)
  with loop show ?thesis by auto
qed

lemma load_Releases: "load E src = Some (rt, cfg) \<Longrightarrow> \<exists>rs. Releases cfg = Some rs \<and> length rs \<le> 128"
  by (auto simp: load_def split: option.splits if_splits)

section \<open>Properties\<close>

text \<open>C20: \<open>Verify\<close> accepts a binding exactly when it is valid, the registry loads, all its
  entries are valid with distinct references, one of them carries this very binding, and
  the mounted package and chart have its digests. A withdrawn, duplicated or altered release
  is refused.\<close>

theorem Verify_iff:
  "Verify E src want \<longleftrightarrow>
     BindingValid want \<and>
     (\<exists>rt cfg rs e. load E src = Some (rt, cfg) \<and> Releases cfg = Some rs \<and> consistent rs \<and>
       e \<in> set rs \<and> binding e = want \<and> attested E rt e)"
proof (cases "load E src")
  case (Some p)
  obtain rt cfg where p: "p = (rt, cfg)" by (cases p)
  from load_Releases Some p obtain rs where rs: "Releases cfg = Some rs" by blast
  have "Verify E src want \<longleftrightarrow> BindingValid want \<and> (\<exists>e. find E rt cfg (ReleaseRef want) = Some e \<and> binding e = want)"
    using Some p by (auto simp: Verify_def split: option.splits)
  then have "Verify E src want \<longleftrightarrow> BindingValid want \<and>
      (\<exists>e. consistent rs \<and> e \<in> set rs \<and> binding e = want \<and> attested E rt e)"
    unfolding find_iff [OF rs] by blast
  with Some p rs show ?thesis by simp
qed (simp add: Verify_def)

text \<open>C21: what \<open>Resolve\<close> returns for a reference is a valid binding of that reference, and
  \<open>Verify\<close> accepts it as long as the registry does not change; \<open>Resolve\<close> finds every
  verified binding under its own reference.\<close>

theorem Resolve_Verify:
  "Resolve E src ref = Some b \<longleftrightarrow> Verify E src b \<and> ReleaseRef b = ref"
proof (cases "load E src")
  case (Some p)
  obtain rt cfg where p: "p = (rt, cfg)" by (cases p)
  from load_Releases Some p obtain rs where rs: "Releases cfg = Some rs" by blast
  have V: "Verify E src b \<longleftrightarrow> BindingValid b \<and> (\<exists>e. find E rt cfg (ReleaseRef b) = Some e \<and> binding e = b)"
    using Some p by (auto simp: Verify_def split: option.splits)
  have R: "Resolve E src ref = Some b \<longleftrightarrow> ident ref \<and> (\<exists>e. find E rt cfg ref = Some e \<and> binding e = b)"
    using Some p by (auto simp: Resolve_def split: option.splits)
  have found: "BindingValid (binding e) \<and> ReleaseRef (binding e) = r" if "find E rt cfg r = Some e" for e r
    using that unfolding find_iff [OF rs] by (simp add: consistent_def)
  have id: "ident (ReleaseRef b)" if "BindingValid b" using that by (simp add: BindingValid_def)
  show ?thesis unfolding V R using found id by metis
qed (auto simp: Resolve_def Verify_def)

end
