(* ===== verification/Telemetry.thy ===== *)
theory Telemetry
  imports Prelude "HOL-Library.AList" "HOL-Library.Multiset"
begin

text \<open>
  \<^verbatim>\<open>internal/telemetry/client.go\<close>: the Prometheus client that merges the DCGM series
  of every GPU and returns the devices ordered by index, and the TTL cache around it.

  The Prometheus server is a parameter: \<open>reply\<close> gives the outcome of one HTTP query.
  \<open>float64\<close> values are of an arbitrary type with the three operations the code uses
  (\<open>floats\<close>). Go leaves the order of a map iteration open, so the order in which the
  map's values are collected is the parameter \<open>iter\<close>.
\<close>

section \<open>Data\<close>

record 'f gpu =
  Index :: int
  Device :: string
  ModelName :: string
  UUID :: string
  FreeVRAMMB :: int
  TotalVRAMMB :: int
  UsedVRAMMB :: int
  Utilization :: 'f
  TemperatureC :: 'f
  PowerWatts :: 'f

datatype jsonElem = JString string | JOther

record sample =
  Metric :: "string \<rightharpoonup> string"
  SValue :: "jsonElem list"

record promResponse =
  Status :: string
  Result :: "sample list"

datatype telemetryErr =
    CreateRequest | QueryFailed | BadStatus int | DecodeFailed | NonSuccess string
  | QueryErr string telemetryErr

text \<open>What the HTTP exchange of one query produced: the request could not be built, the
  exchange failed, or a status with the decoded body (\<open>None\<close> when it does not decode).\<close>

datatype httpReply = NoRequest | NoResponse | Response int "promResponse option"

record 'f floats =
  parseFloat :: "string \<Rightarrow> 'f"
  floatToInt64 :: "'f \<Rightarrow> int"
  zeroFloat :: 'f

section \<open>Operations\<close>

definition QueryVector :: "(string \<Rightarrow> httpReply) \<Rightarrow> string \<Rightarrow> telemetryErr + promResponse" where
  "QueryVector reply promQL =
     (case reply promQL of
        NoRequest \<Rightarrow> Inl CreateRequest
      | NoResponse \<Rightarrow> Inl QueryFailed
      | Response code body \<Rightarrow>
          (if code \<noteq> 200 then Inl (BadStatus code)
           else (case body of
                   None \<Rightarrow> Inl DecodeFailed
                 | Some parsed \<Rightarrow>
                     if Status parsed \<noteq> ''success'' then Inl (NonSuccess (Status parsed))
                     else Inr parsed)))"

text \<open>The callers ignore the error of \<open>parsePromValue\<close> and use its value, which is 0
  for a malformed sample.\<close>

definition parsePromValue :: "'f floats \<Rightarrow> jsonElem list \<Rightarrow> 'f" where
  "parsePromValue F val =
     (if length val < 2 then zeroFloat F
      else (case val ! 1 of JString s \<Rightarrow> parseFloat F s | JOther \<Rightarrow> zeroFloat F))"

definition freeEntry :: "(string \<Rightarrow> int) \<Rightarrow> 'f floats \<Rightarrow> sample \<Rightarrow> 'f gpu" where
  "freeEntry atoi F r =
     \<lparr>Index = atoi (lookupStr (Metric r) ''gpu''), Device = lookupStr (Metric r) ''device'',
      ModelName = lookupStr (Metric r) ''modelName'', UUID = lookupStr (Metric r) ''UUID'',
      FreeVRAMMB = floatToInt64 F (parsePromValue F (SValue r)), TotalVRAMMB = 0, UsedVRAMMB = 0,
      Utilization = zeroFloat F, TemperatureC = zeroFloat F, PowerWatts = zeroFloat F\<rparr>"

type_synonym 'f gpuMap = "(string \<times> 'f gpu) list"

fun freeMap :: "(string \<Rightarrow> int) \<Rightarrow> 'f floats \<Rightarrow> sample list \<Rightarrow> 'f gpuMap \<Rightarrow> 'f gpuMap" where
  "freeMap atoi F [] m = m"
| "freeMap atoi F (r # rs) m =
     freeMap atoi F rs (AList.update (lookupStr (Metric r) ''UUID'') (freeEntry atoi F r) m)"

text \<open>One enrichment query: a failed query is skipped, a sample of an unknown GPU ignored.\<close>

fun enrichSamples :: "('f \<Rightarrow> 'f gpu \<Rightarrow> 'f gpu) \<Rightarrow> 'f floats \<Rightarrow> sample list \<Rightarrow> 'f gpuMap \<Rightarrow> 'f gpuMap" where
  "enrichSamples upd F [] m = m"
| "enrichSamples upd F (r # rs) m =
     enrichSamples upd F rs
       (AList.map_entry (lookupStr (Metric r) ''UUID'') (upd (parsePromValue F (SValue r))) m)"

definition enrich ::
  "(string \<Rightarrow> httpReply) \<Rightarrow> string \<Rightarrow> ('f \<Rightarrow> 'f gpu \<Rightarrow> 'f gpu) \<Rightarrow> 'f floats \<Rightarrow> 'f gpuMap \<Rightarrow> 'f gpuMap" where
  "enrich reply q upd F m =
     (case QueryVector reply q of Inl _ \<Rightarrow> m | Inr resp \<Rightarrow> enrichSamples upd F (Result resp) m)"

definition setTotal :: "'f floats \<Rightarrow> 'f \<Rightarrow> 'f gpu \<Rightarrow> 'f gpu" where
  "setTotal F val m =
     (let total = floatToInt64 F val; used = i64 (total - FreeVRAMMB m)
      in m\<lparr>TotalVRAMMB := total, UsedVRAMMB := (if used < 0 then 0 else used)\<rparr>)"

text \<open>The in-place exchange sort by \<open>Index\<close>: \<open>sortInner\<close> is the loop over \<open>j\<close>,
  \<open>sortOuter\<close> the loop over \<open>i\<close>.\<close>

definition swapAt :: "nat \<Rightarrow> nat \<Rightarrow> 'a list \<Rightarrow> 'a list" where
  "swapAt i j xs = xs[i := xs ! j, j := xs ! i]"

function sortInner :: "nat \<Rightarrow> nat \<Rightarrow> 'f gpu list \<Rightarrow> 'f gpu list" where
  "sortInner i j xs =
     (if j < length xs
      then sortInner i (Suc j) (if Index (xs ! i) > Index (xs ! j) then swapAt i j xs else xs)
      else xs)"
  by pat_completeness auto
termination
  by (relation "measure (\<lambda>(i, j, xs). length xs - j)") (auto simp: swapAt_def)

declare sortInner.simps [simp del]

lemma length_sortInner [simp]: "length (sortInner i j xs) = length xs"
  by (induction i j xs rule: sortInner.induct) (subst sortInner.simps, simp add: swapAt_def)

function sortOuter :: "nat \<Rightarrow> 'f gpu list \<Rightarrow> 'f gpu list" where
  "sortOuter i xs =
     (if i < length xs - 1 then sortOuter (Suc i) (sortInner i (Suc i) xs) else xs)"
  by pat_completeness auto
termination
  by (relation "measure (\<lambda>(i, xs). length xs - i)") auto

declare sortOuter.simps [simp del]

definition GetGPUs ::
  "(string \<Rightarrow> httpReply) \<Rightarrow> (string \<Rightarrow> int) \<Rightarrow> 'f floats \<Rightarrow> ('f gpuMap \<Rightarrow> 'f gpuMap)
     \<Rightarrow> telemetryErr + 'f gpu list" where
  "GetGPUs reply atoi F iter =
     (case QueryVector reply ''DCGM_FI_DEV_FB_FREE'' of
        Inl e \<Rightarrow> Inl (QueryErr ''DCGM_FI_DEV_FB_FREE'' e)
      | Inr freeResp \<Rightarrow>
          (let m0 = freeMap atoi F (Result freeResp) [];
               m1 = enrich reply ''DCGM_FI_DEV_FB_TOTAL'' (setTotal F) F m0;
               m2 = enrich reply ''DCGM_FI_DEV_GPU_UTIL'' (\<lambda>v m. m\<lparr>Utilization := v\<rparr>) F m1;
               m3 = enrich reply ''DCGM_FI_DEV_GPU_TEMP'' (\<lambda>v m. m\<lparr>TemperatureC := v\<rparr>) F m2;
               m4 = enrich reply ''DCGM_FI_DEV_POWER_USAGE'' (\<lambda>v m. m\<lparr>PowerWatts := v\<rparr>) F m3
           in Inr (sortOuter 0 (map snd (iter m4)))))"

section \<open>The TTL cache\<close>

record 'v cache =
  ttl :: int
  lastAt :: int
  cached :: "'v option"

definition NewCachedClient :: "int \<Rightarrow> 'v cache" where
  "NewCachedClient t = \<lparr>ttl = (if t \<le> 0 then 2000000000 else t), lastAt = 0, cached = None\<rparr>"

definition fresh :: "int \<Rightarrow> 'v cache \<Rightarrow> bool" where
  "fresh now c \<longleftrightarrow> now - lastAt c < ttl c \<and> cached c \<noteq> None"

text \<open>The locked second half: the freshness test is repeated because another caller may
  have refreshed the cache between the two locks. \<open>now'\<close> is the time after the upstream
  call returned.\<close>

definition cacheSlow :: "int \<Rightarrow> int \<Rightarrow> 'e + 'v \<Rightarrow> 'v cache \<Rightarrow> ('e + 'v) \<times> 'v cache" where
  "cacheSlow now now' upstream c =
     (if fresh now c then (Inr (the (cached c)), c)
      else (case upstream of
              Inl e \<Rightarrow> (case cached c of Some v \<Rightarrow> (Inr v, c) | None \<Rightarrow> (Inl e, c))
            | Inr v \<Rightarrow> (Inr v, c\<lparr>cached := Some v, lastAt := now'\<rparr>)))"

text \<open>\<open>GetGPUs\<close> of the cached client: the read-locked test on the state \<open>c\<close>, then the
  write-locked part on the state \<open>c'\<close> that the cache has by then.\<close>

definition cachedGet ::
  "int \<Rightarrow> 'v cache \<Rightarrow> int \<Rightarrow> int \<Rightarrow> 'v cache \<Rightarrow> 'e + 'v \<Rightarrow> ('e + 'v) \<times> 'v cache" where
  "cachedGet t0 c t1 t2 c' upstream =
     (if fresh t0 c then (Inr (the (cached c)), c') else cacheSlow t1 t2 upstream c')"

section \<open>The sort returns an ordered permutation\<close>

lemma mset_swapAt: "i < length xs \<Longrightarrow> j < length xs \<Longrightarrow> mset (swapAt i j xs) = mset xs"
  by (simp add: swapAt_def mset_swap)

lemma mset_sortInner: "i < length xs \<Longrightarrow> mset (sortInner i j xs) = mset xs"
proof (induction i j xs rule: sortInner.induct)
  case (1 i j xs)
  have "length (swapAt i j xs) = length xs" by (simp add: swapAt_def)
  with 1 show ?case
    by (subst sortInner.simps) (auto simp: mset_swapAt)
qed

text \<open>What one inner loop does to the list: positions before \<open>i\<close> stay, position \<open>i\<close>
  holds a least element of the rest, and the positions from \<open>i\<close> on hold the same values.\<close>

lemma sortInner_spec:
  assumes "i < j" and "i < length xs" and "\<And>k. i < k \<Longrightarrow> k < j \<Longrightarrow> Index (xs ! i) \<le> Index (xs ! k)"
  shows "(\<forall>k < i. sortInner i j xs ! k = xs ! k) \<and>
    (\<forall>k. i < k \<and> k < length xs \<longrightarrow> Index (sortInner i j xs ! i) \<le> Index (sortInner i j xs ! k)) \<and>
    (\<forall>k. i \<le> k \<and> k < length xs \<longrightarrow> (\<exists>c. i \<le> c \<and> c < length xs \<and> sortInner i j xs ! k = xs ! c))"
  using assms
proof (induction i j xs rule: sortInner.induct)
  case (1 i j xs)
  show ?case
  proof (cases "j < length xs")
    case False
    with 1 show ?thesis by (auto simp: sortInner.simps [of i j xs])
  next
    case True
    let ?ys = "if Index (xs ! i) > Index (xs ! j) then swapAt i j xs else xs"
    have nth: "?ys ! k = (if Index (xs ! i) > Index (xs ! j)
        then (if k = i then xs ! j else if k = j then xs ! i else xs ! k) else xs ! k)" for k
      using True 1(2,3) by (auto simp: swapAt_def nth_list_update)
    have len: "length ?ys = length xs" by (simp add: swapAt_def)
    have head: "Index (?ys ! i) \<le> Index (?ys ! k)" if "i < k" "k < Suc j" for k
      using that 1(4) [of k] 1(2) unfolding nth by (cases "k = j") auto
    have "(\<forall>k < i. sortInner i (Suc j) ?ys ! k = ?ys ! k) \<and>
      (\<forall>k. i < k \<and> k < length ?ys \<longrightarrow> Index (sortInner i (Suc j) ?ys ! i) \<le> Index (sortInner i (Suc j) ?ys ! k)) \<and>
      (\<forall>k. i \<le> k \<and> k < length ?ys \<longrightarrow> (\<exists>c. i \<le> c \<and> c < length ?ys \<and> sortInner i (Suc j) ?ys ! k = ?ys ! c))"
      using 1(1) [OF True] 1(2,3) head len by simp
    moreover have "sortInner i j xs = sortInner i (Suc j) ?ys"
      using True by (simp add: sortInner.simps [of i j xs])
    moreover have "\<exists>c'. i \<le> c' \<and> c' < length xs \<and> ?ys ! c = xs ! c'" if "i \<le> c" "c < length xs" for c
      using that 1(2,3) True unfolding nth by (metis less_imp_le order_refl)
    moreover have "?ys ! k = xs ! k" if "k < i" for k
      using that 1(2) unfolding nth by auto
    ultimately show ?thesis unfolding len by metis
  qed
qed

definition orderedUpTo :: "nat \<Rightarrow> 'f gpu list \<Rightarrow> bool" where
  "orderedUpTo i xs \<longleftrightarrow> (\<forall>a b. a < i \<and> a < b \<and> b < length xs \<longrightarrow> Index (xs ! a) \<le> Index (xs ! b))"

lemma sortInner_ordered:
  assumes "orderedUpTo i xs" and "Suc i < length xs"
  shows "orderedUpTo (Suc i) (sortInner i (Suc i) xs)"
proof -
  note spec = sortInner_spec [of i "Suc i" xs]
  have "Index (sortInner i (Suc i) xs ! a) \<le> Index (sortInner i (Suc i) xs ! b)"
    if "a < Suc i" "a < b" "b < length xs" for a b
  proof (cases "a = i")
    case True
    with spec assms that show ?thesis by auto
  next
    case False
    with that have a: "a < i" by simp
    show ?thesis
    proof (cases "b < i")
      case True
      with a spec assms that show ?thesis by (auto simp: orderedUpTo_def)
    next
      case False
      then have "i \<le> b" by simp
      with spec assms that obtain c where "i \<le> c" "c < length xs" "sortInner i (Suc i) xs ! b = xs ! c"
        by (metis Suc_lessD lessI less_Suc_eq_le not_less_eq)
      with a spec assms show ?thesis by (auto simp: orderedUpTo_def)
    qed
  qed
  then show ?thesis by (simp add: orderedUpTo_def)
qed

lemma sortOuter_spec:
  "orderedUpTo i xs \<Longrightarrow> mset (sortOuter i xs) = mset xs \<and> sorted (map Index (sortOuter i xs))"
proof (induction i xs rule: sortOuter.induct)
  case (1 i xs)
  show ?case
  proof (cases "i < length xs - 1")
    case True
    then have "Suc i < length xs" by simp
    with 1 True sortInner_ordered [of i xs] mset_sortInner [of i xs "Suc i"] show ?thesis
      by (simp add: sortOuter.simps [of i xs])
  next
    case False
    with 1 have "\<forall>a b. a < b \<and> b < length xs \<longrightarrow> Index (xs ! a) \<le> Index (xs ! b)"
      by (auto simp: orderedUpTo_def)
    then have "sorted (map Index xs)" by (auto simp: sorted_iff_nth_mono_less)
    with False show ?thesis by (simp add: sortOuter.simps [of i xs])
  qed
qed

lemma sortOuter_sorted: "sorted (map Index (sortOuter 0 xs))"
  and mset_sortOuter: "mset (sortOuter 0 xs) = mset xs"
  using sortOuter_spec [of 0 xs] by (simp_all add: orderedUpTo_def)

section \<open>The merged series\<close>

text \<open>The map holds every GPU under its own UUID, once.\<close>

definition keyed :: "'f gpuMap \<Rightarrow> bool" where
  "keyed m \<longleftrightarrow> distinct (map fst m) \<and> (\<forall>k g. map_of m k = Some g \<longrightarrow> UUID g = k)"

lemma keyed_freeMap: "keyed m \<Longrightarrow> keyed (freeMap atoi F rs m)"
proof (induction rs arbitrary: m)
  case (Cons r rs)
  have "keyed (AList.update (lookupStr (Metric r) ''UUID'') (freeEntry atoi F r) m)"
    using Cons.prems by (auto simp: keyed_def distinct_update update_conv' freeEntry_def)
  with Cons.IH show ?case by simp
qed simp

lemma distinct_map_entry: "map fst (AList.map_entry k f m) = map fst m"
  by (induction m) auto

lemma map_of_map_entry_eq:
  "map_of (AList.map_entry k f m) k' = (if k' = k then map_option f (map_of m k) else map_of m k')"
  by (induction m) auto

lemma keyed_enrichSamples:
  assumes "\<And>v g. UUID (upd v g) = UUID g" and "keyed m"
  shows "keyed (enrichSamples upd F rs m)"
  using assms(2)
proof (induction rs arbitrary: m)
  case (Cons r rs)
  have "keyed (AList.map_entry (lookupStr (Metric r) ''UUID'') (upd (parsePromValue F (SValue r))) m)"
    using Cons.prems assms(1) by (auto simp: keyed_def distinct_map_entry map_of_map_entry_eq split: if_splits)
  with Cons.IH show ?case by simp
qed simp

lemma keyed_enrich:
  "(\<And>v g. UUID (upd v g) = UUID g) \<Longrightarrow> keyed m \<Longrightarrow> keyed (enrich reply q upd F m)"
  by (simp add: enrich_def keyed_enrichSamples split: sum.splits)

lemma keyed_values: "keyed m \<Longrightarrow> map UUID (map snd m) = map fst m"
  by (auto simp: keyed_def map_of_eq_Some_iff)

text \<open>The telemetry contract a scheduler relies on: devices ordered by index, one entry per
  UUID.\<close>

definition inventory :: "'f gpu list \<Rightarrow> bool" where
  "inventory gs \<longleftrightarrow> sorted (map Index gs) \<and> distinct (map UUID gs)"

lemma GetGPUs_inventory:
  assumes "\<And>m. mset (iter m) = mset m" and "GetGPUs reply atoi F iter = Inr gs"
  shows "inventory gs"
proof -
  from assms(2) obtain resp where q: "QueryVector reply ''DCGM_FI_DEV_FB_FREE'' = Inr resp"
    by (auto simp: GetGPUs_def split: sum.splits)
  define m where "m = enrich reply ''DCGM_FI_DEV_POWER_USAGE'' (\<lambda>v m. m\<lparr>PowerWatts := v\<rparr>) F
    (enrich reply ''DCGM_FI_DEV_GPU_TEMP'' (\<lambda>v m. m\<lparr>TemperatureC := v\<rparr>) F
    (enrich reply ''DCGM_FI_DEV_GPU_UTIL'' (\<lambda>v m. m\<lparr>Utilization := v\<rparr>) F
    (enrich reply ''DCGM_FI_DEV_FB_TOTAL'' (setTotal F) F (freeMap atoi F (Result resp) []))))"
  have gs: "gs = sortOuter 0 (map snd (iter m))"
    using assms(2) q by (simp add: GetGPUs_def Let_def m_def)
  have "keyed m"
    unfolding m_def by (intro keyed_enrich keyed_freeMap) (simp_all add: setTotal_def Let_def keyed_def)
  have "mset (map UUID gs) = mset (map UUID (map snd (iter m)))"
    unfolding gs by (metis mset_map mset_sortOuter)
  also have "\<dots> = mset (map UUID (map snd m))" by (metis assms(1) mset_map)
  also have "\<dots> = mset (map fst m)" by (simp only: keyed_values [OF \<open>keyed m\<close>])
  finally have "distinct (map UUID gs)"
    using \<open>keyed m\<close> by (metis keyed_def mset_eq_imp_distinct_iff)
  with gs show ?thesis by (simp add: inventory_def sortOuter_sorted)
qed

section \<open>The client interface\<close>

text \<open>
  What every implementation of the \<^verbatim>\<open>telemetry.Client\<close> interface promises: a source
  with state whose successful answers satisfy \<open>good\<close>. A cached client over such a source
  is again one, with the invariant that the cached answer, if any, is good.
\<close>

locale source =
  fixes get :: "'s \<Rightarrow> ('e + 'v) \<times> 's"
    and invar :: "'s \<Rightarrow> bool"
    and good :: "'v \<Rightarrow> bool"
  assumes get_good: "invar s \<Longrightarrow> get s = (Inr v, s') \<Longrightarrow> good v"
    and get_inv: "invar s \<Longrightarrow> get s = (r, s') \<Longrightarrow> invar s'"

definition cacheInv :: "('s \<Rightarrow> bool) \<Rightarrow> ('v \<Rightarrow> bool) \<Rightarrow> int \<times> 'v cache \<times> 's \<Rightarrow> bool" where
  "cacheInv invar good = (\<lambda>(t, c, s). invar s \<and> (\<forall>v. cached c = Some v \<longrightarrow> good v))"

text \<open>One undisturbed call of the cached client at time \<open>t\<close>: the upstream source is
  asked only when the cached answer is missing or stale.\<close>

definition cachedCall ::
  "('s \<Rightarrow> ('e + 'v) \<times> 's) \<Rightarrow> int \<times> 'v cache \<times> 's \<Rightarrow> ('e + 'v) \<times> (int \<times> 'v cache \<times> 's)" where
  "cachedCall get = (\<lambda>(t, c, s).
     if fresh t c then (Inr (the (cached c)), (t, c, s))
     else (case get s of (r, s') \<Rightarrow> (case cachedGet t c t t c r of (out, c') \<Rightarrow> (out, (t, c', s')))))"

text \<open>The cache needs a source of its own; stacking a cache on a cache is not what the code
  does, so the cached client is a client of a separate locale.\<close>

locale cached_source = source
begin

lemma cachedCall_good:
  assumes "cacheInv invar good st" and "cachedCall get st = (Inr v, st')"
  shows "good v \<and> cacheInv invar good st'"
proof -
  obtain t c s where st: "st = (t, c, s)" by (cases st) auto
  obtain r s' where g: "get s = (r, s')" by (cases "get s")
  show ?thesis
    using assms g get_good [of s] get_inv [of s] unfolding st
    by (cases r) (auto simp: cacheInv_def cachedCall_def cachedGet_def cacheSlow_def fresh_def
      split: if_splits option.splits)
qed

lemma cachedCall_inv:
  assumes "cacheInv invar good st" and "cachedCall get st = (r, st')"
  shows "cacheInv invar good st'"
proof -
  obtain t c s where st: "st = (t, c, s)" by (cases st) auto
  obtain u s' where g: "get s = (u, s')" by (cases "get s")
  show ?thesis
    using assms g get_good [of s] get_inv [of s] unfolding st
    by (cases u) (auto simp: cacheInv_def cachedCall_def cachedGet_def cacheSlow_def fresh_def
      split: if_splits option.splits)
qed

end

sublocale cached_source \<subseteq> cached: source "cachedCall get" "cacheInv invar good" good
  by unfold_locales (auto dest: cachedCall_good cachedCall_inv)

text \<open>The Prometheus client as a source: its environment is the server's replies and Go's
  map iteration order, which permutes the entries of a map and promises nothing else.\<close>

type_synonym 'f promEnv = "(string \<Rightarrow> httpReply) \<times> ('f gpuMap \<Rightarrow> 'f gpuMap)"

definition permutes :: "'f promEnv \<Rightarrow> bool" where
  "permutes env \<longleftrightarrow> (\<forall>m. mset (snd env m) = mset m)"

definition promGet ::
  "(string \<Rightarrow> int) \<Rightarrow> 'f floats \<Rightarrow> 'f promEnv \<Rightarrow> (telemetryErr + 'f gpu list) \<times> 'f promEnv" where
  "promGet atoi F env = (GetGPUs (fst env) atoi F (snd env), env)"

interpretation prom: cached_source "promGet atoi F" permutes inventory
  by unfold_locales (auto simp: promGet_def permutes_def dest: GetGPUs_inventory [rotated])

text \<open>C26: every list of GPUs the cached Prometheus client returns, fresh, refreshed or
  stale after an upstream failure, is ordered by index and names each UUID once, and the
  cache keeps that invariant.\<close>

theorem cached_gpus_inventory:
  assumes "cacheInv permutes inventory st" and "cachedCall (promGet atoi F) st = (Inr gs, st')"
  shows "inventory gs \<and> cacheInv permutes inventory st'"
  using assms by (rule prom.cachedCall_good)

text \<open>A fresh cache of one GPU.\<close>

definition cachedGPU :: "unit gpu" where
  "cachedGPU = \<lparr>Index = 0, Device = ''nvidia0'', ModelName = ''L4'', UUID = ''GPU-0'', FreeVRAMMB = 20000, TotalVRAMMB = 24000,
     UsedVRAMMB = 4000, Utilization = (), TemperatureC = (), PowerWatts = ()\<rparr>"

definition cachedState :: "int \<times> unit gpu list cache \<times> unit promEnv" where
  "cachedState = (1, \<lparr>ttl = 2000000000, lastAt = 0, cached = Some [cachedGPU]\<rparr>, (\<lambda>_. NoResponse, id))"

theorem cached_gpus_inventory_witness:
  "inventory [cachedGPU] \<and> cacheInv permutes inventory cachedState"
proof (rule cached_gpus_inventory)
  show "cacheInv permutes inventory cachedState"
    by (simp add: cacheInv_def cachedState_def permutes_def inventory_def)
  show "cachedCall (promGet (\<lambda>_. 0) \<lparr>parseFloat = \<lambda>_. (), floatToInt64 = \<lambda>_. 0, zeroFloat = ()\<rparr>) cachedState = (Inr [cachedGPU], cachedState)"
    by (simp add: cachedCall_def cachedState_def fresh_def)
qed

end
