(* ===== verification/Admission.thy ===== *)
theory Admission
  imports Telemetry
begin

text \<open>
  \<^verbatim>\<open>internal/scheduler/admission.go\<close>: admission of a task onto a GPU with a safety
  headroom. The telemetry client is the argument \<open>telemetry\<close>, its one answer in this call.
  The formatted reasons are a datatype with the values the messages print.
\<close>

datatype 'e reason =
    CpuOnly
  | TelemetryError 'e
  | NoGPUs
  | PreferredAdmitted int int int int
  | AdmittedTo int int int int
  | InsufficientVRAM int int int int
  
record taskRequest =
  TaskID :: string
  RequiredVRAMMB :: int
  PreferredGPUIndex :: "int option"

record 'e decision =
  Admitted :: bool
  GPUIndex :: int
  GPUUUID :: string
  AvailableVRAMMB :: int
  SafetyHeadroomMB :: int
  Reason :: "'e reason"

definition DefaultSafetyHeadroomMB :: int where
  "DefaultSafetyHeadroomMB = 2048"

record controller =
  safetyHeadroomMB :: int

definition NewAdmissionController :: "int \<Rightarrow> controller" where
  "NewAdmissionController h =
     \<lparr>safetyHeadroomMB = (if h \<le> 0 then DefaultSafetyHeadroomMB else h)\<rparr>"

text \<open>The loop over the preferred index: the first GPU with that index decides, whether it
  fits or not.\<close>

fun preferredGPU :: "int \<Rightarrow> int \<Rightarrow> 'f gpu list \<Rightarrow> 'f gpu option" where
  "preferredGPU idx need [] = None"
| "preferredGPU idx need (g # gs) =
     (if Index g = idx then (if FreeVRAMMB g \<ge> need then Some g else None)
      else preferredGPU idx need gs)"

text \<open>The selection loop with its two accumulators \<open>bestGPU\<close> and \<open>maxFree\<close>.\<close>

fun selectGPU :: "int \<Rightarrow> 'f gpu list \<Rightarrow> 'f gpu option \<Rightarrow> int \<Rightarrow> 'f gpu option \<times> int" where
  "selectGPU need [] best maxFree = (best, maxFree)"
| "selectGPU need (g # gs) best maxFree =
     selectGPU need gs
       (if FreeVRAMMB g \<ge> need \<and> (best = None \<or> FreeVRAMMB g > FreeVRAMMB (the best))
        then Some g else best)
       (if FreeVRAMMB g > maxFree then FreeVRAMMB g else maxFree)"

definition CanAdmit ::
  "controller \<Rightarrow> 'e + 'f gpu list \<Rightarrow> taskRequest \<Rightarrow> 'e decision \<times> 'e option" where
  "CanAdmit ac telemetry req =
     (let h = safetyHeadroomMB ac; r = RequiredVRAMMB req in
      if r \<le> 0 then
        (\<lparr>Admitted = True, GPUIndex = -1, GPUUUID = [], AvailableVRAMMB = 0,
          SafetyHeadroomMB = h, Reason = CpuOnly\<rparr>, None)
      else (case telemetry of
        Inl e \<Rightarrow>
          (\<lparr>Admitted = False, GPUIndex = 0, GPUUUID = [], AvailableVRAMMB = 0,
            SafetyHeadroomMB = 0, Reason = TelemetryError e\<rparr>, Some e)
      | Inr gpus \<Rightarrow>
          if gpus = [] then
            (\<lparr>Admitted = False, GPUIndex = 0, GPUUUID = [], AvailableVRAMMB = 0,
              SafetyHeadroomMB = 0, Reason = NoGPUs\<rparr>, None)
          else (let totalNeeded = i64 (r + h) in
            case (case PreferredGPUIndex req of None \<Rightarrow> None
                  | Some idx \<Rightarrow> preferredGPU idx totalNeeded gpus) of
              Some g \<Rightarrow>
                (\<lparr>Admitted = True, GPUIndex = Index g, GPUUUID = UUID g,
                  AvailableVRAMMB = FreeVRAMMB g, SafetyHeadroomMB = h,
                  Reason = PreferredAdmitted (Index g) (FreeVRAMMB g) r h\<rparr>, None)
            | None \<Rightarrow>
                (case selectGPU totalNeeded gpus None (-1) of
                   (Some g, maxFree) \<Rightarrow>
                     (\<lparr>Admitted = True, GPUIndex = Index g, GPUUUID = UUID g,
                       AvailableVRAMMB = FreeVRAMMB g, SafetyHeadroomMB = h,
                       Reason = AdmittedTo (Index g) (FreeVRAMMB g) r h\<rparr>, None)
                 | (None, maxFree) \<Rightarrow>
                     (\<lparr>Admitted = False, GPUIndex = -1, GPUUUID = [], AvailableVRAMMB = maxFree,
                       SafetyHeadroomMB = h,
                       Reason = InsufficientVRAM r h totalNeeded maxFree\<rparr>, None)))))"

section \<open>The two loops\<close>

lemma preferredGPU_Some:
  "preferredGPU idx need gs = Some g \<Longrightarrow> g \<in> set gs \<and> Index g = idx \<and> need \<le> FreeVRAMMB g"
  by (induction gs) (auto split: if_splits)

text \<open>The selection loop returns a fitting GPU of greatest free memory, the earlier best
  included, exactly when there is one.\<close>

lemma selectGPU_spec:
  assumes "\<And>b. best = Some b \<Longrightarrow> need \<le> FreeVRAMMB b"
  shows "case fst (selectGPU need gs best m) of
      None \<Rightarrow> best = None \<and> (\<forall>g \<in> set gs. FreeVRAMMB g < need)
    | Some b \<Rightarrow> (b \<in> set gs \<or> best = Some b) \<and> need \<le> FreeVRAMMB b \<and>
        (\<forall>g \<in> set gs. FreeVRAMMB g \<le> FreeVRAMMB b) \<and>
        (\<forall>b'. best = Some b' \<longrightarrow> FreeVRAMMB b' \<le> FreeVRAMMB b)"
  using assms
proof (induction gs arbitrary: best m)
  case Nil
  then show ?case by (auto split: option.splits)
next
  case (Cons g gs)
  define best' where "best' = (if need \<le> FreeVRAMMB g \<and> (best = None \<or> FreeVRAMMB (the best) < FreeVRAMMB g)
    then Some g else best)"
  define m' where "m' = (if m < FreeVRAMMB g then FreeVRAMMB g else m)"
  have "\<And>b. best' = Some b \<Longrightarrow> need \<le> FreeVRAMMB b"
    using Cons.prems by (auto simp: best'_def split: if_splits)
  from Cons.IH [where best = best' and m = m', OF this] show ?case
    by (cases "fst (selectGPU need gs best' m')"; cases best)
      (auto simp: best'_def m'_def split: if_splits)
qed

lemma selectGPU_max: "snd (selectGPU need gs best m) = Max (insert m (FreeVRAMMB ` set gs))"
proof (induction gs arbitrary: best m)
  case (Cons g gs)
  let ?F = "FreeVRAMMB ` set gs"
  have "Max (insert (if m < FreeVRAMMB g then FreeVRAMMB g else m) ?F) = Max (insert m (insert (FreeVRAMMB g) ?F))"
    by (cases "?F = {}") (auto simp: max_def)
  with Cons show ?case by simp
qed simp

lemma preferredGPU_None: "\<forall>g \<in> set gs. FreeVRAMMB g < need \<Longrightarrow> preferredGPU idx need gs = None"
  by (induction gs) auto

section \<open>Properties\<close>

text \<open>C24: an admitted task that asks for GPU memory is placed on a reported GPU whose free
  memory covers the request plus the headroom, as long as that sum is an \<open>int64\<close>.\<close>

theorem CanAdmit_safe:
  assumes "CanAdmit ac (Inr gpus) req = (d, err)" and "Admitted d" and "0 < RequiredVRAMMB req"
    and "is_i64 (RequiredVRAMMB req + safetyHeadroomMB ac)"
  shows "\<exists>g \<in> set gpus. GPUIndex d = Index g \<and> GPUUUID d = UUID g \<and> AvailableVRAMMB d = FreeVRAMMB g \<and>
    RequiredVRAMMB req + safetyHeadroomMB ac \<le> FreeVRAMMB g"
  using assms selectGPU_spec [of None "RequiredVRAMMB req + safetyHeadroomMB ac" gpus "-1"]
  by (auto simp: CanAdmit_def Let_def split: if_splits option.splits prod.splits dest!: preferredGPU_Some)

text \<open>C25: admission is complete: with telemetry available, a task is refused only when no
  GPU fits, and then the decision reports the greatest free memory (at least -1).\<close>

theorem CanAdmit_complete:
  assumes "gpus \<noteq> []" and "0 < RequiredVRAMMB req"
    and "is_i64 (RequiredVRAMMB req + safetyHeadroomMB ac)"
  shows "if (\<forall>g \<in> set gpus. FreeVRAMMB g < RequiredVRAMMB req + safetyHeadroomMB ac)
    then \<not> Admitted (fst (CanAdmit ac (Inr gpus) req)) \<and>
      AvailableVRAMMB (fst (CanAdmit ac (Inr gpus) req)) = Max (insert (-1) (FreeVRAMMB ` set gpus))
    else Admitted (fst (CanAdmit ac (Inr gpus) req))"
proof -
  let ?need = "RequiredVRAMMB req + safetyHeadroomMB ac"
  note spec = selectGPU_spec [of None ?need gpus "-1"]
  obtain b m where sel: "selectGPU ?need gpus None (-1) = (b, m)" by (cases "selectGPU ?need gpus None (-1)")
  then have m: "m = Max (insert (-1) (FreeVRAMMB ` set gpus))"
    using selectGPU_max [of ?need gpus None "-1"] by simp
  show ?thesis
  proof (cases "\<forall>g \<in> set gpus. FreeVRAMMB g < ?need")
    case True
    with spec sel have "b = None" by (auto split: option.splits)
    with True sel m assms show ?thesis
      by (auto simp: CanAdmit_def Let_def preferredGPU_None split: option.splits)
  next
    case False
    with spec sel obtain g where "b = Some g" by (auto split: option.splits)
    with False sel assms show ?thesis
      by (auto simp: CanAdmit_def Let_def split: option.splits)
  qed
qed

text \<open>C37: A request close to the top of the \<open>int64\<close> range makes the sum with the headroom
  wrap to a negative number, and every GPU with non-negative free memory fits.\<close>

theorem CanAdmit_overflow:
  assumes "is_i64 (RequiredVRAMMB req)" and "is_i64 (safetyHeadroomMB ac)"
    and "2 ^ 63 \<le> RequiredVRAMMB req + safetyHeadroomMB ac" and "0 < RequiredVRAMMB req"
    and "g \<in> set gpus" and "0 \<le> FreeVRAMMB g"
  shows "Admitted (fst (CanAdmit ac (Inr gpus) req))"
proof -
  let ?need = "i64 (RequiredVRAMMB req + safetyHeadroomMB ac)"
  have "?need < 0" using i64_overflow(2) assms(1-3) by blast
  with assms(5,6) have "\<not> (\<forall>g \<in> set gpus. FreeVRAMMB g < ?need)" by force
  with selectGPU_spec [of None ?need gpus "-1"]
  obtain b m where "selectGPU ?need gpus None (-1) = (Some b, m)"
    by (cases "selectGPU ?need gpus None (-1)") (auto split: option.splits)
  with assms(4,5) show ?thesis
    by (auto simp: CanAdmit_def Let_def split: option.splits)
qed

section \<open>Concrete decisions\<close>

definition sampleGPU :: "unit gpu" where
  "sampleGPU = \<lparr>Index = 1, Device = ''nvidia1'', ModelName = ''L4'', UUID = ''GPU-1'', FreeVRAMMB = 20000, TotalVRAMMB = 24000,
     UsedVRAMMB = 4000, Utilization = (), TemperatureC = (), PowerWatts = ()\<rparr>"

definition sampleTask :: "int \<Rightarrow> taskRequest" where
  "sampleTask n = \<lparr>TaskID = ''t'', RequiredVRAMMB = n, PreferredGPUIndex = Some 0\<rparr>"

abbreviation "sampleController \<equiv> NewAdmissionController 0"

lemma sample_sum: "is_i64 (RequiredVRAMMB (sampleTask 16000) + safetyHeadroomMB sampleController)" "0 < RequiredVRAMMB (sampleTask 16000)"
  by (simp_all add: sampleTask_def NewAdmissionController_def DefaultSafetyHeadroomMB_def is_i64_def)

theorem CanAdmit_safe_witness:
  "\<exists>g \<in> set [sampleGPU]. GPUIndex (fst (CanAdmit sampleController (Inr [sampleGPU] :: string + unit gpu list) (sampleTask 16000))) = Index g \<and>
    RequiredVRAMMB (sampleTask 16000) + safetyHeadroomMB sampleController \<le> FreeVRAMMB g"
proof -
  have adm: "Admitted (fst (CanAdmit sampleController (Inr [sampleGPU] :: string + unit gpu list) (sampleTask 16000)))"
    by (simp add: CanAdmit_def sampleTask_def NewAdmissionController_def DefaultSafetyHeadroomMB_def sampleGPU_def i64_def)
  from CanAdmit_safe [OF prod.collapse [symmetric] adm sample_sum(2,1)] show ?thesis by blast
qed

theorem CanAdmit_complete_witness:
  "Admitted (fst (CanAdmit sampleController (Inr [sampleGPU] :: string + unit gpu list) (sampleTask 16000)))"
  using CanAdmit_complete [of "[sampleGPU]", OF _ sample_sum(2,1)]
  by (simp add: sampleGPU_def sampleTask_def NewAdmissionController_def DefaultSafetyHeadroomMB_def)

theorem CanAdmit_overflow_witness:
  "Admitted (fst (CanAdmit sampleController (Inr [sampleGPU] :: string + unit gpu list) (sampleTask (2 ^ 63 - 1))))"
  by (rule CanAdmit_overflow [of _ _ sampleGPU])
    (simp_all add: sampleTask_def NewAdmissionController_def DefaultSafetyHeadroomMB_def sampleGPU_def is_i64_def)

end
