(* ===== verification/TelemetryNode.thy ===== *)
theory TelemetryNode
  imports Telemetry "HOL-Library.Word"
begin

text \<open>
  Host metrics of \<^verbatim>\<open>internal/telemetry/client.go\<close>: \<^verbatim>\<open>GetNode\<close> of the Prometheus client and of the
  cache. Memory sizes are \<^verbatim>\<open>uint64\<close>, here 64-bit words, whose subtraction wraps; the
  conversions from and to \<^verbatim>\<open>float64\<close> and the percentage are the fields of \<open>nodeFloats\<close>.
\<close>

record 'f nodeFloats =
  toUint64 :: "'f \<Rightarrow> 64 word"
  ofUint64 :: "64 word \<Rightarrow> 'f"
  percentOf :: "'f \<Rightarrow> 'f \<Rightarrow> 'f"

record 'f nodeMetric =
  CPUUtilizationPercent :: 'f
  MemTotalBytes :: "64 word"
  MemAvailableBytes :: "64 word"
  MemUsedPercent :: 'f

definition cpuQuery :: string where
  "cpuQuery = ''100 - (avg(irate(node_cpu_seconds_total{mode='' @ [CHR 0x22] @ ''idle'' @ [CHR 0x22] @ ''}[1m])) * 100)''"

text \<open>The value of the first sample of a query; \<open>None\<close> when the query failed or has no sample.\<close>

definition firstValue :: "(string \<Rightarrow> httpReply) \<Rightarrow> 'f floats \<Rightarrow> string \<Rightarrow> 'f option" where
  "firstValue reply F q =
     (case QueryVector reply q of
        Inl _ \<Rightarrow> None
      | Inr resp \<Rightarrow> (case Result resp of [] \<Rightarrow> None | r # _ \<Rightarrow> Some (parsePromValue F (SValue r))))"

definition GetNode :: "(string \<Rightarrow> httpReply) \<Rightarrow> 'f floats \<Rightarrow> 'f nodeFloats \<Rightarrow> 'f nodeMetric" where
  "GetNode reply F N =
     (let n0 = \<lparr>CPUUtilizationPercent = zeroFloat F, MemTotalBytes = 0, MemAvailableBytes = 0, MemUsedPercent = zeroFloat F\<rparr>;
          n1 = (case firstValue reply F cpuQuery of None \<Rightarrow> n0 | Some v \<Rightarrow> n0\<lparr>CPUUtilizationPercent := v\<rparr>);
          n2 = (case firstValue reply F ''node_memory_MemTotal_bytes'' of None \<Rightarrow> n1 | Some v \<Rightarrow> n1\<lparr>MemTotalBytes := toUint64 N v\<rparr>);
          n3 = (case firstValue reply F ''node_memory_MemAvailable_bytes'' of None \<Rightarrow> n2
                | Some v \<Rightarrow> n2\<lparr>MemAvailableBytes := toUint64 N v\<rparr>) in
      if MemTotalBytes n3 > 0 then
        (let used = ofUint64 N (MemTotalBytes n3 - MemAvailableBytes n3) in
         n3\<lparr>MemUsedPercent := percentOf N used (ofUint64 N (MemTotalBytes n3))\<rparr>)
      else n3)"

text \<open>The cached client keeps the last node metrics the way it keeps the GPUs.\<close>

definition cachedGetNode ::
  "int \<Rightarrow> 'f nodeMetric cache \<Rightarrow> int \<Rightarrow> int \<Rightarrow> 'f nodeMetric cache \<Rightarrow> 'e + 'f nodeMetric \<Rightarrow> ('e + 'f nodeMetric) \<times> 'f nodeMetric cache" where
  "cachedGetNode t c now now' c' upstream = cachedGet t c now now' c' upstream"

text \<open>The bytes the percentage is computed from.\<close>

definition usedBytes :: "'f nodeMetric \<Rightarrow> 64 word" where
  "usedBytes n = MemTotalBytes n - MemAvailableBytes n"

lemma GetNode_fields:
  "MemTotalBytes (GetNode reply F N) = (case firstValue reply F ''node_memory_MemTotal_bytes'' of None \<Rightarrow> 0 | Some v \<Rightarrow> toUint64 N v)"
  "MemAvailableBytes (GetNode reply F N) = (case firstValue reply F ''node_memory_MemAvailable_bytes'' of None \<Rightarrow> 0 | Some v \<Rightarrow> toUint64 N v)"
  "MemUsedPercent (GetNode reply F N) =
     (if MemTotalBytes (GetNode reply F N) = 0 then zeroFloat F
      else percentOf N (ofUint64 N (usedBytes (GetNode reply F N))) (ofUint64 N (MemTotalBytes (GetNode reply F N))))"
  by (simp_all add: GetNode_def Let_def usedBytes_def word_greater_zero_iff split: option.split)

lemma word_minus_wrap:
  fixes a b :: "64 word"
  shows "unat (a - b) = (if b \<le> a then unat a - unat b else 2 ^ 64 - (unat b - unat a))"
  by (simp add: unat_sub_if_size word_size word_le_nat_alt) (metis add.commute)


end
