(* ===== verification/Spec2Isabelle.thy ===== *)
theory Spec2Isabelle
  imports Startup StateExamples ComputePolicy ReleaseBinding Admission TelemetryNode StrictJson
begin

text \<open>
  A verification of the VerdantFlare station runtime (\<^verbatim>\<open>src/\<close>, Go): the service that runs App
  workers of a station on Kubernetes under a PostgreSQL journal, reports the state of the
  station's Deployments to Core over a stream, and admits tasks onto GPUs.

  \<^bold>\<open>Parts of the program and their theories\<close>

  \<^item> \<^verbatim>\<open>internal/appinstances\<close>, the App instance service. A caller (the App's own management
    service) asks over HTTP to start, to inspect or to stop a worker. \<open>AppProfile\<close> (profile.go)
    has the profiles and their loader, \<open>AppObjects\<close> (objects.go) identities, names and the
    objects of a run, \<open>AppVolume\<close> (storage.go, and \<^verbatim>\<open>EnsurePoolClaim\<close> of instances/workspaces.go)
    the inspection and the claim of its volume, \<open>AppWorker\<close> (ensure.go, observe.go, remove.go,
    worker_probe.go, worker_stop.go) the worker in the cluster, \<open>AppLedger\<close> the invariant of the
    recorded steps, \<open>AppJournal\<close> (journal.go, stop_journal.go, access.go) the operations Accept,
    Start, AdvanceResources, Access and Stop, and \<open>AppServer\<close> (http.go, authorization.go,
    http_client.go and the wiring in main.go) the HTTP service with its registry of callers and the
    authorization call to Core.
  \<^item> \<^verbatim>\<open>internal/appstate\<close>, the state collector. \<open>StateWire\<close> (wire.generated.go and the observation
    of observer.go) has the messages and their encoding, \<open>StateClient\<close> (client.go, config.go) the
    handshake, the reader, the sender and the configuration, \<open>StateSession\<close> (observer.go) the
    inventory, the snapshot, the select loop, the session and the reconnect loop, \<open>StateWatch\<close>
    (the goroutines of observer.go and health.go) the watches and the health probes.
  \<^item> \<open>Telemetry\<close> and \<open>TelemetryNode\<close> (\<^verbatim>\<open>internal/telemetry\<close>) and \<open>Admission\<close> (\<^verbatim>\<open>internal/scheduler\<close>):
    GPU and host metrics, their cache, and admission with a safety headroom.
  \<^item> \<open>StrictJson\<close> (\<^verbatim>\<open>internal/strictjson\<close>), \<open>ReleaseBinding\<close> (\<^verbatim>\<open>internal/releasebinding\<close>),
    \<open>ComputePolicy\<close> (\<^verbatim>\<open>internal/computepolicy\<close>) and \<open>Startup\<close> (checks of
    \<^verbatim>\<open>cmd/station-runtime/main.go\<close>).
  \<^item> \<open>Prelude\<close> (results, \<^verbatim>\<open>int64\<close>, strings, seen maps), \<open>Prog\<close> (interaction trees), \<open>Kube\<close> (objects
    and requests of the cluster) and \<open>Url\<close> (\<^verbatim>\<open>net/url\<close>, \<^verbatim>\<open>strconv.Atoi\<close>) are shared.

  \<^bold>\<open>How code becomes definitions\<close>

  Pure functions are HOL functions; a call that fails returns \<open>Inl\<close> an error. Code that talks to
  the cluster, the database, HTTP services or the clock is a tree of requests (\<open>Prog\<close>), with one
  branch for each reply, so that every statement is about all behaviours of the environment.
  \<open>runs\<close> relates a tree to a complete history, \<open>issues\<close> to the requests of its prefixes, and
  \<open>holds\<close> is the corresponding weakest precondition in a world. \<open>AppWorld\<close> gives the world of the
  journal: committed and pending rows, session and transaction locks, and interference by other
  sessions between any two requests, limited by what these sessions guarantee themselves
  (\<open>rely\<close>, \<open>guarantee\<close>). Goroutines that share channels are step relations (\<open>StateWatch\<close>) or an
  explicit interleaving (\<open>StateClient\<close>).

  Third-party code is a parameter: UUID parsing, DNS name checks, hashes, media types, reflective
  JSON decoding (\<open>codec\<close>), semantic equality of Kubernetes specs, floating-point operations.
  Integers that may overflow are kept at their width (\<open>i64\<close>, 64-bit words).

  \<^bold>\<open>What is shown\<close>

  \<^item> \<open>AppSafety\<close>, \<open>AppTx\<close>, \<open>AppAcceptSafety\<close>, \<open>AppStopSafety\<close>, \<open>AppGuarantees\<close>: every commit and every
    change of the cluster that Start, Accept, Stop, Access or an HTTP request can lead to is
    permitted, in every interleaving; at most one start of an instance is active; what one session
    commits is what the others rely on. The contracts between the journal and the worker code are
    the locales of \<open>AppLedger\<close>, interpreted on the journal's checkpoints.
  \<^item> \<open>AppServer\<close>, \<open>Startup\<close>: who reaches the journal, what an authorization proves, that credentials
    are separate.
  \<^item> \<open>StateProtocol\<close>: inventories are complete, snapshots fit the protocol and add up, every frame of
    every run refines an abstract monitor of the stream, the reconnect loop waits within bounds
    and gives up only for the documented reasons. \<open>StateWatch\<close>, \<open>StateClient\<close>, \<open>StateWire\<close>: no event is
    lost silently, terminal errors are delivered, messages are bounded and depend on an allowlist.
  \<^item> \<open>Admission\<close>, \<open>Telemetry\<close>, \<open>StrictJson\<close>, \<open>ReleaseBinding\<close>, \<open>ComputePolicy\<close>: the functional contracts of
    these components; a cached telemetry client is again a telemetry source (locales \<open>source\<close>,
    \<open>cached_source\<close>).

  \<^bold>\<open>Bounds\<close>

  Trees are finite, so loops without a bound of their own carry the number of iterations of the
  run: the pages of an inventory (the calls its context of fifteen seconds admits), the turns of a
  select loop, the rounds of a session, the sessions of the reconnect loop, and the polls of a
  worker (the code's own limits). The theorems hold for all these numbers, and what they say about
  requests holds for prefixes, so that no behaviour is cut off.

  \<^bold>\<open>Not modelled\<close>

  The older instance protocol (\<^verbatim>\<open>internal/instances\<close>, except \<^verbatim>\<open>EnsurePoolClaim\<close>), the App template
  executor with its management transitions (\<^verbatim>\<open>internal/executor\<close>), the build-time release builder,
  the generated RPC bindings, and process wiring (listeners, signals, transport settings). The
  plan continues with the execution journal and the management transitions of the executor, then
  the storage administration of the instances.
\<close>

end
